theory Spec2Isabelle
  imports Complex_Main
begin

section \<open>Cosmic Drift: the frame simulation of \<open>src/game.js\<close>\<close>

text \<open>
  The theory embeds the simulation part of the class \<open>Game\<close>: the damage procedure,
  the spawning with its weighted category draw, the collection effects, the autonomous
  pilot, the frame update, the frame loop and the handlers that start, pause and feed a
  run. Drawing, the DOM, local storage and the particle lists (explosions, trails, stars)
  have no effect on the simulated quantities and are left out.
\<close>

subsection \<open>Numbers\<close>

text \<open>
  A JavaScript number that can come out of a division or a square root is modelled as a
  real number, one of the two infinities, or NaN. Overflow to an infinity and the sign of
  zero are not modelled, and neither is rounding, but for the one product named at the
  field \<open>rounded\<close> below: a finite value is an exact real and zero counts as
  \<open>+0\<close>. Quantities that the code only ever builds from constants, draws of
  \<open>Math.random()\<close> and elapsed time (timers, energy, multiplier, radii, the position
  of a hole) are plain reals; counters are integers.
\<close>

datatype num = Fin real | PInf | NInf | NaN

fun n_neg :: "num \<Rightarrow> num" where
  "n_neg (Fin a) = Fin (- a)"
| "n_neg PInf = NInf"
| "n_neg NInf = PInf"
| "n_neg NaN = NaN"

fun n_add :: "num \<Rightarrow> num \<Rightarrow> num" where
  "n_add (Fin a) (Fin b) = Fin (a + b)"
| "n_add NaN _ = NaN"
| "n_add _ NaN = NaN"
| "n_add PInf NInf = NaN"
| "n_add NInf PInf = NaN"
| "n_add PInf _ = PInf"
| "n_add _ PInf = PInf"
| "n_add NInf _ = NInf"
| "n_add _ NInf = NInf"

definition n_sub :: "num \<Rightarrow> num \<Rightarrow> num" where
  "n_sub a b = n_add a (n_neg b)"

text \<open>The infinity of the given sign (\<open>True\<close> is negative).\<close>

definition inf_of :: "bool \<Rightarrow> num" where
  "inf_of negative = (if negative then NInf else PInf)"

fun n_mul :: "num \<Rightarrow> num \<Rightarrow> num" where
  "n_mul (Fin a) (Fin b) = Fin (a * b)"
| "n_mul NaN _ = NaN"
| "n_mul _ NaN = NaN"
| "n_mul (Fin a) PInf = (if a = 0 then NaN else inf_of (a < 0))"
| "n_mul (Fin a) NInf = (if a = 0 then NaN else inf_of (0 < a))"
| "n_mul PInf (Fin b) = (if b = 0 then NaN else inf_of (b < 0))"
| "n_mul NInf (Fin b) = (if b = 0 then NaN else inf_of (0 < b))"
| "n_mul PInf PInf = PInf"
| "n_mul NInf NInf = PInf"
| "n_mul PInf NInf = NInf"
| "n_mul NInf PInf = NInf"

fun n_div :: "num \<Rightarrow> num \<Rightarrow> num" where
  "n_div (Fin a) (Fin b) =
     (if b \<noteq> 0 then Fin (a / b) else if a = 0 then NaN else inf_of (a < 0))"
| "n_div NaN _ = NaN"
| "n_div _ NaN = NaN"
| "n_div (Fin a) PInf = Fin 0"
| "n_div (Fin a) NInf = Fin 0"
| "n_div PInf (Fin b) = inf_of (b < 0)"
| "n_div NInf (Fin b) = inf_of (0 \<le> b)"
| "n_div PInf PInf = NaN"
| "n_div PInf NInf = NaN"
| "n_div NInf PInf = NaN"
| "n_div NInf NInf = NaN"

fun n_sqrt :: "num \<Rightarrow> num" where
  "n_sqrt (Fin a) = (if a < 0 then NaN else Fin (sqrt a))"
| "n_sqrt PInf = PInf"
| "n_sqrt NInf = NaN"
| "n_sqrt NaN = NaN"

text \<open>\<open>a < b\<close>: false as soon as one side is NaN.\<close>

fun n_lt :: "num \<Rightarrow> num \<Rightarrow> bool" where
  "n_lt (Fin a) (Fin b) = (a < b)"
| "n_lt NaN _ = False"
| "n_lt _ NaN = False"
| "n_lt _ NInf = False"
| "n_lt PInf _ = False"
| "n_lt NInf _ = True"
| "n_lt _ PInf = True"

text \<open>\<open>a > b\<close>.\<close>

definition n_gt :: "num \<Rightarrow> num \<Rightarrow> bool" where
  "n_gt a b = n_lt b a"

text \<open>\<open>Math.min\<close> and \<open>Math.max\<close>: NaN as soon as one argument is NaN.\<close>

definition n_min :: "num \<Rightarrow> num \<Rightarrow> num" where
  "n_min a b = (if a = NaN \<or> b = NaN then NaN else if n_lt b a then b else a)"

definition n_max :: "num \<Rightarrow> num \<Rightarrow> num" where
  "n_max a b = (if a = NaN \<or> b = NaN then NaN else if n_lt a b then b else a)"

text \<open>\<open>Math.hypot\<close>: an infinite argument wins over NaN.\<close>

definition n_hypot :: "num \<Rightarrow> num \<Rightarrow> num" where
  "n_hypot a b =
     (if a = PInf \<or> a = NInf \<or> b = PInf \<or> b = NInf then PInf
      else n_sqrt (n_add (n_mul a a) (n_mul b b)))"

text \<open>\<open>Math.sqrt(dx * dx + dy * dy)\<close>, the distance the code computes everywhere.\<close>

definition dist2 :: "num \<Rightarrow> num \<Rightarrow> num" where
  "dist2 dx dy = n_sqrt (n_add (n_mul dx dx) (n_mul dy dy))"

subsection \<open>Entities and the game object\<close>

datatype ctype = Energy | Points | Multiplier | Shield

datatype ship = Speeder | Balanced | Tank

record player =
  p_x :: num
  p_y :: num
  p_vx :: num
  p_vy :: num
  p_radius :: real
  thrust :: real
  maxSpeed :: real
  friction :: real
  boosting :: bool
  invincible :: bool
  invincibleTimer :: real

record collectible =
  c_x :: num
  c_y :: num
  c_vx :: num
  c_vy :: num
  c_radius :: real
  c_type :: ctype
  c_lifetime :: real

record blackHole =
  h_x :: real
  h_y :: real
  h_radius :: real
  pullRadius :: real
  strength :: real
  h_lifetime :: real
  maxLifetime :: real
  shootTimer :: real
  shootInterval :: real

record bullet =
  b_x :: num
  b_y :: num
  b_vx :: num
  b_vy :: num
  b_radius :: real
  life :: real

text \<open>
  The game object once \<open>createPlayer\<close> has run, so \<open>player\<close> is an object and the
  checks \<open>if (!this.player)\<close> and \<open>this.player &&\<close> of the source always pass.
  \<open>keySpace\<close> is \<open>this.keys['Space']\<close>; \<open>width\<close> and \<open>height\<close> are the canvas
  size. \<open>Math.random()\<close> reads the stream \<open>rand\<close> at the cursor \<open>rpos\<close>; the
  draws of the particle effects are not taken from it. \<open>rounded x\<close> is the double
  that the exact result \<open>x\<close> of a multiplication is rounded to. It stands where the
  program takes the floor of a product that is not exact in doubles, \<open>Math.random() * 3\<close>
  in \<open>collectItem\<close>. The other floors are of a draw times 4, which is exact in
  doubles, and of the base points times a multiplier, which in a run is a multiple of one
  half.
\<close>

record game =
  botEnabled :: bool
  isRunning :: bool
  isPaused :: bool
  score :: int
  level :: int
  multiplier :: real
  energy :: real
  highScore :: int
  keySpace :: bool
  mouseX :: num
  mouseY :: num
  mouseDown :: bool
  player :: player
  collectibles :: "collectible list"
  blackHoles :: "blackHole list"
  bullets :: "bullet list"
  lastTime :: real
  deltaTime :: real
  spawnTimer :: real
  difficultyTimer :: real
  selectedShip :: ship
  hp :: int
  maxHP :: int
  coins :: int
  sessionCoins :: int
  width :: real
  height :: real
  rand :: "nat \<Rightarrow> real"
  rpos :: nat
  rounded :: "real \<Rightarrow> real"

definition mathRandom :: "game \<Rightarrow> real \<times> game" where
  "mathRandom s = (rand s (rpos s), s\<lparr>rpos := rpos s + 1\<rparr>)"

subsection \<open>Damage and game over\<close>

definition takeDamage :: "game \<Rightarrow> bool \<times> game" where
  "takeDamage s =
     (if invincible (player s) then (False, s)
      else
        let s1 = s\<lparr>hp := hp s - 1\<rparr> in
        if hp s1 \<le> 0 then (True, s1)
        else (False, s1\<lparr>player := (player s1)\<lparr>invincible := True, invincibleTimer := 120\<rparr>\<rparr>))"

definition gameOver :: "game \<Rightarrow> game" where
  "gameOver s =
     s\<lparr>isRunning := False,
       highScore := (if score s > highScore s then score s else highScore s)\<rparr>"

subsection \<open>Spawning\<close>

text \<open>
  The category draw of \<open>spawnCollectible\<close>: the loop over \<open>weights\<close> with the
  running subtraction; \<open>t\<close> is the value \<open>type\<close> holds when the loop ends without
  a \<open>break\<close>.
\<close>

definition types :: "ctype list" where
  "types = [Energy, Points, Multiplier, Shield]"

definition weights :: "real list" where
  "weights = [0.4, 0.35, 0.15, 0.1]"

fun pickLoop :: "(ctype \<times> real) list \<Rightarrow> real \<Rightarrow> ctype \<Rightarrow> ctype" where
  "pickLoop [] r t = t"
| "pickLoop ((ty, w) # rest) r t = (if r < w then ty else pickLoop rest (r - w) t)"

definition pickType :: "real \<Rightarrow> ctype" where
  "pickType u = pickLoop (zip types weights) u (hd types)"

text \<open>
  The category draw as the specification words it: the first category whose running
  cumulative weight exceeds the draw, and the last category when no threshold is met.
\<close>

fun specLoop :: "(ctype \<times> real) list \<Rightarrow> real \<Rightarrow> real \<Rightarrow> ctype \<Rightarrow> ctype" where
  "specLoop [] u acc d = d"
| "specLoop ((ty, w) # rest) u acc d = (if u < acc + w then ty else specLoop rest u (acc + w) d)"

definition specPickType :: "real \<Rightarrow> ctype" where
  "specPickType u = specLoop (zip types weights) u 0 (last types)"

text \<open>
  \<open>spawnCollectible\<close>. An edge number outside 0..3 leaves \<open>x\<close> and \<open>y\<close>
  undefined, which every later use turns into NaN.
\<close>

definition spawnCollectible :: "game \<Rightarrow> game" where
  "spawnCollectible s0 =
     (let (u, s1) = mathRandom s0;
          edge = \<lfloor>u * 4\<rfloor>;
          (x, y, s2) =
            (if edge = 0 then (let (r, s') = mathRandom s1 in (Fin (r * width s'), Fin (- 30), s'))
             else if edge = 1 then
               (let (r, s') = mathRandom s1 in (Fin (width s' + 30), Fin (r * height s'), s'))
             else if edge = 2 then
               (let (r, s') = mathRandom s1 in (Fin (r * width s'), Fin (height s' + 30), s'))
             else if edge = 3 then
               (let (r, s') = mathRandom s1 in (Fin (- 30), Fin (r * height s'), s'))
             else (NaN, NaN, s1));
          (rt, s3) = mathRandom s2;
          ty = pickType rt;
          (rx, s4) = mathRandom s3;
          targetX = width s4 * (0.2 + rx * 0.6);
          (ry, s5) = mathRandom s4;
          targetY = height s5 * (0.2 + ry * 0.6);
          dx = n_sub (Fin targetX) x;
          dy = n_sub (Fin targetY) y;
          dist = dist2 dx dy;
          (rs, s6) = mathRandom s5;
          speed = 1 + rs * 2
      in s6\<lparr>collectibles := collectibles s6 @
              [\<lparr>c_x = x, c_y = y,
                c_vx = n_mul (n_div dx dist) (Fin speed),
                c_vy = n_mul (n_div dy dist) (Fin speed),
                c_radius = 12, c_type = ty, c_lifetime = 0\<rparr>]\<rparr>)"

text \<open>
  The \<open>do ... while\<close> of \<open>spawnBlackHole\<close>. \<open>samplePoint\<close> is one pass of its
  body. The argument of \<open>placeHole\<close> is the number of attempts still allowed after this
  one: the loop goes on while \<open>attempts < 50\<close> and the point is closer than 200 to the
  player, so it starts at 49.
\<close>

definition samplePoint :: "game \<Rightarrow> real \<times> real \<times> game" where
  "samplePoint s0 =
     (let margin = 100;
          (rx, s1) = mathRandom s0;
          x = margin + rx * (width s1 - margin * 2);
          (ry, s2) = mathRandom s1;
          y = margin + ry * (height s2 - margin * 2)
      in (x, y, s2))"

fun placeHole :: "nat \<Rightarrow> game \<Rightarrow> real \<times> real \<times> game" where
  "placeHole 0 s0 = samplePoint s0"
| "placeHole (Suc k) s0 =
     (let (x, y, s2) = samplePoint s0
      in if n_lt (n_hypot (n_sub (Fin x) (p_x (player s2))) (n_sub (Fin y) (p_y (player s2))))
              (Fin 200)
         then placeHole k s2 else (x, y, s2))"

definition spawnBlackHole :: "game \<Rightarrow> game" where
  "spawnBlackHole s0 =
     (let (x, y, s1) = placeHole 49 s0;
          (r1, s2) = mathRandom s1;
          (r2, s3) = mathRandom s2;
          (r3, s4) = mathRandom s3;
          (r4, s5) = mathRandom s4
      in s5\<lparr>blackHoles := blackHoles s5 @
              [\<lparr>h_x = x, h_y = y,
                h_radius = 30 + r1 * 20,
                pullRadius = 150 + r2 * 100,
                strength = 0.3 + (real_of_int (level s5) * 0.05),
                h_lifetime = 0,
                maxLifetime = 500 + r3 * 300,
                shootTimer = 0,
                shootInterval = 120 + r4 * 60\<rparr>]\<rparr>)"

definition spawnBullet :: "blackHole \<Rightarrow> game \<Rightarrow> game" where
  "spawnBullet hole s =
     (let dx = n_sub (p_x (player s)) (Fin (h_x hole));
          dy = n_sub (p_y (player s)) (Fin (h_y hole));
          dist = dist2 dx dy;
          speed = 4 + real_of_int (level s) * 0.3
      in s\<lparr>bullets := bullets s @
             [\<lparr>b_x = Fin (h_x hole), b_y = Fin (h_y hole),
               b_vx = n_mul (n_div dx dist) (Fin speed),
               b_vy = n_mul (n_div dy dist) (Fin speed),
               b_radius = 6, life = 300\<rparr>]\<rparr>)"

subsection \<open>Collection effects\<close>

definition addCoins :: "int \<Rightarrow> game \<Rightarrow> game" where
  "addCoins amount s = s\<lparr>coins := coins s + amount, sessionCoins := sessionCoins s + amount\<rparr>"

definition basePoints :: real where
  "basePoints = 100"

fun collectItem :: "ctype \<Rightarrow> game \<Rightarrow> game" where
  "collectItem Energy s =
     (let s1 = s\<lparr>energy := min 100 (energy s + 30)\<rparr>
      in s1\<lparr>score := score s1 + \<lfloor>basePoints * 0.5 * multiplier s1\<rfloor>\<rparr>)"
| "collectItem Points s =
     (let s1 = s\<lparr>score := score s + \<lfloor>basePoints * multiplier s\<rfloor>\<rparr>;
          (r, s2) = mathRandom s1;
          coinsEarned = \<lfloor>rounded s2 (r * 3)\<rfloor> + 1
      in addCoins coinsEarned s2)"
| "collectItem Multiplier s =
     (let s1 = s\<lparr>multiplier := min (multiplier s + 0.5) 10\<rparr>
      in s1\<lparr>score := score s1 + \<lfloor>basePoints * 0.75 * multiplier s1\<rfloor>\<rparr>)"
| "collectItem Shield s =
     (let s1 = s\<lparr>player := (player s)\<lparr>invincible := True, invincibleTimer := 180\<rparr>\<rparr>
      in s1\<lparr>score := score s1 + \<lfloor>basePoints * 0.5 * multiplier s1\<rfloor>\<rparr>)"

subsection \<open>The autonomous pilot\<close>

fun dangerHoles :: "collectible \<Rightarrow> blackHole list \<Rightarrow> num \<Rightarrow> num" where
  "dangerHoles c [] dangerScore = dangerScore"
| "dangerHoles c (hole # rest) dangerScore =
     (let holeDist = n_hypot (n_sub (c_x c) (Fin (h_x hole))) (n_sub (c_y c) (Fin (h_y hole)))
      in dangerHoles c rest
           (if n_lt holeDist (Fin (pullRadius hole))
            then n_add dangerScore (n_mul (n_sub (Fin (pullRadius hole)) holeDist) (Fin 2))
            else dangerScore))"

fun dangerBullets :: "collectible \<Rightarrow> bullet list \<Rightarrow> num \<Rightarrow> num" where
  "dangerBullets c [] dangerScore = dangerScore"
| "dangerBullets c (bullet # rest) dangerScore =
     (let bulletDist = n_hypot (n_sub (c_x c) (b_x bullet)) (n_sub (c_y c) (b_y bullet))
      in dangerBullets c rest
           (if n_lt bulletDist (Fin 80) then n_add dangerScore (Fin 100) else dangerScore))"

definition typeBonus :: "ctype \<Rightarrow> real \<Rightarrow> real" where
  "typeBonus ty e =
     (if ty = Shield then 200
      else if ty = Multiplier then 150
      else if ty = Energy \<and> e < 50 then 180
      else if ty = Points then 100
      else 0)"

fun bestLoop :: "collectible list \<Rightarrow> game \<Rightarrow> collectible option \<times> num \<Rightarrow> collectible option \<times> num"
where
  "bestLoop [] s best = best"
| "bestLoop (c # cs) s (bestCollectible, bestScore) =
     (let dx = n_sub (c_x c) (p_x (player s));
          dy = n_sub (c_y c) (p_y (player s));
          dist = dist2 dx dy;
          dangerScore = dangerBullets c (bullets s) (dangerHoles c (blackHoles s) (Fin 0));
          sc = n_sub (n_sub (Fin (typeBonus (c_type c) (energy s))) dist) dangerScore
      in if n_gt sc bestScore then bestLoop cs s (Some c, sc)
         else bestLoop cs s (bestCollectible, bestScore))"

fun evadeHoles :: "player \<Rightarrow> blackHole list \<Rightarrow> num \<times> num \<times> bool \<Rightarrow> num \<times> num \<times> bool" where
  "evadeHoles p [] acc = acc"
| "evadeHoles p (hole # rest) (evadeX, evadeY, inDanger) =
     (let dx = n_sub (p_x p) (Fin (h_x hole));
          dy = n_sub (p_y p) (Fin (h_y hole));
          dist = dist2 dx dy
      in if n_lt dist (Fin (pullRadius hole * 0.8)) then
           (let urgency = n_sub (Fin 1) (n_div dist (Fin (pullRadius hole * 0.8)))
            in evadeHoles p rest
                 (n_add evadeX (n_mul (n_mul (n_div dx dist) urgency) (Fin 2)),
                  n_add evadeY (n_mul (n_mul (n_div dy dist) urgency) (Fin 2)),
                  True))
         else evadeHoles p rest (evadeX, evadeY, inDanger))"

fun evadeBullets :: "player \<Rightarrow> bullet list \<Rightarrow> num \<times> num \<times> bool \<Rightarrow> num \<times> num \<times> bool" where
  "evadeBullets p [] acc = acc"
| "evadeBullets p (bullet # rest) (evadeX, evadeY, inDanger) =
     (let dx = n_sub (p_x p) (b_x bullet);
          dy = n_sub (p_y p) (b_y bullet);
          dist = dist2 dx dy
      in if n_lt dist (Fin 100) then
           (let urgency = n_sub (Fin 1) (n_div dist (Fin 100))
            in evadeBullets p rest
                 (n_add evadeX (n_mul (n_mul (n_div dx dist) urgency) (Fin 3)),
                  n_add evadeY (n_mul (n_mul (n_div dy dist) urgency) (Fin 3)),
                  True))
         else evadeBullets p rest (evadeX, evadeY, inDanger))"

definition bestOf :: "game \<Rightarrow> collectible option" where
  "bestOf s = fst (bestLoop (collectibles s) s (None, NInf))"

definition evasion :: "game \<Rightarrow> num \<times> num \<times> bool" where
  "evasion s =
     evadeBullets (player s) (bullets s)
       (evadeHoles (player s) (blackHoles s) (Fin 0, Fin 0, False))"

text \<open>
  \<open>updateBot\<close>, lines 491 to 598. \<open>d1\<close> and \<open>d2\<close> are the two readings of
  \<open>Date.now()\<close> in the patrol branch.
\<close>

definition updateBot :: "real \<Rightarrow> real \<Rightarrow> game \<Rightarrow> game" where
  "updateBot d1 d2 s =
     (if \<not> botEnabled s then s
      else
        let p = player s;
            bestCollectible = bestOf s;
            (evadeX, evadeY, inDanger) = evasion s;
            s1 =
              (if inDanger then
                 (let evadeDist = dist2 evadeX evadeY;
                      s' = (if n_gt evadeDist (Fin 0)
                            then s\<lparr>mouseX := n_add (p_x p) (n_mul (n_div evadeX evadeDist) (Fin 200)),
                                   mouseY := n_add (p_y p) (n_mul (n_div evadeY evadeDist) (Fin 200))\<rparr>
                            else s)
                  in s'\<lparr>mouseDown := energy s > 20\<rparr>)
               else
                 (case bestCollectible of
                    Some c \<Rightarrow>
                      (let distToTarget =
                             n_hypot (n_sub (c_x c) (p_x p)) (n_sub (c_y c) (p_y p))
                       in s\<lparr>mouseX := c_x c, mouseY := c_y c,
                             mouseDown := (n_gt distToTarget (Fin 200) \<and> energy s > 30)\<rparr>)
                  | None \<Rightarrow>
                      s\<lparr>mouseX := Fin (width s / 2 + sin (d1 * 0.001) * 200),
                        mouseY := Fin (height s / 2 + cos (d2 * 0.001) * 150),
                        mouseDown := False\<rparr>))
        in s1\<lparr>mouseX := n_max (Fin 50) (n_min (Fin (width s1 - 50)) (mouseX s1)),
               mouseY := n_max (Fin 50) (n_min (Fin (height s1 - 50)) (mouseY s1))\<rparr>)"

subsection \<open>The frame update\<close>

text \<open>Lines 729 to 754: direction to the target, boost, energy, thrust.\<close>

definition thrustPhase :: "real \<Rightarrow> game \<Rightarrow> game" where
  "thrustPhase dt s =
     (let p = player s;
          dx = n_sub (mouseX s) (p_x p);
          dy = n_sub (mouseY s) (p_y p);
          distToMouse = dist2 dx dy;
          (ax, ay) =
            (if n_gt distToMouse (Fin 5) then (n_div dx distToMouse, n_div dy distToMouse)
             else (Fin 0, Fin 0));
          boost = ((mouseDown s \<or> keySpace s) \<and> energy s > 0);
          thrustMult = (if boost then 2.5 else 1);
          e = (if boost then max 0 (energy s - 0.5 * dt) else min 100 (energy s + 0.1 * dt));
          accelFactor =
            n_mul (n_mul (n_min (n_div distToMouse (Fin 100)) (Fin 1)) (Fin (thrust p)))
              (Fin thrustMult)
      in s\<lparr>energy := e,
            player := p\<lparr>boosting := boost,
                        p_vx := n_add (p_vx p) (n_mul (n_mul ax accelFactor) (Fin dt)),
                        p_vy := n_add (p_vy p) (n_mul (n_mul ay accelFactor) (Fin dt))\<rparr>\<rparr>)"

text \<open>Lines 758 to 766: the distance to a hole and its pull on the player.\<close>

definition holeDist :: "blackHole \<Rightarrow> player \<Rightarrow> num" where
  "holeDist hole p =
     dist2 (n_sub (Fin (h_x hole)) (p_x p)) (n_sub (Fin (h_y hole)) (p_y p))"

definition gravity :: "real \<Rightarrow> blackHole \<Rightarrow> player \<Rightarrow> player" where
  "gravity dt hole p =
     (let dx = n_sub (Fin (h_x hole)) (p_x p);
          dy = n_sub (Fin (h_y hole)) (p_y p);
          dist = holeDist hole p
      in if n_lt dist (Fin (pullRadius hole)) then
           (let force =
                  n_mul (n_mul (Fin (strength hole))
                           (n_sub (Fin 1) (n_div dist (Fin (pullRadius hole)))))
                    (Fin dt)
            in p\<lparr>p_vx := n_add (p_vx p) (n_mul (n_div dx dist) force),
                  p_vy := n_add (p_vy p) (n_mul (n_div dy dist) force)\<rparr>)
         else p)"

text \<open>Line 769: the test that leads to \<open>takeDamage\<close> in the loop over the holes.\<close>

definition holeCollision :: "blackHole \<Rightarrow> player \<Rightarrow> bool" where
  "holeCollision hole p = (n_lt (holeDist hole p) (Fin (h_radius hole)) \<and> \<not> invincible p)"

text \<open>
  Lines 757 to 775. The flag is \<open>True\<close> when \<open>takeDamage\<close> returned \<open>true\<close>: the
  source then calls \<open>gameOver\<close> and returns from \<open>update\<close>.
\<close>

fun gravityLoop :: "real \<Rightarrow> blackHole list \<Rightarrow> game \<Rightarrow> bool \<times> game" where
  "gravityLoop dt [] s = (False, s)"
| "gravityLoop dt (hole # rest) s =
     (let s1 = s\<lparr>player := gravity dt hole (player s)\<rparr>
      in if holeCollision hole (player s) then
           (case takeDamage s1 of
              (True, s2) \<Rightarrow> (True, s2)
            | (False, s2) \<Rightarrow> gravityLoop dt rest s2)
         else gravityLoop dt rest s1)"

text \<open>Lines 777 to 812: friction, speed clamp, move, wrap, invincibility timer.\<close>

definition movePhase :: "real \<Rightarrow> game \<Rightarrow> game" where
  "movePhase dt s =
     (let p = player s;
          vx1 = n_mul (p_vx p) (Fin (friction p));
          vy1 = n_mul (p_vy p) (Fin (friction p));
          speed = dist2 vx1 vy1;
          maxSp = (if boosting p then maxSpeed p * 1.5 else maxSpeed p);
          (vx2, vy2) =
            (if n_gt speed (Fin maxSp)
             then (n_mul (n_div vx1 speed) (Fin maxSp), n_mul (n_div vy1 speed) (Fin maxSp))
             else (vx1, vy1));
          x1 = n_add (p_x p) (n_mul vx2 (Fin dt));
          y1 = n_add (p_y p) (n_mul vy2 (Fin dt));
          margin = p_radius p;
          x2 = (if n_lt x1 (Fin (- margin)) then Fin (width s + margin) else x1);
          x3 = (if n_gt x2 (Fin (width s + margin)) then Fin (- margin) else x2);
          y2 = (if n_lt y1 (Fin (- margin)) then Fin (height s + margin) else y1);
          y3 = (if n_gt y2 (Fin (height s + margin)) then Fin (- margin) else y2);
          timer = (if invincible p then invincibleTimer p - dt else invincibleTimer p);
          inv = (if invincible p then \<not> timer \<le> 0 else False)
      in s\<lparr>player := p\<lparr>p_vx := vx2, p_vy := vy2, p_x := x3, p_y := y3,
                        invincibleTimer := timer, invincible := inv\<rparr>\<rparr>)"

text \<open>
  Lines 826 to 850. The source walks the array from its last index down and splices as it
  goes, so the element with the highest index is handled first and the elements that stay
  keep their order: the recursive call on the tail comes before the head.
\<close>

fun collectiblesLoop :: "real \<Rightarrow> collectible list \<Rightarrow> game \<Rightarrow> collectible list \<times> game" where
  "collectiblesLoop dt [] s = ([], s)"
| "collectiblesLoop dt (c # cs) s =
     (let (kept, s1) = collectiblesLoop dt cs s;
          c1 = c\<lparr>c_x := n_add (c_x c) (n_mul (c_vx c) (Fin dt)),
                 c_y := n_add (c_y c) (n_mul (c_vy c) (Fin dt)),
                 c_lifetime := c_lifetime c + dt\<rparr>;
          dx = n_sub (p_x (player s1)) (c_x c1);
          dy = n_sub (p_y (player s1)) (c_y c1);
          dist = dist2 dx dy
      in if n_lt dist (Fin (p_radius (player s1) + c_radius c1)) then
           (kept, collectItem (c_type c1) s1)
         else if n_lt (c_x c1) (Fin (- 50)) \<or> n_gt (c_x c1) (Fin (width s1 + 50)) \<or>
                 n_lt (c_y c1) (Fin (- 50)) \<or> n_gt (c_y c1) (Fin (height s1 + 50)) \<or>
                 c_lifetime c1 > 600
         then (kept, s1)
         else (c1 # kept, s1))"

text \<open>Lines 853 to 870, in the same order; a hole that shoots appends to \<open>bullets\<close>.\<close>

fun holesLoop :: "real \<Rightarrow> blackHole list \<Rightarrow> game \<Rightarrow> blackHole list \<times> game" where
  "holesLoop dt [] s = ([], s)"
| "holesLoop dt (hole # rest) s =
     (let (kept, s1) = holesLoop dt rest s;
          h1 = hole\<lparr>h_lifetime := h_lifetime hole + dt, shootTimer := shootTimer hole + dt\<rparr>;
          (h2, s2) =
            (if shootTimer h1 \<ge> shootInterval h1 then
               (let (r, s') = mathRandom s1;
                    h' = h1\<lparr>shootTimer := 0,
                            shootInterval := max 40 (100 + r * 80 - (real_of_int (level s') * 5))\<rparr>
                in (h', spawnBullet h' s'))
             else (h1, s1))
      in if h_lifetime h2 > maxLifetime h2 then (kept, s2) else (h2 # kept, s2))"

text \<open>
  The parts of the loop over the bullets: the move of lines 880 to 882, the test of line
  890 and the test of lines 902 to 904.
\<close>

definition moveBullet :: "real \<Rightarrow> bullet \<Rightarrow> bullet" where
  "moveBullet dt b =
     b\<lparr>b_x := n_add (b_x b) (n_mul (b_vx b) (Fin dt)),
       b_y := n_add (b_y b) (n_mul (b_vy b) (Fin dt)),
       life := life b - dt\<rparr>"

definition bulletCollision :: "bullet \<Rightarrow> player \<Rightarrow> bool" where
  "bulletCollision b p =
     (n_lt (dist2 (n_sub (p_x p) (b_x b)) (n_sub (p_y p) (b_y b))) (Fin (p_radius p + b_radius b)) \<and>
      \<not> invincible p)"

definition bulletExpired :: "bullet \<Rightarrow> game \<Rightarrow> bool" where
  "bulletExpired b s =
     (life b \<le> 0 \<or>
      n_lt (b_x b) (Fin (- 50)) \<or> n_gt (b_x b) (Fin (width s + 50)) \<or>
      n_lt (b_y b) (Fin (- 50)) \<or> n_gt (b_y b) (Fin (height s + 50)))"

text \<open>
  Lines 873 to 907, in the same order. The flag is \<open>True\<close> when \<open>takeDamage\<close>
  returned \<open>true\<close>; the loop has then stopped, and the bullets with a lower index are
  as they were.
\<close>

fun bulletsLoop :: "real \<Rightarrow> bullet list \<Rightarrow> game \<Rightarrow> bool \<times> bullet list \<times> game" where
  "bulletsLoop dt [] s = (False, [], s)"
| "bulletsLoop dt (b # rest) s =
     (case bulletsLoop dt rest s of
        (True, kept, s1) \<Rightarrow> (True, b # kept, s1)
      | (False, kept, s1) \<Rightarrow>
          (let b1 = moveBullet dt b
           in if bulletCollision b1 (player s1)
              then (case takeDamage s1 of (dead, s2) \<Rightarrow> (dead, kept, s2))
              else if bulletExpired b1 s1 then (False, kept, s1)
              else (False, b1 # kept, s1)))"

text \<open>Lines 935 to 952: the timers, the collectible spawn, the hole spawn.\<close>

definition spawnPhase :: "real \<Rightarrow> game \<Rightarrow> game" where
  "spawnPhase dt s =
     (let s1 = s\<lparr>spawnTimer := spawnTimer s + dt, difficultyTimer := difficultyTimer s + dt\<rparr>;
          s2 =
            (if spawnTimer s1 > 60 then
               (let s' = spawnCollectible (s1\<lparr>spawnTimer := 0\<rparr>);
                    (r, s'') = mathRandom s'
                in if r < 0.3 + (real_of_int (level s'') * 0.05) then spawnCollectible s'' else s'')
             else s1)
      in if int (length (blackHoles s2)) < min (3 + level s2 div 2) 8 then
           (let (r, s') = mathRandom s2
            in if r < 0.005 * real_of_int (level s') then spawnBlackHole s' else s')
         else s2)"

text \<open>Lines 955 to 962.\<close>

definition difficultyPhase :: "game \<Rightarrow> game" where
  "difficultyPhase s =
     (if difficultyTimer s > 1800
      then s\<lparr>difficultyTimer := 0, level := level s + 1,
             multiplier := min (multiplier s + 0.5) 10\<rparr>
      else s)"

text \<open>
  \<open>update\<close>, lines 724 to 969. \<open>dtOf\<close> is line 727. \<open>tickBody\<close> is everything
  before the call of \<open>updateBot\<close>; its flag says whether the frame ended in
  \<open>gameOver\<close> and the early return.
\<close>

definition dtOf :: "game \<Rightarrow> real" where
  "dtOf s = deltaTime s / 16.67"

definition tickBody :: "game \<Rightarrow> bool \<times> game" where
  "tickBody s =
     (let dt = dtOf s;
          s1 = thrustPhase dt s
      in case gravityLoop dt (blackHoles s1) s1 of
           (True, s2) \<Rightarrow> (True, gameOver s2)
         | (False, s2) \<Rightarrow>
             (let s3 = movePhase dt s2;
                  (keptC, s4) = collectiblesLoop dt (collectibles s3) s3;
                  s5 = s4\<lparr>collectibles := keptC\<rparr>;
                  (keptH, s6) = holesLoop dt (blackHoles s5) s5;
                  s7 = s6\<lparr>blackHoles := keptH\<rparr>
              in case bulletsLoop dt (bullets s7) s7 of
                   (True, keptB, s8) \<Rightarrow> (True, gameOver (s8\<lparr>bullets := keptB\<rparr>))
                 | (False, keptB, s8) \<Rightarrow>
                     (False, difficultyPhase (spawnPhase dt (s8\<lparr>bullets := keptB\<rparr>)))))"

definition update :: "real \<Rightarrow> real \<Rightarrow> game \<Rightarrow> game" where
  "update d1 d2 s =
     (case tickBody s of
        (True, s') \<Rightarrow> s'
      | (False, s') \<Rightarrow> updateBot d1 d2 s')"

subsection \<open>The frame loop and the start of a run\<close>

text \<open>
  \<open>gameLoop\<close>, lines 1309 to 1320; \<open>now\<close> is the reading of \<open>performance.now()\<close>
  and \<open>beginFrame\<close> is lines 1313 and 1314. Rendering and the request for the next frame
  are the caller's.
\<close>

definition beginFrame :: "real \<Rightarrow> game \<Rightarrow> game" where
  "beginFrame now s = s\<lparr>deltaTime := min (now - lastTime s) 50, lastTime := now\<rparr>"

definition gameLoop :: "real \<Rightarrow> real \<Rightarrow> real \<Rightarrow> game \<Rightarrow> game" where
  "gameLoop now d1 d2 s =
     (if \<not> isRunning s \<or> isPaused s then s else update d1 d2 (beginFrame now s))"

record shipType =
  st_maxSpeed :: real
  st_thrust :: real
  st_friction :: real
  st_maxHP :: int
  price :: int

fun shipTypes :: "ship \<Rightarrow> shipType" where
  "shipTypes Speeder =
     \<lparr>st_maxSpeed = 12, st_thrust = 1.2, st_friction = 0.85, st_maxHP = 1, price = 100\<rparr>"
| "shipTypes Balanced =
     \<lparr>st_maxSpeed = 8, st_thrust = 1.0, st_friction = 0.88, st_maxHP = 2, price = 400\<rparr>"
| "shipTypes Tank =
     \<lparr>st_maxSpeed = 5, st_thrust = 1.1, st_friction = 0.90, st_maxHP = 3, price = 600\<rparr>"

definition createPlayer :: "game \<Rightarrow> game" where
  "createPlayer s =
     (let st = shipTypes (selectedShip s)
      in s\<lparr>maxHP := st_maxHP st, hp := st_maxHP st,
            player :=
              \<lparr>p_x = Fin (width s / 2), p_y = Fin (height s / 2), p_vx = Fin 0, p_vy = Fin 0,
               p_radius = 15, thrust = st_thrust st, maxSpeed = st_maxSpeed st,
               friction = st_friction st, boosting = False, invincible = False,
               invincibleTimer = 0\<rparr>\<rparr>)"

text \<open>
  \<open>startGame\<close>, lines 600 to 634: the reset, then the first frame. \<open>t0\<close> is the
  reading of \<open>performance.now()\<close> stored in \<open>lastTime\<close>, \<open>now\<close> the one the first
  \<open>gameLoop\<close> takes.
\<close>

definition resetRun :: "real \<Rightarrow> game \<Rightarrow> game" where
  "resetRun t0 s =
     (createPlayer
        (s\<lparr>isRunning := True, isPaused := False, score := 0, level := 1, multiplier := 1,
           energy := 100, collectibles := [], blackHoles := [], bullets := [],
           spawnTimer := 0, difficultyTimer := 0, sessionCoins := 0\<rparr>))\<lparr>lastTime := t0\<rparr>"

definition startGame :: "real \<Rightarrow> real \<Rightarrow> real \<Rightarrow> real \<Rightarrow> game \<Rightarrow> game" where
  "startGame t0 now d1 d2 s = gameLoop now d1 d2 (resetRun t0 s)"

subsection \<open>Events\<close>

text \<open>
  What the browser can call between two frames: the animation frame callback, the pointer
  and keyboard handlers, the buttons and the resize handler. Every clock argument is a
  reading of \<open>performance.now()\<close> (\<open>t\<close>, \<open>now\<close>) or of \<open>Date.now()\<close>
  (\<open>d1\<close>, \<open>d2\<close>). Selecting a ship stands for the ship cards; whether the ship is
  unlocked or affordable is not modelled.
\<close>

definition toggleBot :: "game \<Rightarrow> game" where
  "toggleBot s = s\<lparr>botEnabled := \<not> botEnabled s\<rparr>"

definition showMenu :: "game \<Rightarrow> game" where
  "showMenu s = s\<lparr>isRunning := False, isPaused := False\<rparr>"

definition togglePause :: "real \<Rightarrow> real \<Rightarrow> real \<Rightarrow> real \<Rightarrow> game \<Rightarrow> game" where
  "togglePause t now d1 d2 s =
     (if \<not> isRunning s then s
      else
        let s1 = s\<lparr>isPaused := \<not> isPaused s\<rparr>
        in if isPaused s1 then s1 else gameLoop now d1 d2 (s1\<lparr>lastTime := t\<rparr>))"

definition resumeGame :: "real \<Rightarrow> real \<Rightarrow> real \<Rightarrow> real \<Rightarrow> game \<Rightarrow> game" where
  "resumeGame t now d1 d2 s = gameLoop now d1 d2 (s\<lparr>isPaused := False, lastTime := t\<rparr>)"

datatype event =
    Frame real real real
  | MouseMove real real
  | MouseDown
  | MouseUp
  | SpaceKey bool
  | EscapeKey real real real real
  | StartButton real real real real
  | MenuButton
  | ResumeButton real real real real
  | BotButton
  | SelectShip ship
  | Resize real real

fun handle :: "event \<Rightarrow> game \<Rightarrow> game" where
  "handle (Frame now d1 d2) s = gameLoop now d1 d2 s"
| "handle (MouseMove x y) s = s\<lparr>mouseX := Fin x, mouseY := Fin y\<rparr>"
| "handle MouseDown s = s\<lparr>mouseDown := True\<rparr>"
| "handle MouseUp s = s\<lparr>mouseDown := False\<rparr>"
| "handle (SpaceKey b) s = s\<lparr>keySpace := b\<rparr>"
| "handle (EscapeKey t now d1 d2) s = (if isRunning s then togglePause t now d1 d2 s else s)"
| "handle (StartButton t0 now d1 d2) s = startGame t0 now d1 d2 s"
| "handle MenuButton s = showMenu s"
| "handle (ResumeButton t now d1 d2) s = resumeGame t now d1 d2 s"
| "handle BotButton s = toggleBot s"
| "handle (SelectShip sh) s = s\<lparr>selectedShip := sh\<rparr>"
| "handle (Resize w h) s = s\<lparr>width := w, height := h\<rparr>"

text \<open>
  The clock does not run backwards: a reading is not before the one stored in
  \<open>lastTime\<close>, and of two readings in one handler the second is not before the first.
\<close>

fun timely :: "event \<Rightarrow> game \<Rightarrow> bool" where
  "timely (Frame now d1 d2) s = (lastTime s \<le> now)"
| "timely (EscapeKey t now d1 d2) s = (t \<le> now)"
| "timely (StartButton t0 now d1 d2) s = (t0 \<le> now)"
| "timely (ResumeButton t now d1 d2) s = (t \<le> now)"
| "timely _ s = True"

fun run :: "event list \<Rightarrow> game \<Rightarrow> game" where
  "run [] s = s"
| "run (e # es) s = run es (handle e s)"

fun timelyRun :: "event list \<Rightarrow> game \<Rightarrow> bool" where
  "timelyRun [] s = True"
| "timelyRun (e # es) s = (timely e s \<and> timelyRun es (handle e s))"

subsection \<open>Notions used in the proofs\<close>

text \<open>
  Projections of the game object onto the fields a phase of the frame leaves alone, the
  bounds of the run state, and the relation between the states before and after a phase
  that can only raise score and multiplier.
\<close>

definition vitals :: "game \<Rightarrow> real \<times> real \<times> int \<times> int \<times> int \<times> bool \<times> bool \<times> bool" where
  "vitals s =
     (energy s, multiplier s, score s, hp s, maxHP s, isRunning s, isPaused s, botEnabled s)"

definition sched :: "game \<Rightarrow> real \<times> real \<times> int \<times> num \<times> num \<times> bool" where
  "sched s = (spawnTimer s, difficultyTimer s, level s, mouseX s, mouseY s, mouseDown s)"

definition body :: "game \<Rightarrow> int \<times> int \<times> bool \<times> bool \<times> bool" where
  "body s = (hp s, maxHP s, isRunning s, isPaused s, botEnabled s)"

definition sane :: "game \<Rightarrow> bool" where
  "sane s = (0 \<le> energy s \<and> energy s \<le> 100 \<and> 1 \<le> multiplier s \<and> multiplier s \<le> 10)"

definition grows :: "game \<Rightarrow> game \<Rightarrow> bool" where
  "grows s s' = (sane s' \<and> multiplier s \<le> multiplier s' \<and> score s \<le> score s')"

text \<open>
  What a phase that may call \<open>takeDamage\<close> does; \<open>dead\<close> is the flag it returns.
\<close>

definition damaged :: "game \<Rightarrow> bool \<Rightarrow> game \<Rightarrow> bool" where
  "damaged s dead s' =
     (energy s' = energy s \<and> multiplier s' = multiplier s \<and> score s' = score s \<and>
      maxHP s' = maxHP s \<and> isRunning s' = isRunning s \<and> isPaused s' = isPaused s \<and>
      botEnabled s' = botEnabled s \<and> sched s' = sched s \<and> hp s' \<le> hp s \<and>
      (dead \<longrightarrow> hp s' \<le> 0) \<and> (1 \<le> hp s \<longrightarrow> 0 \<le> hp s' \<and> (\<not> dead \<longrightarrow> 1 \<le> hp s')))"

text \<open>
  What a phase does to the bounded quantities of a run, before \<open>gameOver\<close> is applied.
\<close>

definition stepped :: "game \<Rightarrow> bool \<Rightarrow> game \<Rightarrow> bool" where
  "stepped s dead s' =
     (grows s s' \<and> maxHP s' = maxHP s \<and> isRunning s' = isRunning s \<and>
      isPaused s' = isPaused s \<and> botEnabled s' = botEnabled s \<and> hp s' \<le> hp s \<and>
      (dead \<longrightarrow> hp s' \<le> 0) \<and> (1 \<le> hp s \<longrightarrow> 0 \<le> hp s' \<and> (\<not> dead \<longrightarrow> 1 \<le> hp s')))"

text \<open>The frame up to the loop over the bullets.\<close>

definition midFrame :: "game \<Rightarrow> game \<Rightarrow> game" where
  "midFrame s s2 =
     (let dt = dtOf s;
          s3 = movePhase dt s2;
          (keptC, s4) = collectiblesLoop dt (collectibles s3) s3;
          s5 = s4\<lparr>collectibles := keptC\<rparr>;
          (keptH, s6) = holesLoop dt (blackHoles s5) s5
      in s6\<lparr>blackHoles := keptH\<rparr>)"

text \<open>
  The invariant of the game object between two events, and the events that start a new
  run.
\<close>

definition runInv :: "game \<Rightarrow> bool" where
  "runInv s = (sane s \<and> 0 \<le> hp s \<and> hp s \<le> maxHP s \<and> (isRunning s \<longrightarrow> 1 \<le> hp s))"

fun isStart :: "event \<Rightarrow> bool" where
  "isStart (StartButton t0 now d1 d2) = True"
| "isStart _ = False"

text \<open>
  The pulls of the holes of a list on the player, one after the other; the bullets of a
  list after their move, without those that have expired or left the canvas; the state
  after a hit that is not the last one; and the frame up to the loop over the bullets when
  the player touches no hole.
\<close>

definition pulls :: "real \<Rightarrow> blackHole list \<Rightarrow> player \<Rightarrow> player" where
  "pulls dt hs p = foldl (\<lambda>q h. gravity dt h q) p hs"

definition sweep :: "real \<Rightarrow> bullet list \<Rightarrow> game \<Rightarrow> bullet list" where
  "sweep dt bs s = filter (\<lambda>b. \<not> bulletExpired b s) (map (moveBullet dt) bs)"

definition shielded :: "player \<Rightarrow> player" where
  "shielded p = p\<lparr>invincible := True, invincibleTimer := 120\<rparr>"

definition beforeBullets :: "game \<Rightarrow> game" where
  "beforeBullets s =
     (let dt = dtOf s;
          s1 = thrustPhase dt s
      in midFrame s (s1\<lparr>player := pulls dt (blackHoles s1) (player s1)\<rparr>))"

subsection \<open>Example states\<close>

text \<open>
  The game object as the constructor builds it (lines 24 to 102) on a canvas of the given
  size, with the player of the default ship in place of \<open>null\<close>; \<open>demo\<close> is a run
  just reset on a canvas of 800 by 600, where every draw of \<open>Math.random()\<close> gives
  one half and no product needs rounding; \<open>holeAt\<close> is a black hole with an event horizon of 30 and a pull radius of
  200.
\<close>

definition constructed :: "real \<Rightarrow> real \<Rightarrow> (nat \<Rightarrow> real) \<Rightarrow> game" where
  "constructed w h r =
     createPlayer
       \<lparr>botEnabled = False, isRunning = False, isPaused = False, score = 0, level = 1,
        multiplier = 1,
        energy = 100, highScore = 0, keySpace = False, mouseX = Fin 0, mouseY = Fin 0,
        mouseDown = False,
        player = \<lparr>p_x = Fin 0, p_y = Fin 0, p_vx = Fin 0, p_vy = Fin 0, p_radius = 15,
                  thrust = 0, maxSpeed = 0, friction = 0, boosting = False,
                  invincible = False, invincibleTimer = 0\<rparr>,
        collectibles = [], blackHoles = [], bullets = [],
        lastTime = 0, deltaTime = 0, spawnTimer = 0, difficultyTimer = 0,
        selectedShip = Speeder, hp = 1, maxHP = 1, coins = 0, sessionCoins = 0,
        width = w, height = h, rand = r, rpos = 0, rounded = (\<lambda>x. x)\<rparr>"

definition demo :: game where
  "demo = resetRun 0 (constructed 800 600 (\<lambda>n. 1 / 2))"

definition holeAt :: "real \<Rightarrow> real \<Rightarrow> blackHole" where
  "holeAt x y =
     \<lparr>h_x = x, h_y = y, h_radius = 30, pullRadius = 200, strength = 0.5, h_lifetime = 0,
      maxLifetime = 500, shootTimer = 0, shootInterval = 120\<rparr>"

text \<open>
  \<open>onHole\<close>: the player, shielded, stands on the centre of a hole, with the pointer on
  the player; one frame of 16.67 ms has elapsed.
\<close>

definition onHole :: game where
  "onHole =
     demo\<lparr>blackHoles := [holeAt 400 300],
          player := (player demo)\<lparr>invincible := True, invincibleTimer := 180\<rparr>,
          mouseX := Fin 400, mouseY := Fin 300, deltaTime := 16.67\<rparr>"

text \<open>
  \<open>fatal\<close>: a run with one hit point, the player 20 away from the centre of a hole, not
  shielded. \<open>started\<close>: a game started at time 0 with the pointer on the player, its
  first frame at time 10.
\<close>

definition fatal :: game where
  "fatal =
     demo\<lparr>blackHoles := [holeAt 420 300], mouseX := Fin 400, mouseY := Fin 300,
          deltaTime := 16.67\<rparr>"

definition started :: game where
  "started =
     startGame 0 10 0 0 ((constructed 800 600 (\<lambda>n. 1 / 2))\<lparr>mouseX := Fin 400, mouseY := Fin 300\<rparr>)"

text \<open>
  \<open>piloted\<close>: the pilot is on, the pointer was left at (100, 300), to the left of the
  player, and one points item lies at rest at (700, 300), to the right.
\<close>

definition piloted :: game where
  "piloted =
     demo\<lparr>botEnabled := True, mouseX := Fin 100, mouseY := Fin 300,
          collectibles :=
            [\<lparr>c_x = Fin 700, c_y = Fin 300, c_vx = Fin 0, c_vy = Fin 0, c_radius = 12,
              c_type = Points, c_lifetime = 0\<rparr>],
          deltaTime := 16.67\<rparr>"

text \<open>
  \<open>flanked\<close>: the pilot is on, the player sits midway between two equal holes 50 away
  on either side, the pointer was left at (100, 300) and a points item lies at (700, 300).
  \<open>narrow\<close>: the state \<open>piloted\<close> after the canvas was resized to a width of
  80.
\<close>

definition flanked :: game where
  "flanked = piloted\<lparr>blackHoles := [holeAt 350 300, holeAt 450 300]\<rparr>"

definition narrow :: game where
  "narrow = handle (Resize 80 600) piloted"

text \<open>\<open>threatened\<close>: as \<open>piloted\<close>, with one hole 50 to the left of the player.\<close>

definition threatened :: game where
  "threatened = piloted\<lparr>blackHoles := [holeAt 350 300]\<rparr>"

text \<open>
  A rounding that is exact but for the products from \<open>2 - 1 / 2 ^ 53\<close> and below 2, which
  it rounds to 2 as the doubles do, and a state whose draw is the double
  0.6666666666666666, that is \<open>6004799503160661 / 2 ^ 53\<close>: three times the draw is
  \<open>2 - 1 / 2 ^ 53\<close>.
\<close>

definition nearTwo :: "real \<Rightarrow> real" where
  "nearTwo x = (if 2 - 1 / 2 ^ 53 \<le> x \<and> x < 2 then 2 else x)"

definition twoThirds :: game where
  "twoThirds = demo\<lparr>rand := (\<lambda>n. 6004799503160661 / 2 ^ 53), rounded := nearTwo\<rparr>"

text \<open>
  \<open>besieged\<close>: a run with one hit point and three holes, in the order of the array: one
  300 away from the player, one 20 away on its right, one 20 away on its left; the pointer
  is on the player. \<open>shot\<close>: a run with one hit point and three bullets that fly to the
  right at speed 1, in the order of the array: 5 and 10 away from the player on its
  right, and 300 away on its left.
\<close>

definition besieged :: game where
  "besieged =
     demo\<lparr>blackHoles := [holeAt 700 300, holeAt 420 300, holeAt 380 300],
          mouseX := Fin 400, mouseY := Fin 300, deltaTime := 16.67\<rparr>"

definition bulletAt :: "real \<Rightarrow> bullet" where
  "bulletAt x = \<lparr>b_x = Fin x, b_y = Fin 300, b_vx = Fin 1, b_vy = Fin 0, b_radius = 6, life = 300\<rparr>"

definition shot :: game where
  "shot =
     demo\<lparr>bullets := [bulletAt 405, bulletAt 410, bulletAt 100],
          mouseX := Fin 400, mouseY := Fin 300, deltaTime := 16.67\<rparr>"

section \<open>Properties\<close>

subsection \<open>Frame lemmas\<close>


lemma grows_refl: "sane s \<Longrightarrow> grows s s"
  by (simp add: grows_def)

lemma grows_trans: "grows s s1 \<Longrightarrow> grows s1 s2 \<Longrightarrow> grows s s2"
  by (auto simp add: grows_def)

lemma grows_sane: "grows s s' \<Longrightarrow> sane s'"
  by (simp add: grows_def)

lemma vitals_grows: "vitals s' = vitals s \<Longrightarrow> sane s \<Longrightarrow> grows s s'"
  by (simp add: vitals_def grows_def sane_def)

lemma vitals_body: "vitals s' = vitals s \<Longrightarrow> body s' = body s"
  by (simp add: vitals_def body_def)

lemma mathRandom_vitals: "vitals (snd (mathRandom s)) = vitals s"
  by (simp add: mathRandom_def vitals_def)

lemma mathRandom_sched: "sched (snd (mathRandom s)) = sched s"
  by (simp add: mathRandom_def sched_def)

lemma spawnCollectible_vitals: "vitals (spawnCollectible s) = vitals s"
  by (simp add: spawnCollectible_def vitals_def Let_def mathRandom_def split: prod.splits)

lemma samplePoint_vitals: "vitals (snd (snd (samplePoint s))) = vitals s"
  by (simp add: samplePoint_def vitals_def Let_def mathRandom_def split: prod.splits)

lemma placeHole_vitals: "vitals (snd (snd (placeHole k s))) = vitals s"
proof (induction k arbitrary: s)
  case 0
  show ?case by (simp add: samplePoint_vitals)
next
  case (Suc k)
  obtain x y s2 where sp: "samplePoint s = (x, y, s2)" by (cases "samplePoint s") auto
  have v2: "vitals s2 = vitals s" using samplePoint_vitals [of s] sp by simp
  show ?case using Suc [of s2] v2 sp by (simp add: Let_def)
qed

lemma spawnBlackHole_vitals: "vitals (spawnBlackHole s) = vitals s"
proof -
  obtain x y s1 where ph: "placeHole 49 s = (x, y, s1)" by (cases "placeHole 49 s") auto
  have "vitals s1 = vitals s" using placeHole_vitals [of 49 s] ph by simp
  then show ?thesis 
    by (simp add: spawnBlackHole_def ph vitals_def Let_def mathRandom_def split: prod.splits)
qed

lemma spawnBullet_vitals: "vitals (spawnBullet h s) = vitals s"
  by (simp add: spawnBullet_def vitals_def Let_def)

lemma spawnBullet_sched: "sched (spawnBullet h s) = sched s"
  by (simp add: spawnBullet_def sched_def Let_def)

lemma collectItem_grows: "sane s \<Longrightarrow> grows s (collectItem t s)"
  by (cases t) (auto simp add: grows_def sane_def Let_def basePoints_def mathRandom_def addCoins_def split: prod.splits)

lemma collectItem_body: "body (collectItem t s) = body s"
  by (cases t) (simp_all add: body_def Let_def mathRandom_def addCoins_def split: prod.splits)

lemma collectItem_sched: "sched (collectItem t s) = sched s"
  by (cases t) (simp_all add: sched_def Let_def mathRandom_def addCoins_def split: prod.splits)

lemma thrustPhase_grows: "sane s \<Longrightarrow> 0 \<le> dt \<Longrightarrow> grows s (thrustPhase dt s)"
  by (auto simp add: thrustPhase_def grows_def sane_def Let_def split: prod.splits)

lemma thrustPhase_body: "body (thrustPhase dt s) = body s"
  by (simp add: thrustPhase_def body_def Let_def split: prod.splits)

lemma thrustPhase_sched: "sched (thrustPhase dt s) = sched s"
  by (simp add: thrustPhase_def sched_def Let_def split: prod.splits)

lemma thrustPhase_holes: "blackHoles (thrustPhase dt s) = blackHoles s"
  by (simp add: thrustPhase_def Let_def split: prod.splits)

lemma movePhase_vitals: "vitals (movePhase dt s) = vitals s"
  by (simp add: movePhase_def vitals_def Let_def split: prod.splits)

lemma movePhase_sched: "sched (movePhase dt s) = sched s"
  by (simp add: movePhase_def sched_def Let_def split: prod.splits)

lemma gameOver_fields:
  "\<not> isRunning (gameOver s)" "hp (gameOver s) = hp s" "maxHP (gameOver s) = maxHP s"
  "energy (gameOver s) = energy s" "multiplier (gameOver s) = multiplier s"
  "score (gameOver s) = score s" "sched (gameOver s) = sched s"
  "isPaused (gameOver s) = isPaused s" "botEnabled (gameOver s) = botEnabled s"
  by (simp_all add: gameOver_def sched_def)

lemma difficultyPhase_grows: "sane s \<Longrightarrow> grows s (difficultyPhase s)"
  by (auto simp add: difficultyPhase_def grows_def sane_def)

lemma difficultyPhase_body: "body (difficultyPhase s) = body s"
  by (simp add: difficultyPhase_def body_def)

lemma vitalsD:
  "vitals a = vitals b \<Longrightarrow>
   energy a = energy b \<and> multiplier a = multiplier b \<and> score a = score b \<and> hp a = hp b \<and>
   maxHP a = maxHP b \<and> isRunning a = isRunning b \<and> isPaused a = isPaused b \<and>
   botEnabled a = botEnabled b"
  by (simp add: vitals_def)

lemmas spawnCollectible_fields = vitalsD [OF spawnCollectible_vitals]
lemmas spawnBlackHole_fields = vitalsD [OF spawnBlackHole_vitals]

lemma spawnPhase_vitals: "vitals (spawnPhase dt s) = vitals s"
  by (simp add: spawnPhase_def vitals_def Let_def split_beta spawnCollectible_fields
      spawnBlackHole_fields mathRandom_def)

lemma updateBot_vitals: "vitals (updateBot d1 d2 s) = vitals s"
  by (simp add: updateBot_def vitals_def Let_def split: prod.splits option.splits)

lemma updateBot_player: "player (updateBot d1 d2 s) = player s"
  by (simp add: updateBot_def Let_def split: prod.splits option.splits)

subsection \<open>Evaluation lemmas\<close>

lemma dist2_axis [simp]: "dist2 (Fin a) (Fin 0) = Fin \<bar>a\<bar>"
  by (simp add: dist2_def)

lemma dist2_Fin: "dist2 (Fin a) (Fin b) = Fin (sqrt (a * a + b * b))"
  by (simp add: dist2_def not_less)

lemma demo_player:
  "player demo =
     \<lparr>p_x = Fin 400, p_y = Fin 300, p_vx = Fin 0, p_vy = Fin 0, p_radius = 15,
      thrust = 1.2, maxSpeed = 12, friction = 0.85, boosting = False,
      invincible = False, invincibleTimer = 0\<rparr>"
  by (simp add: demo_def resetRun_def constructed_def createPlayer_def)

subsection \<open>The elapsed time of a frame\<close>

text \<open>
  Claim C9. \<open>gameLoop\<close> caps the elapsed time at 50 ms before \<open>update\<close> divides it by
  16.67, so the \<open>dt\<close> a frame integrates with is at most 50 / 16.67, which is below 3 and
  within a thousandth of it, however long the stall was; from 50 ms of elapsed time on
  (200 ms, say) it is exactly 50 / 16.67. A running, unpaused game runs \<open>update\<close> on the
  state with that capped time.
\<close>

theorem frame_dt_clamped:
  "dtOf (beginFrame now s) = min (now - lastTime s) 50 / 16.67 \<and>
   dtOf (beginFrame now s) \<le> 50 / 16.67 \<and>
   dtOf (beginFrame now s) < 3 \<and>
   (50 \<le> now - lastTime s \<longrightarrow> dtOf (beginFrame now s) = 50 / 16.67) \<and>
   \<bar>50 / 16.67 - 3\<bar> < (1 / 1000 :: real) \<and>
   (isRunning s \<and> \<not> isPaused s \<longrightarrow> gameLoop now d1 d2 s = update d1 d2 (beginFrame now s))"
  by (simp add: dtOf_def beginFrame_def gameLoop_def min_def)

theorem frame_dt_clamped_witness:
  "(50::real) \<le> 200 - lastTime demo \<and> dtOf (beginFrame 200 demo) = 50 / 16.67 \<and>
   isRunning demo \<and> \<not> isPaused demo \<and>
   gameLoop 200 0 0 demo = update 0 0 (beginFrame 200 demo)"
  using frame_dt_clamped [of 200 demo 0 0]
  by (simp add: demo_def resetRun_def constructed_def createPlayer_def)

subsection \<open>The category draw\<close>

text \<open>
  Claim C5. For a draw \<open>u\<close> of \<open>Math.random()\<close>, which is below 1, the loop with the
  running subtraction picks the category that the specification's wording picks, the first
  one whose running cumulative weight exceeds \<open>u\<close>: energy below 0.4, points below
  0.4 + 0.35, multiplier below 0.4 + 0.35 + 0.15, shield from there on. A threshold is
  always met, so the value the category has when no threshold is met is never the result:
  the loop of the code and the loop of the specification give the same category whatever
  that value \<open>d\<close> is.
\<close>

theorem pickType_thresholds:
  assumes "u < 1"
  shows "pickType u = specPickType u \<and>
         pickLoop (zip types weights) u d = pickType u \<and>
         specLoop (zip types weights) u 0 d = specPickType u \<and>
         (u < 0.4 \<longrightarrow> pickType u = Energy) \<and>
         (0.4 \<le> u \<and> u < 0.4 + 0.35 \<longrightarrow> pickType u = Points) \<and>
         (0.4 + 0.35 \<le> u \<and> u < 0.4 + 0.35 + 0.15 \<longrightarrow> pickType u = Multiplier) \<and>
         (0.4 + 0.35 + 0.15 \<le> u \<longrightarrow> pickType u = Shield)"
  using assms by (simp add: pickType_def specPickType_def types_def weights_def)

theorem pickType_thresholds_witness:
  "(0.2::real) < 1 \<and> pickType 0.2 = Energy \<and> specPickType 0.2 = Energy \<and>
   pickType 0.5 = Points \<and> specPickType 0.5 = Points \<and>
   pickType 0.8 = Multiplier \<and> specPickType 0.8 = Multiplier \<and>
   pickType 0.95 = Shield \<and> specPickType 0.95 = Shield \<and>
   pickLoop (zip types weights) 0.95 Energy = Shield \<and>
   specLoop (zip types weights) 0.95 0 Energy = Shield"
  using pickType_thresholds [of "0.2" Energy] pickType_thresholds [of "0.5" Energy]
    pickType_thresholds [of "0.8" Energy] pickType_thresholds [of "0.95" Energy]
  by auto

subsection \<open>Arithmetic with NaN\<close>

lemma n_add_NaN [simp]: "n_add a NaN = NaN"
  by (cases a) simp_all

lemma n_mul_NaN [simp]: "n_mul a NaN = NaN"
  by (cases a) simp_all

lemma n_div_NaN [simp]: "n_div a NaN = NaN"
  by (cases a) simp_all

lemma n_lt_Fin_iff: "n_lt a (Fin r) \<longleftrightarrow> a = NInf \<or> (\<exists>x. a = Fin x \<and> x < r)"
  by (cases a) simp_all

subsection \<open>Collecting a points item\<close>

lemma nearTwo_mono: "x \<le> y \<Longrightarrow> nearTwo x \<le> nearTwo y"
  by (auto simp add: nearTwo_def)

lemma nearTwo_near: "nearTwo x \<le> x + 1 / 2 ^ 52"
  by (simp add: nearTwo_def)

lemma nearTwo_exact: "nearTwo 0 = 0" "nearTwo 1 = 1" "nearTwo 2 = 2"
  by (simp_all add: nearTwo_def)

text \<open>
  Claim C8. Collecting a points item adds exactly \<open>floor (100 * multiplier)\<close> to the
  score (200 at multiplier 2) and an amount in {1, 2, 3} to the coins, and the same amount
  to the session coins. The amount is one more than the floor of the rounded product of
  the draw \<open>u\<close> by 3. \<open>Math.random()\<close> returns a double from 0 and below 1, so \<open>u\<close> is
  at most \<open>1 - 1 / 2 ^ 53\<close>; rounding to the nearest double is monotone, exact at 0, 1
  and 2, and within \<open>1 / 2 ^ 52\<close> of a product up to 3. Under these hypotheses the
  amount is 1 when \<open>u * 3\<close> is below \<open>1 - 1 / 2 ^ 52\<close>, 2 when it is from 1 and below
  \<open>2 - 1 / 2 ^ 52\<close>, 3 when it is from 2 on, and conversely an amount of 1 has
  \<open>u * 3\<close> below 1, an amount of 2 has it from \<open>1 - 1 / 2 ^ 52\<close> and below 2, an
  amount of 3 has it from \<open>2 - 1 / 2 ^ 52\<close> on: each amount takes a third of the draws,
  up to the rounding at the two thresholds. Energy, multiplier, hit points and the
  invincibility of the player stay as they are.
\<close>

theorem collect_points:
  assumes "0 \<le> rand s (rpos s)" and "rand s (rpos s) \<le> 1 - 1 / 2 ^ 53"
    and "\<forall>x y. x \<le> y \<longrightarrow> rounded s x \<le> rounded s y"
    and "rounded s 0 = 0" and "rounded s 1 = 1" and "rounded s 2 = 2"
    and "\<forall>x. 0 \<le> x \<and> x \<le> 3 \<longrightarrow> rounded s x \<le> x + 1 / 2 ^ 52"
  shows "score (collectItem Points s) = score s + \<lfloor>100 * multiplier s\<rfloor> \<and>
         (multiplier s = 2 \<longrightarrow> score (collectItem Points s) = score s + 200) \<and>
         coins (collectItem Points s) - coins s = \<lfloor>rounded s (rand s (rpos s) * 3)\<rfloor> + 1 \<and>
         coins (collectItem Points s) - coins s \<in> {1, 2, 3} \<and>
         sessionCoins (collectItem Points s) - sessionCoins s = coins (collectItem Points s) - coins s \<and>
         (rand s (rpos s) * 3 < 1 - 1 / 2 ^ 52 \<longrightarrow> coins (collectItem Points s) - coins s = 1) \<and>
         (1 \<le> rand s (rpos s) * 3 \<and> rand s (rpos s) * 3 < 2 - 1 / 2 ^ 52 \<longrightarrow>
            coins (collectItem Points s) - coins s = 2) \<and>
         (2 \<le> rand s (rpos s) * 3 \<longrightarrow> coins (collectItem Points s) - coins s = 3) \<and>
         (coins (collectItem Points s) - coins s = 1 \<longrightarrow> rand s (rpos s) * 3 < 1) \<and>
         (coins (collectItem Points s) - coins s = 2 \<longrightarrow>
            1 - 1 / 2 ^ 52 \<le> rand s (rpos s) * 3 \<and> rand s (rpos s) * 3 < 2) \<and>
         (coins (collectItem Points s) - coins s = 3 \<longrightarrow> 2 - 1 / 2 ^ 52 \<le> rand s (rpos s) * 3) \<and>
         energy (collectItem Points s) = energy s \<and>
         multiplier (collectItem Points s) = multiplier s \<and>
         hp (collectItem Points s) = hp s \<and>
         invincible (player (collectItem Points s)) = invincible (player s) \<and>
         invincibleTimer (player (collectItem Points s)) = invincibleTimer (player s)"
proof -
  let ?x = "rand s (rpos s) * 3"
  let ?f = "rounded s ?x"
  let ?c = "coins (collectItem Points s) - coins s"
  have c: "?c = \<lfloor>?f\<rfloor> + 1"
    by (simp add: Let_def mathRandom_def addCoins_def)
  have sc: "sessionCoins (collectItem Points s) - sessionCoins s = \<lfloor>?f\<rfloor> + 1"
    by (simp add: Let_def mathRandom_def addCoins_def)
  have rest: "score (collectItem Points s) = score s + \<lfloor>100 * multiplier s\<rfloor>"
    "energy (collectItem Points s) = energy s"
    "multiplier (collectItem Points s) = multiplier s"
    "hp (collectItem Points s) = hp s"
    "player (collectItem Points s) = player s"
    by (simp_all add: Let_def mathRandom_def addCoins_def basePoints_def)
  note collectItem.simps [simp del]
  have x0: "0 \<le> ?x" using assms(1) by simp
  have x3: "?x \<le> 3 - 3 / 2 ^ 53" using assms(2) by simp
  have near: "?f \<le> ?x + 1 / 2 ^ 52" using assms(7) x0 x3 by simp
  have lo0: "0 \<le> ?f" using assms(3) assms(4) x0 by metis
  have lo1: "1 \<le> ?x \<Longrightarrow> 1 \<le> ?f" using assms(3) assms(5) by metis
  have lo2: "2 \<le> ?x \<Longrightarrow> 2 \<le> ?f" using assms(3) assms(6) by metis
  have hi1: "?x < 1 \<Longrightarrow> ?f \<le> 1" using assms(3) assms(5) by (metis less_imp_le)
  have hi2: "?x < 2 \<Longrightarrow> ?f \<le> 2" using assms(3) assms(6) by (metis less_imp_le)
  have hi3: "?f < 3" using near x3 by simp
  have fl0: "0 \<le> \<lfloor>?f\<rfloor>" using lo0 by simp
  have fl2: "\<lfloor>?f\<rfloor> \<le> 2" using hi3 by (simp add: floor_le_iff)
  have "\<lfloor>?f\<rfloor> = 0 \<or> \<lfloor>?f\<rfloor> = 1 \<or> \<lfloor>?f\<rfloor> = 2" using fl0 fl2 by arith
  then have rng: "?c \<in> {1, 2, 3}" using c by auto
  have a1: "?x < 1 - 1 / 2 ^ 52 \<longrightarrow> ?c = 1"
  proof
    assume "?x < 1 - 1 / 2 ^ 52"
    then have "?f < 1" using near by simp
    then have "\<lfloor>?f\<rfloor> = 0" using lo0 by (simp add: floor_eq_iff)
    then show "?c = 1" using c by simp
  qed
  have a2: "1 \<le> ?x \<and> ?x < 2 - 1 / 2 ^ 52 \<longrightarrow> ?c = 2"
  proof
    assume h: "1 \<le> ?x \<and> ?x < 2 - 1 / 2 ^ 52"
    then have "?f < 2" using near by simp
    moreover have "1 \<le> ?f" using h lo1 by simp
    ultimately have "\<lfloor>?f\<rfloor> = 1" by (simp add: floor_eq_iff)
    then show "?c = 2" using c by simp
  qed
  have a3: "2 \<le> ?x \<longrightarrow> ?c = 3"
  proof
    assume "2 \<le> ?x"
    then have "2 \<le> ?f" by (rule lo2)
    then have "\<lfloor>?f\<rfloor> = 2" using hi3 by (simp add: floor_eq_iff)
    then show "?c = 3" using c by simp
  qed
  have b1: "?c = 1 \<longrightarrow> ?x < 1"
  proof
    assume "?c = 1"
    then have "\<lfloor>?f\<rfloor> = 0" using c by simp
    then have "?f < 1" by (simp add: floor_eq_iff)
    then show "?x < 1" using lo1 by (cases "?x < 1") simp_all
  qed
  have b2: "?c = 2 \<longrightarrow> 1 - 1 / 2 ^ 52 \<le> ?x \<and> ?x < 2"
  proof
    assume "?c = 2"
    then have "\<lfloor>?f\<rfloor> = 1" using c by simp
    then have f: "1 \<le> ?f" "?f < 2" by (simp_all add: floor_eq_iff)
    have "?x < 2" using f(2) lo2 by (cases "?x < 2") simp_all
    moreover have "1 - 1 / 2 ^ 52 \<le> ?x" using f(1) near by simp
    ultimately show "1 - 1 / 2 ^ 52 \<le> ?x \<and> ?x < 2" by simp
  qed
  have b3: "?c = 3 \<longrightarrow> 2 - 1 / 2 ^ 52 \<le> ?x"
  proof
    assume "?c = 3"
    then have "\<lfloor>?f\<rfloor> = 2" using c by simp
    then have "2 \<le> ?f" by (simp add: floor_eq_iff)
    then show "2 - 1 / 2 ^ 52 \<le> ?x" using near by simp
  qed
  have m2: "multiplier s = 2 \<longrightarrow> score (collectItem Points s) = score s + 200"
    using rest(1) by simp
  have sc': "sessionCoins (collectItem Points s) - sessionCoins s = ?c" using c sc by simp
  have inv: "invincible (player (collectItem Points s)) = invincible (player s)"
    "invincibleTimer (player (collectItem Points s)) = invincibleTimer (player s)"
    using rest(5) by simp_all
  from rest(1) m2 c rng sc' a1 a2 a3 b1 b2 b3 rest(2) rest(3) rest(4) inv
  show ?thesis by blast
qed

theorem collect_points_witness:
  "0 \<le> rand (demo\<lparr>multiplier := 2\<rparr>) (rpos (demo\<lparr>multiplier := 2\<rparr>)) \<and>
   rand (demo\<lparr>multiplier := 2\<rparr>) (rpos (demo\<lparr>multiplier := 2\<rparr>)) \<le> 1 - 1 / 2 ^ 53 \<and>
   score (collectItem Points (demo\<lparr>multiplier := 2\<rparr>)) = score demo + 200 \<and>
   coins (collectItem Points (demo\<lparr>multiplier := 2\<rparr>)) = coins demo + 2 \<and>
   rand twoThirds (rpos twoThirds) = 6004799503160661 / 2 ^ 53 \<and>
   rand twoThirds (rpos twoThirds) < 2 / 3 \<and>
   rounded twoThirds (rand twoThirds (rpos twoThirds) * 3) = 2 \<and>
   coins (collectItem Points twoThirds) = coins twoThirds + 3"
proof -
  let ?d = "demo\<lparr>multiplier := 2\<rparr>"
  have d: "rand ?d (rpos ?d) = 1 / 2" "rounded ?d = (\<lambda>x. x)" "multiplier ?d = 2"
    "score ?d = score demo" "coins ?d = coins demo"
    by (simp_all add: demo_def resetRun_def constructed_def createPlayer_def)
  have t: "rand twoThirds (rpos twoThirds) = 6004799503160661 / 2 ^ 53"
    "rounded twoThirds = nearTwo"
    by (simp_all add: twoThirds_def)
  have t3: "rand twoThirds (rpos twoThirds) * 3 = 2 - 1 / 2 ^ 53" unfolding t(1) by simp
  have r3: "rounded twoThirds (rand twoThirds (rpos twoThirds) * 3) = 2"
    unfolding t3 t(2) by (simp add: nearTwo_def)
  have cd: "score (collectItem Points ?d) = score ?d + \<lfloor>100 * multiplier ?d\<rfloor> \<and>
      (multiplier ?d = 2 \<longrightarrow> score (collectItem Points ?d) = score ?d + 200) \<and>
      coins (collectItem Points ?d) - coins ?d = \<lfloor>rounded ?d (rand ?d (rpos ?d) * 3)\<rfloor> + 1"
    using collect_points [of ?d] unfolding d by simp
  have ct: "coins (collectItem Points twoThirds) - coins twoThirds =
      \<lfloor>rounded twoThirds (rand twoThirds (rpos twoThirds) * 3)\<rfloor> + 1"
    using collect_points [of twoThirds] nearTwo_mono nearTwo_near nearTwo_exact
    unfolding t by simp
  have c1: "score (collectItem Points ?d) = score demo + 200" using cd d by simp
  have c2: "coins (collectItem Points ?d) = coins demo + 2" using cd unfolding d by simp
  have c3: "coins (collectItem Points twoThirds) = coins twoThirds + 3" using ct unfolding r3 by simp
  show ?thesis using d(1) t(1) r3 c1 c2 c3 by simp
qed

subsection \<open>Gravity at distance zero\<close>

text \<open>
  Claim C2 fails on the code. When the player stands exactly on the centre of a hole with
  a positive pull radius, the distance is 0, the test \<open>dist < hole.pullRadius\<close> passes and
  \<open>dx / dist\<close> is \<open>0 / 0\<close>: both velocity components become NaN. Nothing guards the
  division.
\<close>

theorem gravity_at_centre:
  assumes "p_x p = Fin (h_x hole)" and "p_y p = Fin (h_y hole)" and "0 < pullRadius hole"
  shows "p_vx (gravity dt hole p) = NaN \<and> p_vy (gravity dt hole p) = NaN"
  using assms by (simp add: gravity_def holeDist_def n_sub_def Let_def)

text \<open>
  At the example: the velocity is NaN after the pull, and after the whole frame (which does
  not end the run, the player being shielded) the position of the player is NaN as well.
\<close>

lemma onHole_frame:
  "\<not> fst (tickBody onHole) \<and> p_x (player (snd (tickBody onHole))) = NaN \<and>
   p_y (player (snd (tickBody onHole))) = NaN"
  by (simp add: tickBody_def onHole_def demo_def resetRun_def constructed_def createPlayer_def
      holeAt_def dtOf_def thrustPhase_def Let_def n_sub_def n_gt_def n_min_def gravity_def
      holeDist_def holeCollision_def movePhase_def dist2_def spawnPhase_def
      difficultyPhase_def mathRandom_def)

theorem gravity_at_centre_witness:
  "p_x (player onHole) = Fin (h_x (holeAt 400 300)) \<and>
   p_y (player onHole) = Fin (h_y (holeAt 400 300)) \<and>
   0 < pullRadius (holeAt 400 300) \<and>
   p_vx (gravity 1 (holeAt 400 300) (player onHole)) = NaN \<and>
   p_vy (gravity 1 (holeAt 400 300) (player onHole)) = NaN \<and>
   p_x (player (snd (tickBody onHole))) = NaN \<and>
   p_y (player (snd (tickBody onHole))) = NaN"
  using gravity_at_centre [of "player onHole" "holeAt 400 300" 1] onHole_frame
  by (simp add: onHole_def demo_player holeAt_def)

subsection \<open>Contact with the event horizon\<close>

text \<open>
  Claim C3, as the code has it. For a player at a finite position the loop over the holes
  calls \<open>takeDamage\<close> exactly when the distance between the centres is below the radius of
  the hole alone and the player is not invincible: the hit points after the loop over one
  hole are one less in that case and unchanged otherwise. The radius of the player is not
  added.
\<close>

theorem hole_collision_test:
  assumes "p_x (player s) = Fin x" and "p_y (player s) = Fin y"
  shows "holeDist hole (player s) = Fin (sqrt ((h_x hole - x) * (h_x hole - x) + (h_y hole - y) * (h_y hole - y))) \<and>
         (holeCollision hole (player s) \<longleftrightarrow>
            sqrt ((h_x hole - x) * (h_x hole - x) + (h_y hole - y) * (h_y hole - y)) < h_radius hole \<and>
            \<not> invincible (player s)) \<and>
         hp (snd (gravityLoop dt [hole] s)) =
           (if sqrt ((h_x hole - x) * (h_x hole - x) + (h_y hole - y) * (h_y hole - y)) < h_radius hole \<and>
               \<not> invincible (player s)
            then hp s - 1 else hp s)"
proof -
  have d: "holeDist hole (player s) = Fin (sqrt ((h_x hole - x) * (h_x hole - x) + (h_y hole - y) * (h_y hole - y)))"
    using assms by (simp add: holeDist_def n_sub_def dist2_Fin)
  have c: "holeCollision hole (player s) \<longleftrightarrow>
            sqrt ((h_x hole - x) * (h_x hole - x) + (h_y hole - y) * (h_y hole - y)) < h_radius hole \<and>
            \<not> invincible (player s)"
    by (simp add: holeCollision_def d)
  have i: "invincible (gravity dt hole (player s)) = invincible (player s)"
    by (simp add: gravity_def Let_def)
  have h: "hp (snd (gravityLoop dt [hole] s)) = (if holeCollision hole (player s) then hp s - 1 else hp s)"
  proof (cases "holeCollision hole (player s)")
    case False
    then show ?thesis by (simp add: Let_def)
  next
    case True
    then have ni: "\<not> invincible (player s)" by (simp add: holeCollision_def)
    let ?s1 = "s\<lparr>player := gravity dt hole (player s)\<rparr>"
    obtain d s2 where td: "takeDamage ?s1 = (d, s2)" by (cases "takeDamage ?s1") auto
    have "hp (snd (takeDamage ?s1)) = hp s - 1" using ni i by (simp add: takeDamage_def Let_def)
    then have "hp s2 = hp s - 1" using td by simp
    with True td show ?thesis by (cases d) (simp_all add: Let_def)
  qed
  show ?thesis using d c h by simp
qed

theorem hole_collision_test_witness:
  "p_x (player demo) = Fin 400 \<and> p_y (player demo) = Fin 300 \<and>
   holeCollision (holeAt 420 300) (player demo) \<and>
   hp (snd (gravityLoop 1 [holeAt 420 300] demo)) = hp demo - 1 \<and>
   \<not> holeCollision (holeAt 440 300) (player demo) \<and>
   hp (snd (gravityLoop 1 [holeAt 440 300] demo)) = hp demo"
proof -
  have px: "p_x (player demo) = Fin 400" and py: "p_y (player demo) = Fin 300"
    and ni: "\<not> invincible (player demo)"
    by (simp_all add: demo_player)
  have r20: "sqrt ((h_x (holeAt 420 300) - 400) * (h_x (holeAt 420 300) - 400) +
                   (h_y (holeAt 420 300) - 300) * (h_y (holeAt 420 300) - 300)) = 20"
    using real_sqrt_abs2 [of 20] by (simp add: holeAt_def)
  have r40: "sqrt ((h_x (holeAt 440 300) - 400) * (h_x (holeAt 440 300) - 400) +
                   (h_y (holeAt 440 300) - 300) * (h_y (holeAt 440 300) - 300)) = 40"
    using real_sqrt_abs2 [of 40] by (simp add: holeAt_def)
  have hr: "h_radius (holeAt 420 300) = 30" "h_radius (holeAt 440 300) = 30"
    by (simp_all add: holeAt_def)
  show ?thesis
    using hole_collision_test [OF px py, of "holeAt 420 300" 1]
      hole_collision_test [OF px py, of "holeAt 440 300" 1] ni px py
    unfolding r20 r40 hr by (simp del: gravityLoop.simps)
qed

text \<open>
  The claim as stated fails: a player of radius 15 at distance 40 from a hole of radius 30
  is closer than the sum of the radii, is not invincible, and takes no damage.
\<close>

theorem hole_collision_counterexample:
  "holeDist (holeAt 440 300) (player demo) = Fin 40 \<and>
   (40::real) < p_radius (player demo) + h_radius (holeAt 440 300) \<and>
   \<not> invincible (player demo) \<and>
   \<not> holeCollision (holeAt 440 300) (player demo) \<and>
   hp (snd (gravityLoop 1 [holeAt 440 300] demo)) = hp demo"
  by (simp add: demo_player holeAt_def holeCollision_def holeDist_def n_sub_def Let_def)

subsection \<open>The loops of the frame\<close>

lemma takeDamage_damaged:
  assumes "takeDamage s = (dead, s')"
  shows "damaged s dead s'"
proof (cases "invincible (player s)")
  case True
  with assms show ?thesis by (auto simp add: takeDamage_def damaged_def)
next
  case False
  with assms show ?thesis
    by (cases "hp s - 1 \<le> 0") (auto simp add: takeDamage_def damaged_def sched_def Let_def)
qed

lemma damaged_player: "damaged s False (s\<lparr>player := p\<rparr>)"
  by (simp add: damaged_def sched_def)

lemma damaged_trans: "damaged s False s1 \<Longrightarrow> damaged s1 dead s2 \<Longrightarrow> damaged s dead s2"
  by (auto simp add: damaged_def)

lemma gravityLoop_damaged:
  "gravityLoop dt hs s = (dead, s') \<Longrightarrow> damaged s dead s'"
proof (induction hs arbitrary: s)
  case Nil
  then show ?case by (auto simp add: damaged_def)
next
  case (Cons hole rest)
  let ?s1 = "s\<lparr>player := gravity dt hole (player s)\<rparr>"
  have d1: "damaged s False ?s1" by (rule damaged_player)
  show ?case
  proof (cases "holeCollision hole (player s)")
    case False
    then have "gravityLoop dt rest ?s1 = (dead, s')" using Cons.prems by (simp add: Let_def)
    then have "damaged ?s1 dead s'" by (rule Cons.IH)
    with d1 show ?thesis by (rule damaged_trans)
  next
    case True
    obtain d s2 where td: "takeDamage ?s1 = (d, s2)" by (cases "takeDamage ?s1") auto
    have d2: "damaged ?s1 d s2" using td by (rule takeDamage_damaged)
    show ?thesis
    proof (cases d)
      case True
      with \<open>holeCollision hole (player s)\<close> td Cons.prems have "dead" "s' = s2"
        by (simp_all add: Let_def)
      with d2 True d1 show ?thesis using damaged_trans [of s ?s1 d s2] by simp
    next
      case False
      with \<open>holeCollision hole (player s)\<close> td Cons.prems
      have "gravityLoop dt rest s2 = (dead, s')" by (simp add: Let_def)
      then have "damaged s2 dead s'" by (rule Cons.IH)
      moreover have "damaged s False s2"
        using d1 d2 False damaged_trans [of s ?s1 d s2] by simp
      ultimately show ?thesis using damaged_trans by blast
    qed
  qed
qed

lemma collectiblesLoop_props:
  "sane s \<Longrightarrow> collectiblesLoop dt cs s = (kept, s') \<Longrightarrow>
   grows s s' \<and> body s' = body s \<and> sched s' = sched s"
proof (induction cs arbitrary: kept s')
  case Nil
  then show ?case by (auto simp add: grows_refl)
next
  case (Cons c cs)
  obtain k1 s1 where r: "collectiblesLoop dt cs s = (k1, s1)"
    by (cases "collectiblesLoop dt cs s") auto
  have ih: "grows s s1 \<and> body s1 = body s \<and> sched s1 = sched s"
    using Cons.IH [OF Cons.prems(1) r] .
  then have sane1: "sane s1" by (simp add: grows_def)
  have "s' = s1 \<or> (\<exists>t. s' = collectItem t s1)"
    using Cons.prems(2) r by (auto simp add: Let_def split: if_splits)
  then show ?case
  proof
    assume "s' = s1"
    with ih show ?thesis by simp
  next
    assume "\<exists>t. s' = collectItem t s1"
    then obtain t where t: "s' = collectItem t s1" by blast
    have "grows s1 s'" using sane1 t by (simp add: collectItem_grows)
    with ih have "grows s s'" using grows_trans by blast
    with ih t show ?thesis by (simp add: collectItem_body collectItem_sched)
  qed
qed

lemma holesLoop_props:
  "holesLoop dt hs s = (kept, s') \<Longrightarrow> vitals s' = vitals s \<and> sched s' = sched s"
proof (induction hs arbitrary: kept s')
  case Nil
  then show ?case by auto
next
  case (Cons hole rest)
  obtain k1 s1 where r: "holesLoop dt rest s = (k1, s1)" by (cases "holesLoop dt rest s") auto
  have ih: "vitals s1 = vitals s \<and> sched s1 = sched s" using Cons.IH [OF r] .
  have "s' = s1 \<or> (\<exists>h. s' = spawnBullet h (snd (mathRandom s1)))"
    using Cons.prems r by (auto simp add: Let_def split: if_splits prod.splits)
  then show ?case
    using ih by (auto simp add: spawnBullet_vitals spawnBullet_sched mathRandom_vitals mathRandom_sched)
qed

lemma bulletsLoop_damaged:
  "bulletsLoop dt bs s = (dead, kept, s') \<Longrightarrow> damaged s dead s'"
proof (induction bs arbitrary: dead kept s')
  case Nil
  then show ?case by (auto simp add: damaged_def)
next
  case (Cons b rest)
  obtain d1 k1 s1 where r: "bulletsLoop dt rest s = (d1, k1, s1)"
    by (cases "bulletsLoop dt rest s") auto
  have ih: "damaged s d1 s1" using r by (rule Cons.IH)
  show ?case
  proof (cases d1)
    case True
    with r Cons.prems have "dead" "s' = s1" by simp_all
    with ih True show ?thesis by simp
  next
    case False
    have "(\<not> dead \<and> s' = s1) \<or> takeDamage s1 = (dead, s')"
      using Cons.prems r False by (auto simp add: Let_def split: if_splits prod.splits)
    then show ?thesis
    proof
      assume "\<not> dead \<and> s' = s1"
      with ih False show ?thesis by simp
    next
      assume "takeDamage s1 = (dead, s')"
      then have "damaged s1 dead s'" by (rule takeDamage_damaged)
      with ih False show ?thesis using damaged_trans [of s s1 dead s'] by simp
    qed
  qed
qed

lemma stepped_trans: "stepped s False s1 \<Longrightarrow> stepped s1 dead s2 \<Longrightarrow> stepped s dead s2"
  by (auto simp add: stepped_def intro: grows_trans)

lemma stepped_grows: "grows s s' \<Longrightarrow> body s' = body s \<Longrightarrow> stepped s False s'"
  by (simp add: stepped_def body_def)

lemma stepped_vitals: "sane s \<Longrightarrow> vitals s' = vitals s \<Longrightarrow> stepped s False s'"
  by (simp add: stepped_def vitals_def grows_def sane_def)

lemma stepped_damaged: "sane s \<Longrightarrow> damaged s dead s' \<Longrightarrow> stepped s dead s'"
  by (simp add: stepped_def damaged_def grows_def sane_def)

lemma stepped_sane: "stepped s dead s' \<Longrightarrow> sane s'"
  by (simp add: stepped_def grows_def)

lemma vitals_collectibles: "vitals (s\<lparr>collectibles := c\<rparr>) = vitals s"
  by (simp add: vitals_def)

lemma vitals_blackHoles: "vitals (s\<lparr>blackHoles := c\<rparr>) = vitals s"
  by (simp add: vitals_def)

lemma vitals_bullets: "vitals (s\<lparr>bullets := c\<rparr>) = vitals s"
  by (simp add: vitals_def)

lemma sched_lists:
  "sched (s\<lparr>collectibles := c\<rparr>) = sched s" "sched (s\<lparr>blackHoles := h\<rparr>) = sched s"
  "sched (s\<lparr>bullets := b\<rparr>) = sched s"
  by (simp_all add: sched_def)

lemma midFrame_props:
  assumes "sane s2"
  shows "stepped s2 False (midFrame s s2) \<and> sched (midFrame s s2) = sched s2"
proof -
  let ?dt = "dtOf s"
  let ?s3 = "movePhase ?dt s2"
  obtain keptC s4 where c: "collectiblesLoop ?dt (collectibles ?s3) ?s3 = (keptC, s4)"
    by (cases "collectiblesLoop ?dt (collectibles ?s3) ?s3") auto
  let ?s5 = "s4\<lparr>collectibles := keptC\<rparr>"
  obtain keptH s6 where h: "holesLoop ?dt (blackHoles s4) ?s5 = (keptH, s6)"
    by (cases "holesLoop ?dt (blackHoles s4) ?s5") auto
  have m: "midFrame s s2 = s6\<lparr>blackHoles := keptH\<rparr>"
    by (simp add: midFrame_def Let_def c h)
  have a3: "stepped s2 False ?s3" using assms by (simp add: stepped_vitals movePhase_vitals)
  have sane3: "sane ?s3" using a3 by (rule stepped_sane)
  have c4: "grows ?s3 s4 \<and> body s4 = body ?s3 \<and> sched s4 = sched ?s3"
    using sane3 c by (rule collectiblesLoop_props)
  then have a4: "stepped ?s3 False s4" by (simp add: stepped_grows)
  have sane4: "sane s4" using a4 by (rule stepped_sane)
  have a5: "stepped s4 False ?s5" using sane4 by (simp add: stepped_vitals vitals_collectibles)
  have sane5: "sane ?s5" using a5 by (rule stepped_sane)
  have h6: "vitals s6 = vitals ?s5 \<and> sched s6 = sched ?s5" using h by (rule holesLoop_props)
  then have a6: "stepped ?s5 False s6" using sane5 by (simp add: stepped_vitals)
  have sane6: "sane s6" using a6 by (rule stepped_sane)
  have a7: "stepped s6 False (s6\<lparr>blackHoles := keptH\<rparr>)"
    using sane6 by (simp add: stepped_vitals vitals_blackHoles)
  have st: "stepped s2 False (s6\<lparr>blackHoles := keptH\<rparr>)"
    using a3 a4 a5 a6 a7 stepped_trans by blast
  have sc: "sched (s6\<lparr>blackHoles := keptH\<rparr>) = sched s2"
    using c4 h6 by (simp add: sched_lists movePhase_sched)
  show ?thesis using st sc m by simp
qed


lemma tickBody_midFrame:
  "tickBody s =
     (case gravityLoop (dtOf s) (blackHoles s) (thrustPhase (dtOf s) s) of
        (True, s2) \<Rightarrow> (True, gameOver s2)
      | (False, s2) \<Rightarrow>
          (case bulletsLoop (dtOf s) (bullets (midFrame s s2)) (midFrame s s2) of
             (True, keptB, s8) \<Rightarrow> (True, gameOver (s8\<lparr>bullets := keptB\<rparr>))
           | (False, keptB, s8) \<Rightarrow>
               (False, difficultyPhase (spawnPhase (dtOf s) (s8\<lparr>bullets := keptB\<rparr>)))))"
proof -
  let ?dt = "dtOf s"
  obtain g s2 where g: "gravityLoop ?dt (blackHoles s) (thrustPhase ?dt s) = (g, s2)"
    by (cases "gravityLoop ?dt (blackHoles s) (thrustPhase ?dt s)") auto
  let ?s3 = "movePhase ?dt s2"
  obtain keptC s4 where c: "collectiblesLoop ?dt (collectibles ?s3) ?s3 = (keptC, s4)"
    by (cases "collectiblesLoop ?dt (collectibles ?s3) ?s3") auto
  let ?s5 = "s4\<lparr>collectibles := keptC\<rparr>"
  obtain keptH s6 where h: "holesLoop ?dt (blackHoles s4) ?s5 = (keptH, s6)"
    by (cases "holesLoop ?dt (blackHoles s4) ?s5") auto
  have m: "midFrame s s2 = s6\<lparr>blackHoles := keptH\<rparr>"
    by (simp add: midFrame_def Let_def c h)
  show ?thesis
    unfolding m tickBody_def Let_def thrustPhase_holes g
    by (cases g) (simp_all add: m c h)
qed

lemma collectiblesLoop_sched:
  "collectiblesLoop dt cs s = (kept, s') \<Longrightarrow> sched s' = sched s"
proof (induction cs arbitrary: kept s')
  case Nil
  then show ?case by auto
next
  case (Cons c cs)
  obtain k1 s1 where r: "collectiblesLoop dt cs s = (k1, s1)"
    by (cases "collectiblesLoop dt cs s") auto
  have ih: "sched s1 = sched s" using r by (rule Cons.IH)
  have "s' = s1 \<or> (\<exists>t. s' = collectItem t s1)"
    using Cons.prems r by (auto simp add: Let_def split: if_splits)
  then show ?case using ih by (auto simp add: collectItem_sched)
qed

lemma midFrame_sched: "sched (midFrame s s2) = sched s2"
proof -
  let ?dt = "dtOf s"
  let ?s3 = "movePhase ?dt s2"
  obtain keptC s4 where c: "collectiblesLoop ?dt (collectibles ?s3) ?s3 = (keptC, s4)"
    by (cases "collectiblesLoop ?dt (collectibles ?s3) ?s3") auto
  let ?s5 = "s4\<lparr>collectibles := keptC\<rparr>"
  obtain keptH s6 where h: "holesLoop ?dt (blackHoles s4) ?s5 = (keptH, s6)"
    by (cases "holesLoop ?dt (blackHoles s4) ?s5") auto
  have m: "midFrame s s2 = s6\<lparr>blackHoles := keptH\<rparr>"
    by (simp add: midFrame_def Let_def c h)
  have "sched s4 = sched ?s3" using c by (rule collectiblesLoop_sched)
  moreover have "sched s6 = sched ?s5" using holesLoop_props [OF h] by simp
  ultimately show ?thesis by (simp add: m sched_lists movePhase_sched)
qed

lemma tickBody_dead:
  assumes "tickBody s = (True, s')"
  shows "hp s' \<le> 0 \<and> \<not> isRunning s' \<and> sched s' = sched s"
proof -
  let ?dt = "dtOf s"
  let ?s1 = "thrustPhase ?dt s"
  obtain g s2 where g: "gravityLoop ?dt (blackHoles s) ?s1 = (g, s2)"
    by (cases "gravityLoop ?dt (blackHoles s) ?s1") auto
  have d2: "damaged ?s1 g s2" using g by (rule gravityLoop_damaged)
  have sc2: "sched s2 = sched s" using d2 by (simp add: damaged_def thrustPhase_sched)
  show ?thesis
  proof (cases g)
    case True
    then have "s' = gameOver s2" using assms g by (simp add: tickBody_midFrame)
    with d2 True sc2 show ?thesis by (simp add: gameOver_fields damaged_def)
  next
    case False
    let ?m = "midFrame s s2"
    obtain b keptB s8 where b: "bulletsLoop ?dt (bullets ?m) ?m = (b, keptB, s8)"
      by (cases "bulletsLoop ?dt (bullets ?m) ?m") auto
    have d8: "damaged ?m b s8" using b by (rule bulletsLoop_damaged)
    have bt: "b" using assms g False b by (cases b) (simp_all add: tickBody_midFrame)
    then have "s' = gameOver (s8\<lparr>bullets := keptB\<rparr>)"
      using assms g False b by (simp add: tickBody_midFrame)
    with d8 bt sc2 show ?thesis
      by (simp add: gameOver_fields damaged_def midFrame_sched sched_lists)
  qed
qed

lemma stepped_vitals_right: "stepped s d s1 \<Longrightarrow> vitals s2 = vitals s1 \<Longrightarrow> stepped s d s2"
  by (simp add: stepped_def vitals_def grows_def sane_def)

lemma tickBody_stepped:
  assumes "sane s" and "0 \<le> dtOf s" and "tickBody s = (dead, s')"
  shows "grows s s' \<and> maxHP s' = maxHP s \<and> isPaused s' = isPaused s \<and>
         botEnabled s' = botEnabled s \<and> hp s' \<le> hp s \<and>
         (dead \<longrightarrow> hp s' \<le> 0 \<and> \<not> isRunning s') \<and> (\<not> dead \<longrightarrow> isRunning s' = isRunning s) \<and>
         (1 \<le> hp s \<longrightarrow> 0 \<le> hp s' \<and> (\<not> dead \<longrightarrow> 1 \<le> hp s'))"
proof -
  let ?dt = "dtOf s"
  let ?s1 = "thrustPhase ?dt s"
  have st1: "stepped s False ?s1"
    using assms(1,2) by (simp add: stepped_grows thrustPhase_grows thrustPhase_body)
  obtain g s2 where g: "gravityLoop ?dt (blackHoles s) ?s1 = (g, s2)"
    by (cases "gravityLoop ?dt (blackHoles s) ?s1") auto
  have "damaged ?s1 g s2" using g by (rule gravityLoop_damaged)
  then have "stepped ?s1 g s2" using stepped_sane [OF st1] by (simp add: stepped_damaged)
  with st1 have st2: "stepped s g s2" by (rule stepped_trans)
  show ?thesis
  proof (cases g)
    case True
    then have "dead" "s' = gameOver s2" using assms(3) g by (simp_all add: tickBody_midFrame)
    with st2 True show ?thesis
      by (simp add: stepped_def grows_def sane_def gameOver_fields)
  next
    case False
    let ?m = "midFrame s s2"
    have sane2: "sane s2" using st2 by (rule stepped_sane)
    have m2: "stepped s2 False ?m" using midFrame_props [OF sane2] by simp
    have "stepped s False s2" using st2 False by simp
    then have stm: "stepped s False ?m" using m2 by (rule stepped_trans)
    obtain b keptB s8 where b: "bulletsLoop ?dt (bullets ?m) ?m = (b, keptB, s8)"
      by (cases "bulletsLoop ?dt (bullets ?m) ?m") auto
    let ?s9 = "s8\<lparr>bullets := keptB\<rparr>"
    have "damaged ?m b s8" using b by (rule bulletsLoop_damaged)
    then have "stepped ?m b s8" using stepped_sane [OF stm] by (simp add: stepped_damaged)
    with stm have "stepped s b s8" by (rule stepped_trans)
    then have st9: "stepped s b ?s9" by (rule stepped_vitals_right) (simp add: vitals_bullets)
    show ?thesis
    proof (cases b)
      case True
      then have "dead" "s' = gameOver ?s9"
        using assms(3) g False b by (simp_all add: tickBody_midFrame)
      with st9 True show ?thesis
        by (simp add: stepped_def grows_def sane_def gameOver_fields)
    next
      case False
      let ?sp = "spawnPhase ?dt ?s9"
      have nd: "\<not> dead" and s': "s' = difficultyPhase ?sp"
        using assms(3) g \<open>\<not> g\<close> b False by (simp_all add: tickBody_midFrame)
      have stp: "stepped s False ?sp"
        using st9 False by (simp add: stepped_vitals_right spawnPhase_vitals)
      have "stepped ?sp False (difficultyPhase ?sp)"
        using stepped_sane [OF stp] by (simp add: stepped_grows difficultyPhase_grows difficultyPhase_body)
      with stp have "stepped s False s'" unfolding s' by (rule stepped_trans)
      with nd show ?thesis by (simp add: stepped_def)
    qed
  qed
qed

subsection \<open>The invariant of a run\<close>

lemma update_stepped:
  assumes "sane s" and "0 \<le> dtOf s"
  shows "grows s (update d1 d2 s) \<and> maxHP (update d1 d2 s) = maxHP s \<and>
         hp (update d1 d2 s) \<le> hp s \<and>
         (1 \<le> hp s \<longrightarrow> 0 \<le> hp (update d1 d2 s) \<and>
            (isRunning (update d1 d2 s) \<longrightarrow> 1 \<le> hp (update d1 d2 s)))"
proof -
  obtain dead s' where t: "tickBody s = (dead, s')" by (cases "tickBody s") auto
  note p = tickBody_stepped [OF assms t]
  show ?thesis
  proof (cases dead)
    case True
    then have "update d1 d2 s = s'" using t by (simp add: update_def)
    with p True show ?thesis by simp
  next
    case False
    then have u: "update d1 d2 s = updateBot d1 d2 s'" using t by (simp add: update_def)
    have v: "vitals (updateBot d1 d2 s') = vitals s'" by (rule updateBot_vitals)
    from vitalsD [OF v] p False show ?thesis
      unfolding u by (simp add: grows_def sane_def)
  qed
qed

lemma beginFrame_fields:
  "vitals (beginFrame now s) = vitals s"
  "lastTime s \<le> now \<Longrightarrow> 0 \<le> dtOf (beginFrame now s)"
  by (simp_all add: beginFrame_def vitals_def dtOf_def)

lemma runInv_vitals: "vitals s' = vitals s \<Longrightarrow> runInv s' = runInv s"
  by (simp add: runInv_def vitals_def sane_def)

lemma gameLoop_inv:
  assumes "runInv s" and "lastTime s \<le> now"
  shows "runInv (gameLoop now d1 d2 s) \<and> score s \<le> score (gameLoop now d1 d2 s) \<and>
         multiplier s \<le> multiplier (gameLoop now d1 d2 s)"
proof (cases "\<not> isRunning s \<or> isPaused s")
  case True
  then show ?thesis using assms(1) by (simp add: gameLoop_def)
next
  case False
  let ?b = "beginFrame now s"
  have g: "gameLoop now d1 d2 s = update d1 d2 ?b" using False by (simp add: gameLoop_def)
  have v: "vitals ?b = vitals s" by (rule beginFrame_fields)
  have ib: "runInv ?b" using assms(1) runInv_vitals [OF v] by simp
  then have sb: "sane ?b" and hb: "1 \<le> hp ?b" "hp ?b \<le> maxHP ?b"
    using False vitalsD [OF v] by (simp_all add: runInv_def)
  note u = update_stepped [OF sb beginFrame_fields(2) [OF assms(2)], of d1 d2]
  show ?thesis unfolding g using u hb vitalsD [OF v]
    by (simp add: runInv_def grows_def)
qed

lemma resetRun_inv:
  "runInv (resetRun t0 s) \<and> lastTime (resetRun t0 s) = t0 \<and> score (resetRun t0 s) = 0 \<and>
   multiplier (resetRun t0 s) = 1"
  by (cases "selectedShip s")
    (simp_all add: resetRun_def createPlayer_def runInv_def sane_def Let_def)

lemma runInv_inputs:
  "runInv (s\<lparr>isPaused := b, lastTime := t\<rparr>) = runInv s"
  "runInv (s\<lparr>isPaused := b\<rparr>) = runInv s"
  "runInv (s\<lparr>mouseX := x, mouseY := y\<rparr>) = runInv s"
  "runInv (s\<lparr>mouseDown := b\<rparr>) = runInv s"
  "runInv (s\<lparr>keySpace := b\<rparr>) = runInv s"
  "runInv (s\<lparr>botEnabled := b\<rparr>) = runInv s"
  "runInv (s\<lparr>selectedShip := sh\<rparr>) = runInv s"
  "runInv (s\<lparr>width := w, height := h\<rparr>) = runInv s"
  "runInv s \<Longrightarrow> runInv (s\<lparr>isRunning := False, isPaused := False\<rparr>)"
  "runInv s \<Longrightarrow> runInv (s\<lparr>isRunning := False\<rparr>)"
  by (simp_all add: runInv_def sane_def)

lemma handle_inv:
  assumes "runInv s" and "timely e s"
  shows "runInv (handle e s) \<and>
         (\<not> isStart e \<longrightarrow> score s \<le> score (handle e s) \<and> multiplier s \<le> multiplier (handle e s))"
proof (cases e)
  case (Frame now d1 d2)
  then show ?thesis using assms gameLoop_inv [of s now d1 d2] by simp
next
  case (EscapeKey t now d1 d2)
  let ?s1 = "s\<lparr>isPaused := False, lastTime := t\<rparr>"
  have i1: "runInv ?s1" using assms(1) by (simp add: runInv_inputs)
  have "lastTime ?s1 \<le> now" using assms(2) EscapeKey by simp
  note g = gameLoop_inv [OF i1 this, of d1 d2]
  show ?thesis
  proof (cases "isRunning s")
    case False
    then show ?thesis using assms(1) EscapeKey by simp
  next
    case True
    show ?thesis
    proof (cases "isPaused s")
      case True
      with \<open>isRunning s\<close> g EscapeKey show ?thesis
        by (simp add: togglePause_def Let_def)
    next
      case False
      with \<open>isRunning s\<close> assms(1) EscapeKey show ?thesis
        by (simp add: togglePause_def Let_def runInv_inputs)
    qed
  qed
next
  case (StartButton t0 now d1 d2)
  have "lastTime (resetRun t0 s) \<le> now" using assms(2) StartButton by (simp add: resetRun_inv)
  from gameLoop_inv [OF _ this, of d1 d2] StartButton show ?thesis
    by (simp add: startGame_def resetRun_inv)
next
  case (ResumeButton t now d1 d2)
  let ?s1 = "s\<lparr>isPaused := False, lastTime := t\<rparr>"
  have i1: "runInv ?s1" using assms(1) by (simp add: runInv_inputs)
  have "lastTime ?s1 \<le> now" using assms(2) ResumeButton by simp
  from gameLoop_inv [OF i1 this, of d1 d2] ResumeButton show ?thesis
    by (simp add: resumeGame_def)
qed (use assms(1) in \<open>simp_all add: runInv_inputs showMenu_def toggleBot_def\<close>)

lemma run_inv: "runInv s \<Longrightarrow> timelyRun es s \<Longrightarrow> runInv (run es s)"
  by (induction es arbitrary: s) (simp_all add: handle_inv)

lemma run_mono:
  "runInv s \<Longrightarrow> timelyRun es s \<Longrightarrow> list_all (\<lambda>e. \<not> isStart e) es \<Longrightarrow>
   score s \<le> score (run es s) \<and> multiplier s \<le> multiplier (run es s)"
proof (induction es arbitrary: s)
  case Nil
  then show ?case by simp
next
  case (Cons e es)
  have h: "runInv (handle e s)" "score s \<le> score (handle e s)"
    "multiplier s \<le> multiplier (handle e s)"
    using handle_inv [of s e] Cons.prems by simp_all
  have "score (handle e s) \<le> score (run es (handle e s)) \<and>
        multiplier (handle e s) \<le> multiplier (run es (handle e s))"
    using Cons.IH [OF h(1)] Cons.prems by simp
  with h show ?case by simp
qed

lemma run_append: "run (es1 @ es2) s = run es2 (run es1 s)"
  by (induction es1 arbitrary: s) simp_all

lemma timelyRun_append:
  "timelyRun (es1 @ es2) s = (timelyRun es1 s \<and> timelyRun es2 (run es1 s))"
  by (induction es1 arbitrary: s) simp_all

subsection \<open>The damage procedure\<close>

lemma takeDamage_invincible: "invincible (player s) \<Longrightarrow> takeDamage s = (False, s)"
  by (simp add: takeDamage_def)

lemma takeDamage_dead:
  "\<not> invincible (player s) \<Longrightarrow> hp s - 1 \<le> 0 \<Longrightarrow> takeDamage s = (True, s\<lparr>hp := hp s - 1\<rparr>)"
  by (simp add: takeDamage_def Let_def)

lemma takeDamage_hurt:
  "\<not> invincible (player s) \<Longrightarrow> 0 < hp s - 1 \<Longrightarrow>
   takeDamage s =
     (False, s\<lparr>hp := hp s - 1,
               player := (player s)\<lparr>invincible := True, invincibleTimer := 120\<rparr>\<rparr>)"
  by (simp add: takeDamage_def Let_def)

lemma takeDamage_twice:
  assumes "\<not> fst (takeDamage s)"
  shows "takeDamage (snd (takeDamage s)) = (False, snd (takeDamage s))"
proof (cases "invincible (player s)")
  case True
  then show ?thesis by (simp add: takeDamage_invincible)
next
  case False
  show ?thesis
  proof (cases "hp s - 1 \<le> 0")
    case True
    with False assms show ?thesis by (simp add: takeDamage_dead)
  next
    case False
    with \<open>\<not> invincible (player s)\<close> have "takeDamage s =
     (False, s\<lparr>hp := hp s - 1,
               player := (player s)\<lparr>invincible := True, invincibleTimer := 120\<rparr>\<rparr>)"
      by (simp add: takeDamage_hurt)
    then show ?thesis by (simp add: takeDamage_invincible)
  qed
qed

lemma update_dead:
  assumes "fst (tickBody s)"
  shows "update d1 d2 s = snd (tickBody s) \<and> \<not> isRunning (update d1 d2 s) \<and>
         hp (update d1 d2 s) \<le> 0 \<and> sched (update d1 d2 s) = sched s"
proof -
  obtain s' where t: "tickBody s = (True, s')" using assms by (cases "tickBody s") auto
  from tickBody_dead [OF t] t show ?thesis by (simp add: update_def)
qed

text \<open>The loop over the holes, up to a contact and at one.\<close>

lemma gravity_invincible [simp]: "invincible (gravity dt h p) = invincible p"
  by (simp add: gravity_def Let_def)

lemma holeCollision_gravity [simp]: "holeCollision h (gravity dt h' p) = holeCollision h p"
  by (simp add: holeCollision_def holeDist_def gravity_def Let_def)

lemma pulls_Nil [simp]: "pulls dt [] p = p"
  by (simp add: pulls_def)

lemma pulls_Cons [simp]: "pulls dt (h # hs) p = pulls dt hs (gravity dt h p)"
  by (simp add: pulls_def)

lemma pulls_append: "pulls dt (hs @ hs') p = pulls dt hs' (pulls dt hs p)"
  by (simp add: pulls_def)

lemma holeCollision_pulls [simp]: "holeCollision h (pulls dt hs p) = holeCollision h p"
  by (induction hs arbitrary: p) simp_all

lemma invincible_pulls [simp]: "invincible (pulls dt hs p) = invincible p"
  by (induction hs arbitrary: p) simp_all

lemma gravity_shielded: "gravity dt h (shielded p) = shielded (gravity dt h p)"
  by (simp add: gravity_def holeDist_def shielded_def Let_def)

lemma pulls_shielded: "pulls dt hs (shielded p) = shielded (pulls dt hs p)"
  by (induction hs arbitrary: p) (simp_all add: gravity_shielded)

lemma gravityLoop_clear:
  "\<forall>h \<in> set hs. \<not> holeCollision h (player s) \<Longrightarrow>
   gravityLoop dt hs s = (False, s\<lparr>player := pulls dt hs (player s)\<rparr>)"
  by (induction hs arbitrary: s) simp_all

lemma gravityLoop_append:
  "\<forall>h \<in> set pre. \<not> holeCollision h (player s) \<Longrightarrow>
   gravityLoop dt (pre @ rest) s = gravityLoop dt rest (s\<lparr>player := pulls dt pre (player s)\<rparr>)"
  by (induction pre arbitrary: s) simp_all

lemma gravityLoop_fatal:
  assumes "\<forall>h' \<in> set pre. \<not> holeCollision h' (player s)"
    and "holeCollision h (player s)" and "hp s \<le> 1"
  shows "gravityLoop dt (pre @ h # post) s =
           (True, s\<lparr>player := pulls dt (pre @ [h]) (player s), hp := hp s - 1\<rparr>)"
proof -
  let ?s' = "s\<lparr>player := pulls dt pre (player s)\<rparr>"
  let ?s1 = "?s'\<lparr>player := gravity dt h (player ?s')\<rparr>"
  have ni: "\<not> invincible (player ?s1)" using assms(2) by (simp add: holeCollision_def)
  have td: "takeDamage ?s1 = (True, ?s1\<lparr>hp := hp ?s1 - 1\<rparr>)"
    using ni assms(3) by (intro takeDamage_dead) simp_all
  have "gravityLoop dt (pre @ h # post) s = gravityLoop dt (h # post) ?s'"
    using assms(1) by (rule gravityLoop_append)
  also have "\<dots> = (True, ?s1\<lparr>hp := hp ?s1 - 1\<rparr>)"
    using assms(2) td by (simp add: Let_def)
  finally show ?thesis by (simp add: pulls_append)
qed

lemma gravityLoop_hurt:
  assumes "\<forall>h' \<in> set pre. \<not> holeCollision h' (player s)"
    and "holeCollision h (player s)" and "1 < hp s"
  shows "gravityLoop dt (pre @ h # post) s =
           (False, s\<lparr>hp := hp s - 1,
                     player := shielded (pulls dt (pre @ h # post) (player s))\<rparr>)"
proof -
  let ?s' = "s\<lparr>player := pulls dt pre (player s)\<rparr>"
  let ?s1 = "?s'\<lparr>player := gravity dt h (player ?s')\<rparr>"
  let ?s2 = "?s1\<lparr>hp := hp ?s1 - 1, player := shielded (player ?s1)\<rparr>"
  have ni: "\<not> invincible (player ?s1)" using assms(2) by (simp add: holeCollision_def)
  have td: "takeDamage ?s1 = (False, ?s2)"
    using ni assms(3) takeDamage_hurt [of ?s1] by (simp add: shielded_def)
  have cl: "\<forall>h' \<in> set post. \<not> holeCollision h' (player ?s2)"
    by (simp add: holeCollision_def shielded_def)
  have "gravityLoop dt (pre @ h # post) s = gravityLoop dt (h # post) ?s'"
    using assms(1) by (rule gravityLoop_append)
  also have "\<dots> = gravityLoop dt post ?s2"
    using assms(2) td by (simp add: Let_def)
  also have "\<dots> = (False, ?s2\<lparr>player := pulls dt post (player ?s2)\<rparr>)"
    using cl by (rule gravityLoop_clear)
  finally show ?thesis by (simp add: pulls_append pulls_shielded)
qed

text \<open>The loop over the bullets, up to a contact and at one.\<close>

lemma sweep_Nil [simp]: "sweep dt [] s = []"
  by (simp add: sweep_def)

lemma sweep_Cons:
  "sweep dt (b # bs) s =
     (if bulletExpired (moveBullet dt b) s then sweep dt bs s
      else moveBullet dt b # sweep dt bs s)"
  by (simp add: sweep_def)

lemma bulletsLoop_clear:
  "\<forall>b \<in> set bs. \<not> bulletCollision (moveBullet dt b) (player s) \<Longrightarrow>
   bulletsLoop dt bs s = (False, sweep dt bs s, s)"
  by (induction bs) (simp_all add: sweep_Cons Let_def)

lemma bulletsLoop_fatal:
  assumes "\<forall>b' \<in> set post. \<not> bulletCollision (moveBullet dt b') (player s)"
    and "bulletCollision (moveBullet dt b) (player s)" and "hp s \<le> 1"
  shows "bulletsLoop dt (pre @ b # post) s = (True, pre @ sweep dt post s, s\<lparr>hp := hp s - 1\<rparr>)"
proof (induction pre)
  case Nil
  have ni: "\<not> invincible (player s)" using assms(2) by (simp add: bulletCollision_def)
  have td: "takeDamage s = (True, s\<lparr>hp := hp s - 1\<rparr>)"
    using ni assms(3) by (intro takeDamage_dead) simp_all
  show ?case using bulletsLoop_clear [OF assms(1)] assms(2) td by (simp add: Let_def)
next
  case (Cons a pre)
  then show ?case by simp
qed

lemma bulletsLoop_hurt:
  assumes "\<forall>b' \<in> set post. \<not> bulletCollision (moveBullet dt b') (player s)"
    and "bulletCollision (moveBullet dt b) (player s)" and "1 < hp s"
  shows "bulletsLoop dt (pre @ b # post) s =
           (False, sweep dt pre s @ sweep dt post s,
            s\<lparr>hp := hp s - 1, player := shielded (player s)\<rparr>)"
proof (induction pre)
  case Nil
  have ni: "\<not> invincible (player s)" using assms(2) by (simp add: bulletCollision_def)
  have td: "takeDamage s = (False, s\<lparr>hp := hp s - 1, player := shielded (player s)\<rparr>)"
    using ni assms(3) takeDamage_hurt [of s] by (simp add: shielded_def)
  show ?case using bulletsLoop_clear [OF assms(1)] assms(2) td by (simp add: Let_def)
next
  case (Cons a pre)
  have nc: "\<not> bulletCollision (moveBullet dt a) (shielded (player s))"
    by (simp add: bulletCollision_def shielded_def)
  have ex: "bulletExpired (moveBullet dt a) (s\<lparr>hp := hp s - 1, player := shielded (player s)\<rparr>) =
      bulletExpired (moveBullet dt a) s"
    by (simp add: bulletExpired_def)
  show ?case using Cons nc ex by (simp add: sweep_Cons Let_def)
qed

text \<open>The frame that ends at a contact.\<close>

lemma thrustPhase_collision [simp]:
  "holeCollision h (player (thrustPhase dt s)) = holeCollision h (player s)"
  by (simp add: thrustPhase_def Let_def holeCollision_def holeDist_def split: prod.splits)

lemma thrustPhase_hp [simp]: "hp (thrustPhase dt s) = hp s"
  by (simp add: thrustPhase_def Let_def split: prod.splits)

lemma collectiblesLoop_body:
  "collectiblesLoop dt cs s = (kept, s') \<Longrightarrow> body s' = body s"
proof (induction cs arbitrary: kept s')
  case Nil
  then show ?case by auto
next
  case (Cons c cs)
  obtain k1 s1 where r: "collectiblesLoop dt cs s = (k1, s1)"
    by (cases "collectiblesLoop dt cs s") auto
  have ih: "body s1 = body s" using r by (rule Cons.IH)
  have "s' = s1 \<or> (\<exists>t. s' = collectItem t s1)"
    using Cons.prems r by (auto simp add: Let_def split: if_splits)
  then show ?case using ih by (auto simp add: collectItem_body)
qed

lemma midFrame_hp: "hp (midFrame s s2) = hp s2"
proof -
  let ?dt = "dtOf s"
  let ?s3 = "movePhase ?dt s2"
  obtain keptC s4 where c: "collectiblesLoop ?dt (collectibles ?s3) ?s3 = (keptC, s4)"
    by (cases "collectiblesLoop ?dt (collectibles ?s3) ?s3") auto
  let ?s5 = "s4\<lparr>collectibles := keptC\<rparr>"
  obtain keptH s6 where h: "holesLoop ?dt (blackHoles ?s5) ?s5 = (keptH, s6)"
    by (cases "holesLoop ?dt (blackHoles ?s5) ?s5") auto
  have m: "midFrame s s2 = s6\<lparr>blackHoles := keptH\<rparr>"
    using c h by (simp add: midFrame_def Let_def)
  have "hp ?s3 = hp s2" using movePhase_vitals [of ?dt s2] by (simp add: vitals_def)
  moreover have "hp s4 = hp ?s3" using collectiblesLoop_body [OF c] by (simp add: body_def)
  moreover have "hp s6 = hp ?s5" using holesLoop_props [OF h] by (simp add: vitals_def)
  ultimately show ?thesis unfolding m by simp
qed

lemma beforeBullets_hp: "hp (beforeBullets s) = hp s"
  by (simp add: beforeBullets_def Let_def midFrame_hp)

lemma beforeBullets_sched: "sched (beforeBullets s) = sched s"
proof -
  let ?t = "thrustPhase (dtOf s) s"
  have "sched (beforeBullets s) = sched (?t\<lparr>player := pulls (dtOf s) (blackHoles ?t) (player ?t)\<rparr>)"
    by (simp add: beforeBullets_def Let_def midFrame_sched)
  also have "\<dots> = sched ?t" by (simp add: sched_def)
  finally show ?thesis by (simp add: thrustPhase_sched)
qed

lemma update_hole_fatal:
  assumes "blackHoles s = pre @ h # post"
    and "\<forall>h' \<in> set pre. \<not> holeCollision h' (player s)"
    and "holeCollision h (player s)" and "hp s \<le> 1"
  shows "update d1 d2 s =
           gameOver ((thrustPhase (dtOf s) s)
             \<lparr>player := pulls (dtOf s) (pre @ [h]) (player (thrustPhase (dtOf s) s)),
              hp := hp s - 1\<rparr>)"
proof -
  let ?t = "thrustPhase (dtOf s) s"
  have "gravityLoop (dtOf s) (pre @ h # post) ?t =
      (True, ?t\<lparr>player := pulls (dtOf s) (pre @ [h]) (player ?t), hp := hp ?t - 1\<rparr>)"
    using assms(2) assms(3) assms(4) by (intro gravityLoop_fatal) simp_all
  then show ?thesis by (simp add: update_def tickBody_midFrame assms(1))
qed

lemma update_bullet_fatal:
  assumes "\<forall>h \<in> set (blackHoles s). \<not> holeCollision h (player s)"
    and "bullets (beforeBullets s) = pre @ b # post"
    and "\<forall>b' \<in> set post. \<not> bulletCollision (moveBullet (dtOf s) b') (player (beforeBullets s))"
    and "bulletCollision (moveBullet (dtOf s) b) (player (beforeBullets s))" and "hp s \<le> 1"
  shows "update d1 d2 s =
           gameOver ((beforeBullets s)
             \<lparr>hp := hp s - 1, bullets := pre @ sweep (dtOf s) post (beforeBullets s)\<rparr>)"
proof -
  let ?t = "thrustPhase (dtOf s) s"
  let ?b = "beforeBullets s"
  have g: "gravityLoop (dtOf s) (blackHoles s) ?t =
      (False, ?t\<lparr>player := pulls (dtOf s) (blackHoles s) (player ?t)\<rparr>)"
    using assms(1) by (intro gravityLoop_clear) simp
  have m: "midFrame s (?t\<lparr>player := pulls (dtOf s) (blackHoles s) (player ?t)\<rparr>) = ?b"
    by (simp add: beforeBullets_def Let_def thrustPhase_holes)
  have "bulletsLoop (dtOf s) (pre @ b # post) ?b =
      (True, pre @ sweep (dtOf s) post ?b, ?b\<lparr>hp := hp ?b - 1\<rparr>)"
    using assms(3) assms(4) assms(5) by (intro bulletsLoop_fatal) (simp_all add: beforeBullets_hp)
  then show ?thesis by (simp add: update_def tickBody_midFrame g m assms(2) beforeBullets_hp)
qed

text \<open>The example states.\<close>

lemma demo_hp: "hp demo = 1"
  by (simp add: demo_def resetRun_def constructed_def createPlayer_def)

lemma demo_at: "p_x (player demo) = Fin 400" "p_vx (player demo) = Fin 0"
  by (simp_all add: demo_player)

lemma besieged_fields:
  "player besieged = player demo" "hp besieged = 1" "dtOf besieged = 1"
  "blackHoles besieged = [holeAt 700 300] @ holeAt 420 300 # [holeAt 380 300]"
  by (simp_all add: besieged_def demo_hp dtOf_def)

lemma demo_holes:
  "\<not> holeCollision (holeAt 700 300) (player demo)"
  "holeCollision (holeAt 420 300) (player demo)"
  "holeCollision (holeAt 380 300) (player demo)"
  by (simp_all add: demo_player holeCollision_def holeDist_def holeAt_def n_sub_def)

lemma demo_pulls:
  "gravity 1 (holeAt 700 300) (player demo) = player demo"
  "gravity 1 (holeAt 420 300) (player demo) = (player demo)\<lparr>p_vx := Fin (9 / 20)\<rparr>"
  "gravity 1 (holeAt 380 300) ((player demo)\<lparr>p_vx := Fin (9 / 20)\<rparr>) = player demo"
  by (simp_all add: demo_player gravity_def holeDist_def holeAt_def n_sub_def Let_def)

lemma besieged_thrust: "player (thrustPhase 1 besieged) = player demo"
  by (simp add: besieged_def demo_def resetRun_def constructed_def createPlayer_def
      thrustPhase_def Let_def n_sub_def n_gt_def n_min_def)

lemma shot_fields:
  "player shot = player demo" "hp shot = 1" "dtOf shot = 1" "blackHoles shot = []"
  "bullets shot = [bulletAt 405] @ bulletAt 410 # [bulletAt 100]"
  "width shot = 800" "height shot = 600"
  by (simp_all add: shot_def demo_hp dtOf_def demo_def resetRun_def constructed_def createPlayer_def)

lemma shot_before:
  "player (beforeBullets shot) = player demo"
  "bullets (beforeBullets shot) = [bulletAt 405] @ bulletAt 410 # [bulletAt 100]"
  "width (beforeBullets shot) = 800" "height (beforeBullets shot) = 600"
  by (simp_all add: beforeBullets_def midFrame_def shot_def demo_def resetRun_def constructed_def
      createPlayer_def dtOf_def thrustPhase_def movePhase_def Let_def n_sub_def n_gt_def n_min_def)

lemma demo_bullets:
  "bulletCollision (moveBullet 1 (bulletAt 405)) (player demo)"
  "bulletCollision (moveBullet 1 (bulletAt 410)) (player demo)"
  "\<not> bulletCollision (moveBullet 1 (bulletAt 100)) (player demo)"
  by (simp_all add: demo_player bulletCollision_def moveBullet_def bulletAt_def n_sub_def)

lemma shot_sweep:
  "width s = 800 \<Longrightarrow> height s = 600 \<Longrightarrow>
   sweep 1 [bulletAt 100] s = [(bulletAt 100)\<lparr>b_x := Fin 101, life := 299\<rparr>]"
  "width s = 800 \<Longrightarrow> height s = 600 \<Longrightarrow>
   sweep 1 [bulletAt 405] s = [(bulletAt 405)\<lparr>b_x := Fin 406, life := 299\<rparr>]"
  by (simp_all add: sweep_def bulletExpired_def moveBullet_def bulletAt_def n_gt_def)

text \<open>
  Claim C1. While the player is invincible \<open>takeDamage\<close> changes nothing and returns
  \<open>false\<close>. Otherwise it takes exactly one hit point; if none is left it returns
  \<open>true\<close> and changes nothing else, else it makes the player invincible for 120 ticks
  and returns \<open>false\<close>. A second call right after a call that returned \<open>false\<close>
  changes nothing, so two calls within the grace window take at most one hit point.

  Both loops of the frame that test a contact reach \<open>takeDamage\<close> at the first contact
  they meet. In the loop over the holes, when the holes before \<open>h\<close> are not touched and
  \<open>h\<close> is: with at most one hit point left the loop stops at \<open>h\<close>, one hit point
  taken and the holes after \<open>h\<close> without their pull; with more, one hit point is taken,
  the player is invincible for 120 ticks and every hole has pulled. In the loop over the
  bullets, which handles the highest index first, when the bullets after \<open>b\<close> are not
  touched and \<open>b\<close> is: with at most one hit point left the loop stops at \<open>b\<close>, the
  bullets before \<open>b\<close> kept as they were; with more, one hit point is taken, the player
  is invincible for 120 ticks and \<open>b\<close> is removed.

  A frame with such a contact and at most one hit point left ends there with the game
  over. At a hole, the result is \<open>gameOver\<close> of the state after the thrust and the
  pulls up to \<open>h\<close>, with one hit point less: the player has not moved, nothing was
  collected, no hole has aged or shot, no bullet has moved. At a bullet, it is
  \<open>gameOver\<close> of the state before the loop over the bullets, with one hit point less
  and the bullets as the loop left them. In both, and in every frame in which
  \<open>takeDamage\<close> returned \<open>true\<close>, the spawn and difficulty timers, the level and the
  pilot's target are those of the start of the frame, and the game is not running. Once
  the game is not running, \<open>gameLoop\<close> changes nothing, so the transition happens once
  per run.
\<close>

theorem damage_procedure:
  "(invincible (player s) \<longrightarrow> takeDamage s = (False, s)) \<and>
   (\<not> invincible (player s) \<longrightarrow> hp (snd (takeDamage s)) = hp s - 1) \<and>
   (\<not> invincible (player s) \<and> hp s - 1 \<le> 0 \<longrightarrow> takeDamage s = (True, s\<lparr>hp := hp s - 1\<rparr>)) \<and>
   (\<not> invincible (player s) \<and> 0 < hp s - 1 \<longrightarrow>
      takeDamage s =
        (False, s\<lparr>hp := hp s - 1,
                  player := (player s)\<lparr>invincible := True, invincibleTimer := 120\<rparr>\<rparr>)) \<and>
   (\<not> fst (takeDamage s) \<longrightarrow> takeDamage (snd (takeDamage s)) = (False, snd (takeDamage s))) \<and>
   (fst (tickBody s) \<longrightarrow>
      update d1 d2 s = snd (tickBody s) \<and> \<not> isRunning (update d1 d2 s) \<and>
      hp (update d1 d2 s) \<le> 0 \<and>
      spawnTimer (update d1 d2 s) = spawnTimer s \<and>
      difficultyTimer (update d1 d2 s) = difficultyTimer s \<and>
      level (update d1 d2 s) = level s \<and>
      mouseX (update d1 d2 s) = mouseX s \<and> mouseY (update d1 d2 s) = mouseY s \<and>
      mouseDown (update d1 d2 s) = mouseDown s) \<and>
   (\<not> isRunning s \<longrightarrow> gameLoop now d1 d2 s = s) \<and>
   ((\<forall>h' \<in> set pre. \<not> holeCollision h' (player s)) \<and> holeCollision h (player s) \<and> hp s \<le> 1 \<longrightarrow>
      gravityLoop dt (pre @ h # post) s =
        (True, s\<lparr>player := pulls dt (pre @ [h]) (player s), hp := hp s - 1\<rparr>)) \<and>
   ((\<forall>h' \<in> set pre. \<not> holeCollision h' (player s)) \<and> holeCollision h (player s) \<and> 1 < hp s \<longrightarrow>
      gravityLoop dt (pre @ h # post) s =
        (False, s\<lparr>hp := hp s - 1,
                  player := (pulls dt (pre @ h # post) (player s))
                    \<lparr>invincible := True, invincibleTimer := 120\<rparr>\<rparr>)) \<and>
   ((\<forall>b' \<in> set bpost. \<not> bulletCollision (moveBullet dt b') (player s)) \<and>
    bulletCollision (moveBullet dt b) (player s) \<and> hp s \<le> 1 \<longrightarrow>
      bulletsLoop dt (bpre @ b # bpost) s =
        (True, bpre @ sweep dt bpost s, s\<lparr>hp := hp s - 1\<rparr>)) \<and>
   ((\<forall>b' \<in> set bpost. \<not> bulletCollision (moveBullet dt b') (player s)) \<and>
    bulletCollision (moveBullet dt b) (player s) \<and> 1 < hp s \<longrightarrow>
      bulletsLoop dt (bpre @ b # bpost) s =
        (False, sweep dt bpre s @ sweep dt bpost s,
         s\<lparr>hp := hp s - 1,
           player := (player s)\<lparr>invincible := True, invincibleTimer := 120\<rparr>\<rparr>)) \<and>
   (blackHoles s = pre @ h # post \<and> (\<forall>h' \<in> set pre. \<not> holeCollision h' (player s)) \<and>
    holeCollision h (player s) \<and> hp s \<le> 1 \<longrightarrow>
      update d1 d2 s =
        gameOver ((thrustPhase (dtOf s) s)
          \<lparr>player := pulls (dtOf s) (pre @ [h]) (player (thrustPhase (dtOf s) s)),
           hp := hp s - 1\<rparr>)) \<and>
   ((\<forall>h' \<in> set (blackHoles s). \<not> holeCollision h' (player s)) \<and>
    bullets (beforeBullets s) = bpre @ b # bpost \<and>
    (\<forall>b' \<in> set bpost. \<not> bulletCollision (moveBullet (dtOf s) b') (player (beforeBullets s))) \<and>
    bulletCollision (moveBullet (dtOf s) b) (player (beforeBullets s)) \<and> hp s \<le> 1 \<longrightarrow>
      update d1 d2 s =
        gameOver ((beforeBullets s)
          \<lparr>hp := hp s - 1, bullets := bpre @ sweep (dtOf s) bpost (beforeBullets s)\<rparr>))"
proof -
  have a: "invincible (player s) \<longrightarrow> takeDamage s = (False, s)"
    by (simp add: takeDamage_invincible)
  have b: "\<not> invincible (player s) \<longrightarrow> hp (snd (takeDamage s)) = hp s - 1"
    by (simp add: takeDamage_def Let_def)
  have c: "\<not> invincible (player s) \<and> hp s - 1 \<le> 0 \<longrightarrow> takeDamage s = (True, s\<lparr>hp := hp s - 1\<rparr>)"
    by (simp add: takeDamage_dead)
  have d: "\<not> invincible (player s) \<and> 0 < hp s - 1 \<longrightarrow>
      takeDamage s =
        (False, s\<lparr>hp := hp s - 1,
                  player := (player s)\<lparr>invincible := True, invincibleTimer := 120\<rparr>\<rparr>)"
    by (simp add: takeDamage_hurt)
  have e: "\<not> fst (takeDamage s) \<longrightarrow> takeDamage (snd (takeDamage s)) = (False, snd (takeDamage s))"
    by (simp add: takeDamage_twice)
  have f: "fst (tickBody s) \<longrightarrow>
      update d1 d2 s = snd (tickBody s) \<and> \<not> isRunning (update d1 d2 s) \<and>
      hp (update d1 d2 s) \<le> 0 \<and>
      spawnTimer (update d1 d2 s) = spawnTimer s \<and>
      difficultyTimer (update d1 d2 s) = difficultyTimer s \<and>
      level (update d1 d2 s) = level s \<and>
      mouseX (update d1 d2 s) = mouseX s \<and> mouseY (update d1 d2 s) = mouseY s \<and>
      mouseDown (update d1 d2 s) = mouseDown s"
    using update_dead [of s d1 d2] by (auto simp add: sched_def)
  have g: "\<not> isRunning s \<longrightarrow> gameLoop now d1 d2 s = s"
    by (simp add: gameLoop_def)
  have h: "(\<forall>h' \<in> set pre. \<not> holeCollision h' (player s)) \<and> holeCollision h (player s) \<and> hp s \<le> 1 \<longrightarrow>
      gravityLoop dt (pre @ h # post) s =
        (True, s\<lparr>player := pulls dt (pre @ [h]) (player s), hp := hp s - 1\<rparr>)"
    using gravityLoop_fatal [of pre s h dt post] by blast
  have i: "(\<forall>h' \<in> set pre. \<not> holeCollision h' (player s)) \<and> holeCollision h (player s) \<and> 1 < hp s \<longrightarrow>
      gravityLoop dt (pre @ h # post) s =
        (False, s\<lparr>hp := hp s - 1,
                  player := (pulls dt (pre @ h # post) (player s))
                    \<lparr>invincible := True, invincibleTimer := 120\<rparr>\<rparr>)"
    using gravityLoop_hurt [of pre s h dt post] unfolding shielded_def by blast
  have j: "(\<forall>b' \<in> set bpost. \<not> bulletCollision (moveBullet dt b') (player s)) \<and>
    bulletCollision (moveBullet dt b) (player s) \<and> hp s \<le> 1 \<longrightarrow>
      bulletsLoop dt (bpre @ b # bpost) s =
        (True, bpre @ sweep dt bpost s, s\<lparr>hp := hp s - 1\<rparr>)"
    using bulletsLoop_fatal [of bpost dt s b bpre] by blast
  have k: "(\<forall>b' \<in> set bpost. \<not> bulletCollision (moveBullet dt b') (player s)) \<and>
    bulletCollision (moveBullet dt b) (player s) \<and> 1 < hp s \<longrightarrow>
      bulletsLoop dt (bpre @ b # bpost) s =
        (False, sweep dt bpre s @ sweep dt bpost s,
         s\<lparr>hp := hp s - 1,
           player := (player s)\<lparr>invincible := True, invincibleTimer := 120\<rparr>\<rparr>)"
    using bulletsLoop_hurt [of bpost dt s b bpre] unfolding shielded_def by blast
  have l: "blackHoles s = pre @ h # post \<and> (\<forall>h' \<in> set pre. \<not> holeCollision h' (player s)) \<and>
    holeCollision h (player s) \<and> hp s \<le> 1 \<longrightarrow>
      update d1 d2 s =
        gameOver ((thrustPhase (dtOf s) s)
          \<lparr>player := pulls (dtOf s) (pre @ [h]) (player (thrustPhase (dtOf s) s)),
           hp := hp s - 1\<rparr>)"
    using update_hole_fatal [of s pre h post d1 d2] by blast
  have m: "(\<forall>h' \<in> set (blackHoles s). \<not> holeCollision h' (player s)) \<and>
    bullets (beforeBullets s) = bpre @ b # bpost \<and>
    (\<forall>b' \<in> set bpost. \<not> bulletCollision (moveBullet (dtOf s) b') (player (beforeBullets s))) \<and>
    bulletCollision (moveBullet (dtOf s) b) (player (beforeBullets s)) \<and> hp s \<le> 1 \<longrightarrow>
      update d1 d2 s =
        gameOver ((beforeBullets s)
          \<lparr>hp := hp s - 1, bullets := bpre @ sweep (dtOf s) bpost (beforeBullets s)\<rparr>)"
    using update_bullet_fatal [of s bpre b bpost d1 d2] by blast
  show ?thesis by (intro conjI a b c d e f g h i j k l m)
qed

lemma fatal_frame: "fst (tickBody fatal)"
  by (simp add: tickBody_def fatal_def demo_def resetRun_def constructed_def createPlayer_def
      holeAt_def dtOf_def thrustPhase_def Let_def n_sub_def n_gt_def n_min_def gravity_def
      holeDist_def holeCollision_def takeDamage_def)

theorem damage_procedure_witness:
  "invincible (player onHole) \<and> takeDamage onHole = (False, onHole) \<and>
   \<not> invincible (player demo) \<and> hp demo - 1 \<le> 0 \<and>
   takeDamage demo = (True, demo\<lparr>hp := hp demo - 1\<rparr>) \<and>
   \<not> invincible (player (demo\<lparr>hp := 3\<rparr>)) \<and> 0 < hp (demo\<lparr>hp := 3\<rparr>) - 1 \<and>
   \<not> fst (takeDamage (demo\<lparr>hp := 3\<rparr>)) \<and>
   hp (snd (takeDamage (demo\<lparr>hp := 3\<rparr>))) = 2 \<and>
   invincible (player (snd (takeDamage (demo\<lparr>hp := 3\<rparr>)))) \<and>
   invincibleTimer (player (snd (takeDamage (demo\<lparr>hp := 3\<rparr>)))) = 120 \<and>
   hp (snd (takeDamage (snd (takeDamage (demo\<lparr>hp := 3\<rparr>))))) = 2 \<and>
   fst (tickBody fatal) \<and> isRunning fatal \<and> \<not> isRunning (update 0 0 fatal) \<and>
   hp (update 0 0 fatal) \<le> 0 \<and>
   gameLoop 50 0 0 (update 0 0 fatal) = update 0 0 fatal \<and>
   blackHoles besieged = [holeAt 700 300, holeAt 420 300, holeAt 380 300] \<and>
   \<not> holeCollision (holeAt 700 300) (player besieged) \<and>
   holeCollision (holeAt 420 300) (player besieged) \<and>
   holeCollision (holeAt 380 300) (player besieged) \<and> hp besieged = 1 \<and>
   fst (gravityLoop 1 (blackHoles besieged) besieged) \<and>
   hp (snd (gravityLoop 1 (blackHoles besieged) besieged)) = 0 \<and>
   p_vx (player (snd (gravityLoop 1 (blackHoles besieged) besieged))) = Fin (9 / 20) \<and>
   \<not> fst (gravityLoop 1 (blackHoles besieged) (besieged\<lparr>hp := 3\<rparr>)) \<and>
   hp (snd (gravityLoop 1 (blackHoles besieged) (besieged\<lparr>hp := 3\<rparr>))) = 2 \<and>
   invincible (player (snd (gravityLoop 1 (blackHoles besieged) (besieged\<lparr>hp := 3\<rparr>)))) \<and>
   p_vx (player (snd (gravityLoop 1 (blackHoles besieged) (besieged\<lparr>hp := 3\<rparr>)))) = Fin 0 \<and>
   isRunning besieged \<and> \<not> isRunning (update 0 0 besieged) \<and> hp (update 0 0 besieged) = 0 \<and>
   p_vx (player (update 0 0 besieged)) = Fin (9 / 20) \<and>
   p_x (player (update 0 0 besieged)) = Fin 400 \<and>
   blackHoles (update 0 0 besieged) = blackHoles besieged \<and>
   bullets shot = [bulletAt 405, bulletAt 410, bulletAt 100] \<and> hp shot = 1 \<and>
   bulletCollision (moveBullet 1 (bulletAt 405)) (player shot) \<and>
   bulletCollision (moveBullet 1 (bulletAt 410)) (player shot) \<and>
   \<not> bulletCollision (moveBullet 1 (bulletAt 100)) (player shot) \<and>
   bulletsLoop 1 (bullets shot) shot =
     (True, [bulletAt 405, (bulletAt 100)\<lparr>b_x := Fin 101, life := 299\<rparr>], shot\<lparr>hp := 0\<rparr>) \<and>
   \<not> fst (bulletsLoop 1 (bullets shot) (shot\<lparr>hp := 3\<rparr>)) \<and>
   fst (snd (bulletsLoop 1 (bullets shot) (shot\<lparr>hp := 3\<rparr>))) =
     [(bulletAt 405)\<lparr>b_x := Fin 406, life := 299\<rparr>, (bulletAt 100)\<lparr>b_x := Fin 101, life := 299\<rparr>] \<and>
   hp (snd (snd (bulletsLoop 1 (bullets shot) (shot\<lparr>hp := 3\<rparr>)))) = 2 \<and>
   invincible (player (snd (snd (bulletsLoop 1 (bullets shot) (shot\<lparr>hp := 3\<rparr>))))) \<and>
   isRunning shot \<and> \<not> isRunning (update 0 0 shot) \<and> hp (update 0 0 shot) = 0 \<and>
   bullets (update 0 0 shot) = [bulletAt 405, (bulletAt 100)\<lparr>b_x := Fin 101, life := 299\<rparr>] \<and>
   spawnTimer (update 0 0 shot) = spawnTimer shot"
proof -
  let ?d3 = "demo\<lparr>hp := 3\<rparr>"
  let ?b3 = "besieged\<lparr>hp := 3\<rparr>"
  let ?s3 = "shot\<lparr>hp := 3\<rparr>"
  have i1: "invincible (player onHole)" by (simp add: onHole_def)
  have i2: "\<not> invincible (player demo)" "hp demo - 1 \<le> 0" "isRunning demo"
    by (simp_all add: demo_def resetRun_def constructed_def createPlayer_def)
  have i3: "\<not> invincible (player ?d3) \<and> 0 < hp ?d3 - 1"
    using i2(1) by simp
  have i4: "isRunning fatal" using i2(3) by (simp add: fatal_def)
  have t1: "takeDamage onHole = (False, onHole)"
    using damage_procedure [where s = onHole, THEN conjunct1] i1 by (rule mp)
  have t2: "takeDamage demo = (True, demo\<lparr>hp := hp demo - 1\<rparr>)"
    using damage_procedure [where s = demo, THEN conjunct2, THEN conjunct2, THEN conjunct1]
      conjI [OF i2(1) i2(2)] by (rule mp)
  have t3: "takeDamage ?d3 =
      (False, ?d3\<lparr>hp := hp ?d3 - 1,
                  player := (player ?d3)\<lparr>invincible := True, invincibleTimer := 120\<rparr>\<rparr>)"
    using damage_procedure [where s = ?d3, THEN conjunct2, THEN conjunct2, THEN conjunct2,
        THEN conjunct1] i3 by (rule mp)
  have f3: "\<not> fst (takeDamage ?d3)" unfolding t3 by simp
  have t3b: "takeDamage (snd (takeDamage ?d3)) = (False, snd (takeDamage ?d3))"
    using damage_procedure [where s = ?d3, THEN conjunct2, THEN conjunct2, THEN conjunct2,
        THEN conjunct2, THEN conjunct1] f3 by (rule mp)
  have h3: "hp (snd (takeDamage ?d3)) = 2" "invincible (player (snd (takeDamage ?d3)))"
    "invincibleTimer (player (snd (takeDamage ?d3))) = 120"
    unfolding t3 by simp_all
  have h3b: "hp (snd (takeDamage (snd (takeDamage ?d3)))) = 2" unfolding t3b by (simp add: h3)
  have t4: "update 0 0 fatal = snd (tickBody fatal) \<and> \<not> isRunning (update 0 0 fatal) \<and>
      hp (update 0 0 fatal) \<le> 0 \<and>
      spawnTimer (update 0 0 fatal) = spawnTimer fatal \<and>
      difficultyTimer (update 0 0 fatal) = difficultyTimer fatal \<and>
      level (update 0 0 fatal) = level fatal \<and>
      mouseX (update 0 0 fatal) = mouseX fatal \<and> mouseY (update 0 0 fatal) = mouseY fatal \<and>
      mouseDown (update 0 0 fatal) = mouseDown fatal"
    using damage_procedure [where s = fatal and ?d1.0 = 0 and ?d2.0 = 0, THEN conjunct2,
        THEN conjunct2, THEN conjunct2, THEN conjunct2, THEN conjunct2, THEN conjunct1]
      fatal_frame by (rule mp)
  have r4: "\<not> isRunning (update 0 0 fatal)" and h4: "hp (update 0 0 fatal) \<le> 0"
    using t4 by blast+
  have t5: "gameLoop 50 0 0 (update 0 0 fatal) = update 0 0 fatal"
    using damage_procedure [where s = "update 0 0 fatal" and ?d1.0 = 0 and ?d2.0 = 0 and now = 50,
        THEN conjunct2, THEN conjunct2, THEN conjunct2, THEN conjunct2, THEN conjunct2,
        THEN conjunct2, THEN conjunct1] r4 by (rule mp)
  have old: "invincible (player onHole) \<and> takeDamage onHole = (False, onHole) \<and>
   \<not> invincible (player demo) \<and> hp demo - 1 \<le> 0 \<and>
   takeDamage demo = (True, demo\<lparr>hp := hp demo - 1\<rparr>) \<and>
   \<not> invincible (player ?d3) \<and> 0 < hp ?d3 - 1 \<and>
   \<not> fst (takeDamage ?d3) \<and>
   hp (snd (takeDamage ?d3)) = 2 \<and>
   invincible (player (snd (takeDamage ?d3))) \<and>
   invincibleTimer (player (snd (takeDamage ?d3))) = 120 \<and>
   hp (snd (takeDamage (snd (takeDamage ?d3)))) = 2 \<and>
   fst (tickBody fatal) \<and> isRunning fatal \<and> \<not> isRunning (update 0 0 fatal) \<and>
   hp (update 0 0 fatal) \<le> 0 \<and>
   gameLoop 50 0 0 (update 0 0 fatal) = update 0 0 fatal"
    using i1 t1 i2(1) i2(2) t2 i3 f3 h3 h3b fatal_frame i4 r4 h4 t5 by blast
  have bh: "blackHoles besieged = [holeAt 700 300, holeAt 420 300, holeAt 380 300]"
    by (simp add: besieged_fields)
  have bc: "\<not> holeCollision (holeAt 700 300) (player besieged)"
    "holeCollision (holeAt 420 300) (player besieged)"
    "holeCollision (holeAt 380 300) (player besieged)" "hp besieged = 1"
    by (simp_all add: besieged_fields demo_holes)
  have g1h: "(\<forall>h' \<in> set [holeAt 700 300]. \<not> holeCollision h' (player besieged)) \<and>
      holeCollision (holeAt 420 300) (player besieged) \<and> hp besieged \<le> 1"
    using bc by simp
  have g1: "gravityLoop 1 ([holeAt 700 300] @ holeAt 420 300 # [holeAt 380 300]) besieged =
      (True, besieged\<lparr>player := pulls 1 ([holeAt 700 300] @ [holeAt 420 300]) (player besieged),
                      hp := hp besieged - 1\<rparr>)"
    using damage_procedure [where s = besieged and dt = 1 and pre = "[holeAt 700 300]"
        and h = "holeAt 420 300" and post = "[holeAt 380 300]",
        THEN conjunct2, THEN conjunct2, THEN conjunct2, THEN conjunct2, THEN conjunct2,
        THEN conjunct2, THEN conjunct2, THEN conjunct1] g1h by (rule mp)
  have g1r: "fst (gravityLoop 1 (blackHoles besieged) besieged)"
    "hp (snd (gravityLoop 1 (blackHoles besieged) besieged)) = 0"
    "p_vx (player (snd (gravityLoop 1 (blackHoles besieged) besieged))) = Fin (9 / 20)"
    unfolding besieged_fields(4) g1 by (simp_all add: besieged_fields demo_pulls)
  have g2h: "(\<forall>h' \<in> set [holeAt 700 300]. \<not> holeCollision h' (player ?b3)) \<and>
      holeCollision (holeAt 420 300) (player ?b3) \<and> 1 < hp ?b3"
    using bc by simp
  have g2: "gravityLoop 1 ([holeAt 700 300] @ holeAt 420 300 # [holeAt 380 300]) ?b3 =
      (False, ?b3\<lparr>hp := hp ?b3 - 1,
                  player := (pulls 1 ([holeAt 700 300] @ holeAt 420 300 # [holeAt 380 300]) (player ?b3))
                    \<lparr>invincible := True, invincibleTimer := 120\<rparr>\<rparr>)"
    using damage_procedure [where s = ?b3 and dt = 1 and pre = "[holeAt 700 300]"
        and h = "holeAt 420 300" and post = "[holeAt 380 300]",
        THEN conjunct2, THEN conjunct2, THEN conjunct2, THEN conjunct2, THEN conjunct2,
        THEN conjunct2, THEN conjunct2, THEN conjunct2, THEN conjunct1] g2h by (rule mp)
  have g2r: "\<not> fst (gravityLoop 1 (blackHoles besieged) ?b3)"
    "hp (snd (gravityLoop 1 (blackHoles besieged) ?b3)) = 2"
    "invincible (player (snd (gravityLoop 1 (blackHoles besieged) ?b3)))"
    "p_vx (player (snd (gravityLoop 1 (blackHoles besieged) ?b3))) = Fin 0"
    unfolding besieged_fields(4) g2 by (simp_all add: besieged_fields demo_pulls demo_at)
  have u1h: "blackHoles besieged = [holeAt 700 300] @ holeAt 420 300 # [holeAt 380 300] \<and>
      (\<forall>h' \<in> set [holeAt 700 300]. \<not> holeCollision h' (player besieged)) \<and>
      holeCollision (holeAt 420 300) (player besieged) \<and> hp besieged \<le> 1"
    using bc besieged_fields(4) by simp
  have u1: "update 0 0 besieged =
      gameOver ((thrustPhase (dtOf besieged) besieged)
        \<lparr>player := pulls (dtOf besieged) ([holeAt 700 300] @ [holeAt 420 300])
                     (player (thrustPhase (dtOf besieged) besieged)),
         hp := hp besieged - 1\<rparr>)"
    using damage_procedure [where s = besieged and ?d1.0 = 0 and ?d2.0 = 0
        and pre = "[holeAt 700 300]" and h = "holeAt 420 300" and post = "[holeAt 380 300]",
        THEN conjunct2, THEN conjunct2, THEN conjunct2, THEN conjunct2, THEN conjunct2,
        THEN conjunct2, THEN conjunct2, THEN conjunct2, THEN conjunct2, THEN conjunct2,
        THEN conjunct2, THEN conjunct1] u1h by (rule mp)
  have u1r: "\<not> isRunning (update 0 0 besieged)" "hp (update 0 0 besieged) = 0"
    "p_vx (player (update 0 0 besieged)) = Fin (9 / 20)"
    "p_x (player (update 0 0 besieged)) = Fin 400"
    "blackHoles (update 0 0 besieged) = blackHoles besieged"
    unfolding u1
    by (simp_all add: gameOver_def besieged_fields besieged_thrust demo_pulls demo_at
        thrustPhase_holes)
  have rb: "isRunning besieged" using i2(3) by (simp add: besieged_def)
  have sb: "bullets shot = [bulletAt 405, bulletAt 410, bulletAt 100]" "hp shot = 1"
    "bulletCollision (moveBullet 1 (bulletAt 405)) (player shot)"
    "bulletCollision (moveBullet 1 (bulletAt 410)) (player shot)"
    "\<not> bulletCollision (moveBullet 1 (bulletAt 100)) (player shot)"
    by (simp_all add: shot_fields demo_bullets)
  have b1h: "(\<forall>b' \<in> set [bulletAt 100]. \<not> bulletCollision (moveBullet 1 b') (player shot)) \<and>
      bulletCollision (moveBullet 1 (bulletAt 410)) (player shot) \<and> hp shot \<le> 1"
    using sb by simp
  have b1: "bulletsLoop 1 ([bulletAt 405] @ bulletAt 410 # [bulletAt 100]) shot =
      (True, [bulletAt 405] @ sweep 1 [bulletAt 100] shot, shot\<lparr>hp := hp shot - 1\<rparr>)"
    using damage_procedure [where s = shot and dt = 1 and bpre = "[bulletAt 405]"
        and b = "bulletAt 410" and bpost = "[bulletAt 100]",
        THEN conjunct2, THEN conjunct2, THEN conjunct2, THEN conjunct2, THEN conjunct2,
        THEN conjunct2, THEN conjunct2, THEN conjunct2, THEN conjunct2, THEN conjunct1]
      b1h by (rule mp)
  have b1r: "bulletsLoop 1 (bullets shot) shot =
     (True, [bulletAt 405, (bulletAt 100)\<lparr>b_x := Fin 101, life := 299\<rparr>], shot\<lparr>hp := 0\<rparr>)"
    unfolding shot_fields(5) b1 by (simp add: shot_fields shot_sweep)
  have b2h: "(\<forall>b' \<in> set [bulletAt 100]. \<not> bulletCollision (moveBullet 1 b') (player ?s3)) \<and>
      bulletCollision (moveBullet 1 (bulletAt 410)) (player ?s3) \<and> 1 < hp ?s3"
    using sb by simp
  have b2: "bulletsLoop 1 ([bulletAt 405] @ bulletAt 410 # [bulletAt 100]) ?s3 =
      (False, sweep 1 [bulletAt 405] ?s3 @ sweep 1 [bulletAt 100] ?s3,
       ?s3\<lparr>hp := hp ?s3 - 1,
           player := (player ?s3)\<lparr>invincible := True, invincibleTimer := 120\<rparr>\<rparr>)"
    using damage_procedure [where s = ?s3 and dt = 1 and bpre = "[bulletAt 405]"
        and b = "bulletAt 410" and bpost = "[bulletAt 100]",
        THEN conjunct2, THEN conjunct2, THEN conjunct2, THEN conjunct2, THEN conjunct2,
        THEN conjunct2, THEN conjunct2, THEN conjunct2, THEN conjunct2, THEN conjunct2,
        THEN conjunct1]
      b2h by (rule mp)
  have b2r: "\<not> fst (bulletsLoop 1 (bullets shot) ?s3)"
    "fst (snd (bulletsLoop 1 (bullets shot) ?s3)) =
       [(bulletAt 405)\<lparr>b_x := Fin 406, life := 299\<rparr>, (bulletAt 100)\<lparr>b_x := Fin 101, life := 299\<rparr>]"
    "hp (snd (snd (bulletsLoop 1 (bullets shot) ?s3))) = 2"
    "invincible (player (snd (snd (bulletsLoop 1 (bullets shot) ?s3))))"
    unfolding shot_fields(5) b2 by (simp_all add: shot_fields shot_sweep)
  have u2h: "(\<forall>h' \<in> set (blackHoles shot). \<not> holeCollision h' (player shot)) \<and>
      bullets (beforeBullets shot) = [bulletAt 405] @ bulletAt 410 # [bulletAt 100] \<and>
      (\<forall>b' \<in> set [bulletAt 100].
          \<not> bulletCollision (moveBullet (dtOf shot) b') (player (beforeBullets shot))) \<and>
      bulletCollision (moveBullet (dtOf shot) (bulletAt 410)) (player (beforeBullets shot)) \<and>
      hp shot \<le> 1"
    by (simp add: shot_fields shot_before demo_bullets)
  have u2: "update 0 0 shot =
      gameOver ((beforeBullets shot)
        \<lparr>hp := hp shot - 1,
         bullets := [bulletAt 405] @ sweep (dtOf shot) [bulletAt 100] (beforeBullets shot)\<rparr>)"
    using damage_procedure [where s = shot and ?d1.0 = 0 and ?d2.0 = 0
        and bpre = "[bulletAt 405]" and b = "bulletAt 410" and bpost = "[bulletAt 100]",
        THEN conjunct2, THEN conjunct2, THEN conjunct2, THEN conjunct2, THEN conjunct2,
        THEN conjunct2, THEN conjunct2, THEN conjunct2, THEN conjunct2, THEN conjunct2,
        THEN conjunct2, THEN conjunct2] u2h by (rule mp)
  have u2r: "\<not> isRunning (update 0 0 shot)" "hp (update 0 0 shot) = 0"
    "bullets (update 0 0 shot) = [bulletAt 405, (bulletAt 100)\<lparr>b_x := Fin 101, life := 299\<rparr>]"
    unfolding u2 by (simp_all add: gameOver_def shot_fields shot_sweep shot_before)
  have rs: "isRunning shot" using i2(3) by (simp add: shot_def)
  have u2s: "spawnTimer (update 0 0 shot) = spawnTimer shot"
    unfolding u2 using beforeBullets_sched [of shot] by (simp add: sched_def gameOver_def)
  show ?thesis
    using old bh bc g1r g2r rb u1r sb b1r b2r rs u2r u2s by blast
qed

subsection \<open>Bounds and monotonicity over a run\<close>

lemma startGame_inv: "t0 \<le> now \<Longrightarrow> runInv (startGame t0 now d1 d2 s0)"
  using gameLoop_inv [of "resetRun t0 s0" now d1 d2] by (simp add: startGame_def resetRun_inv)

lemma started_eval:
  "lastTime started = 10 \<and> isRunning started \<and> \<not> isPaused started \<and> score started = 0 \<and>
   multiplier started = 1 \<and> hp started = 1 \<and> maxHP started = 1"
  by (simp add: started_def startGame_def gameLoop_def beginFrame_def update_def
      tickBody_def resetRun_def constructed_def createPlayer_def dtOf_def thrustPhase_def Let_def
      n_sub_def n_gt_def n_min_def movePhase_def spawnPhase_def difficultyPhase_def
      mathRandom_def updateBot_def)

text \<open>
  Claim C4. Start a game and let any sequence of events follow (frames, pointer and
  keyboard input, pause, resume, menu, restart), with a clock that does not run backwards.
  After every one of them, so after every frame of physics, collisions and collection
  effects, the energy is in [0, 100], the hit points are in [0, maxHP] and the multiplier
  is in [1, 10].
\<close>

theorem run_bounds:
  assumes "t0 \<le> now" and "timelyRun es (startGame t0 now d1 d2 s0)"
  shows "0 \<le> energy (run es (startGame t0 now d1 d2 s0)) \<and>
         energy (run es (startGame t0 now d1 d2 s0)) \<le> 100 \<and>
         0 \<le> hp (run es (startGame t0 now d1 d2 s0)) \<and>
         hp (run es (startGame t0 now d1 d2 s0)) \<le> maxHP (run es (startGame t0 now d1 d2 s0)) \<and>
         1 \<le> multiplier (run es (startGame t0 now d1 d2 s0)) \<and>
         multiplier (run es (startGame t0 now d1 d2 s0)) \<le> 10"
proof -
  have "runInv (run es (startGame t0 now d1 d2 s0))"
    using startGame_inv [OF assms(1)] assms(2) by (rule run_inv)
  then show ?thesis by (simp add: runInv_def sane_def)
qed

theorem run_bounds_witness:
  "(0::real) \<le> 10 \<and> timelyRun [MouseDown, Frame 26 0 0] started \<and>
   0 \<le> energy (run [MouseDown, Frame 26 0 0] started) \<and>
   energy (run [MouseDown, Frame 26 0 0] started) \<le> 100 \<and>
   0 \<le> hp (run [MouseDown, Frame 26 0 0] started) \<and>
   hp (run [MouseDown, Frame 26 0 0] started) \<le> maxHP (run [MouseDown, Frame 26 0 0] started) \<and>
   1 \<le> multiplier (run [MouseDown, Frame 26 0 0] started) \<and>
   multiplier (run [MouseDown, Frame 26 0 0] started) \<le> 10"
proof -
  have t0: "(0::real) \<le> 10" by simp
  have t: "timelyRun [MouseDown, Frame 26 0 0] started" using started_eval by simp
  show ?thesis
    using t0 t run_bounds [OF t0 t [unfolded started_def]] unfolding started_def by blast
qed

text \<open>
  Claim C10. From any point of such a sequence on, as long as no new game is started, the
  score and the multiplier never go down, whatever the frames and the other events do. A
  start sets them to 0 and 1, and the first frame of the new run cannot lower them.
\<close>

theorem run_monotone:
  assumes "t0 \<le> now" and "timelyRun (es1 @ es2) (startGame t0 now d1 d2 s0)"
    and "list_all (\<lambda>e. \<not> isStart e) es2"
  shows "score (run es1 (startGame t0 now d1 d2 s0)) \<le> score (run (es1 @ es2) (startGame t0 now d1 d2 s0)) \<and>
         multiplier (run es1 (startGame t0 now d1 d2 s0)) \<le>
           multiplier (run (es1 @ es2) (startGame t0 now d1 d2 s0)) \<and>
         score (resetRun t0 s0) = 0 \<and> multiplier (resetRun t0 s0) = 1 \<and>
         0 \<le> score (startGame t0 now d1 d2 s0) \<and> 1 \<le> multiplier (startGame t0 now d1 d2 s0)"
proof -
  let ?S = "startGame t0 now d1 d2 s0"
  have t: "timelyRun es1 ?S" "timelyRun es2 (run es1 ?S)"
    using assms(2) by (simp_all add: timelyRun_append)
  have i: "runInv (run es1 ?S)" using startGame_inv [OF assms(1)] t(1) by (rule run_inv)
  have m: "score (run es1 ?S) \<le> score (run es2 (run es1 ?S)) \<and>
           multiplier (run es1 ?S) \<le> multiplier (run es2 (run es1 ?S))"
    using i t(2) assms(3) by (rule run_mono)
  have r: "0 \<le> score ?S \<and> 1 \<le> multiplier ?S"
    using gameLoop_inv [of "resetRun t0 s0" now d1 d2] assms(1)
    by (simp add: startGame_def resetRun_inv)
  show ?thesis using m r by (simp add: run_append resetRun_inv)
qed

theorem run_monotone_witness:
  "(0::real) \<le> 10 \<and> timelyRun ([MouseDown] @ [Frame 26 0 0]) started \<and>
   list_all (\<lambda>e. \<not> isStart e) [Frame 26 0 0] \<and>
   score (run [MouseDown] started) \<le> score (run ([MouseDown] @ [Frame 26 0 0]) started) \<and>
   multiplier (run [MouseDown] started) \<le> multiplier (run ([MouseDown] @ [Frame 26 0 0]) started)"
proof -
  have t0: "(0::real) \<le> 10" by simp
  have t: "timelyRun ([MouseDown] @ [Frame 26 0 0]) started" using started_eval by simp
  have n: "list_all (\<lambda>e. \<not> isStart e) [Frame 26 0 0]" by simp
  show ?thesis
    using t0 t n run_monotone [OF t0 t [unfolded started_def] n] unfolding started_def by blast
qed

subsection \<open>The pilot in the frame\<close>

lemma thrustPhase_bot: "thrustPhase dt (s\<lparr>botEnabled := b\<rparr>) = (thrustPhase dt s)\<lparr>botEnabled := b\<rparr>"
  by (simp add: thrustPhase_def Let_def split_beta)

lemma takeDamage_bot:
  "takeDamage (s\<lparr>botEnabled := b\<rparr>) = (fst (takeDamage s), (snd (takeDamage s))\<lparr>botEnabled := b\<rparr>)"
  by (simp add: takeDamage_def Let_def)

lemma gameOver_bot: "gameOver (s\<lparr>botEnabled := b\<rparr>) = (gameOver s)\<lparr>botEnabled := b\<rparr>"
  by (simp add: gameOver_def)

lemma movePhase_bot: "movePhase dt (s\<lparr>botEnabled := b\<rparr>) = (movePhase dt s)\<lparr>botEnabled := b\<rparr>"
  by (simp add: movePhase_def Let_def split_beta)

lemma collectItem_bot: "collectItem t (s\<lparr>botEnabled := b\<rparr>) = (collectItem t s)\<lparr>botEnabled := b\<rparr>"
  by (cases t) (simp_all add: Let_def split_beta mathRandom_def addCoins_def)

lemma spawnBullet_bot: "spawnBullet h (s\<lparr>botEnabled := b\<rparr>) = (spawnBullet h s)\<lparr>botEnabled := b\<rparr>"
  by (simp add: spawnBullet_def Let_def)

lemma spawnCollectible_bot:
  "spawnCollectible (s\<lparr>botEnabled := b\<rparr>) = (spawnCollectible s)\<lparr>botEnabled := b\<rparr>"
  by (simp add: spawnCollectible_def Let_def split_beta mathRandom_def)

lemma samplePoint_bot:
  "samplePoint (s\<lparr>botEnabled := b\<rparr>) =
     (fst (samplePoint s), fst (snd (samplePoint s)), (snd (snd (samplePoint s)))\<lparr>botEnabled := b\<rparr>)"
  by (simp add: samplePoint_def Let_def split_beta mathRandom_def)

lemma difficultyPhase_bot:
  "difficultyPhase (s\<lparr>botEnabled := b\<rparr>) = (difficultyPhase s)\<lparr>botEnabled := b\<rparr>"
  by (simp add: difficultyPhase_def)

lemma bot_comm:
  "s\<lparr>botEnabled := b, player := p\<rparr> = s\<lparr>player := p, botEnabled := b\<rparr>"
  "s\<lparr>botEnabled := b, spawnTimer := t1\<rparr> = s\<lparr>spawnTimer := t1, botEnabled := b\<rparr>"
  "s\<lparr>botEnabled := b, difficultyTimer := t2\<rparr> = s\<lparr>difficultyTimer := t2, botEnabled := b\<rparr>"
  "s\<lparr>botEnabled := b, collectibles := cs\<rparr> = s\<lparr>collectibles := cs, botEnabled := b\<rparr>"
  "s\<lparr>botEnabled := b, blackHoles := hs\<rparr> = s\<lparr>blackHoles := hs, botEnabled := b\<rparr>"
  "s\<lparr>botEnabled := b, bullets := bs\<rparr> = s\<lparr>bullets := bs, botEnabled := b\<rparr>"
  "s\<lparr>botEnabled := b, rpos := n\<rparr> = s\<lparr>rpos := n, botEnabled := b\<rparr>"
  by simp_all

lemma mathRandom_bot:
  "mathRandom (s\<lparr>botEnabled := b\<rparr>) = (fst (mathRandom s), (snd (mathRandom s))\<lparr>botEnabled := b\<rparr>)"
  by (simp add: mathRandom_def)

lemma placeHole_bot:
  "placeHole k (s\<lparr>botEnabled := b\<rparr>) =
     (fst (placeHole k s), fst (snd (placeHole k s)), (snd (snd (placeHole k s)))\<lparr>botEnabled := b\<rparr>)"
proof (induction k arbitrary: s)
  case 0
  show ?case by (simp add: samplePoint_bot)
next
  case (Suc k)
  obtain x y s2 where sp: "samplePoint s = (x, y, s2)" by (cases "samplePoint s") auto
  show ?case using Suc [of s2] by (simp add: samplePoint_bot sp Let_def)
qed

lemma gravityLoop_bot:
  "gravityLoop dt hs (s\<lparr>botEnabled := b\<rparr>) =
     (fst (gravityLoop dt hs s), (snd (gravityLoop dt hs s))\<lparr>botEnabled := b\<rparr>)"
proof (induction hs arbitrary: s)
  case Nil
  show ?case by simp
next
  case (Cons hole rest)
  let ?s1 = "s\<lparr>player := gravity dt hole (player s)\<rparr>"
  obtain d s2 where td: "takeDamage ?s1 = (d, s2)" by (cases "takeDamage ?s1") auto
  show ?case
    by (cases d) (simp_all add: Let_def bot_comm takeDamage_bot td Cons.IH)
qed

lemma spawnBlackHole_bot:
  "spawnBlackHole (s\<lparr>botEnabled := b\<rparr>) = (spawnBlackHole s)\<lparr>botEnabled := b\<rparr>"
proof -
  obtain x y s1 where ph: "placeHole 49 s = (x, y, s1)" by (cases "placeHole 49 s") auto
  show ?thesis
    by (simp add: spawnBlackHole_def placeHole_bot ph Let_def split_beta mathRandom_def)
qed

lemma spawnPhase_bot:
  "spawnPhase dt (s\<lparr>botEnabled := b\<rparr>) = (spawnPhase dt s)\<lparr>botEnabled := b\<rparr>"
  unfolding spawnPhase_def Let_def
  by (simp add: split_beta bot_comm mathRandom_bot spawnCollectible_bot spawnBlackHole_bot)

lemma collectiblesLoop_bot:
  "collectiblesLoop dt cs (s\<lparr>botEnabled := b\<rparr>) =
     (fst (collectiblesLoop dt cs s), (snd (collectiblesLoop dt cs s))\<lparr>botEnabled := b\<rparr>)"
proof (induction cs)
  case Nil
  show ?case by simp
next
  case (Cons c cs)
  obtain k1 s1 where r: "collectiblesLoop dt cs s = (k1, s1)"
    by (cases "collectiblesLoop dt cs s") auto
  show ?case using Cons.IH by (simp add: r Let_def collectItem_bot)
qed

lemma holesLoop_bot:
  "holesLoop dt hs (s\<lparr>botEnabled := b\<rparr>) =
     (fst (holesLoop dt hs s), (snd (holesLoop dt hs s))\<lparr>botEnabled := b\<rparr>)"
proof (induction hs)
  case Nil
  show ?case by simp
next
  case (Cons h hs)
  obtain k1 s1 where r: "holesLoop dt hs s = (k1, s1)" by (cases "holesLoop dt hs s") auto
  show ?case using Cons.IH
    by (simp add: r Let_def split_beta mathRandom_bot spawnBullet_bot)
qed

lemma bulletsLoop_bot:
  "bulletsLoop dt bs (s\<lparr>botEnabled := b\<rparr>) =
     (fst (bulletsLoop dt bs s), fst (snd (bulletsLoop dt bs s)),
      (snd (snd (bulletsLoop dt bs s)))\<lparr>botEnabled := b\<rparr>)"
proof (induction bs)
  case Nil
  show ?case by simp
next
  case (Cons bl bs)
  obtain d1 k1 s1 where r: "bulletsLoop dt bs s = (d1, k1, s1)"
    by (cases "bulletsLoop dt bs s") auto
  obtain d s2 where td: "takeDamage s1 = (d, s2)" by (cases "takeDamage s1") auto
  show ?case using Cons.IH
    by (cases d1) (simp_all add: r td Let_def takeDamage_bot bulletExpired_def)
qed

lemma tickBody_bot:
  "tickBody (s\<lparr>botEnabled := b\<rparr>) = (fst (tickBody s), (snd (tickBody s))\<lparr>botEnabled := b\<rparr>)"
proof -
  let ?dt = "dtOf s"
  have dt: "dtOf (s\<lparr>botEnabled := b\<rparr>) = ?dt" by (simp add: dtOf_def)
  obtain g s2 where g: "gravityLoop ?dt (blackHoles s) (thrustPhase ?dt s) = (g, s2)"
    by (cases "gravityLoop ?dt (blackHoles s) (thrustPhase ?dt s)") auto
  let ?s3 = "movePhase ?dt s2"
  obtain keptC s4 where c: "collectiblesLoop ?dt (collectibles ?s3) ?s3 = (keptC, s4)"
    by (cases "collectiblesLoop ?dt (collectibles ?s3) ?s3") auto
  let ?s5 = "s4\<lparr>collectibles := keptC\<rparr>"
  obtain keptH s6 where h: "holesLoop ?dt (blackHoles s4) ?s5 = (keptH, s6)"
    by (cases "holesLoop ?dt (blackHoles s4) ?s5") auto
  let ?s7 = "s6\<lparr>blackHoles := keptH\<rparr>"
  obtain bd keptB s8 where bl: "bulletsLoop ?dt (bullets s6) ?s7 = (bd, keptB, s8)"
    by (cases "bulletsLoop ?dt (bullets s6) ?s7") auto
  have lhs: "tickBody s =
     (if g then (True, gameOver s2)
      else if bd then (True, gameOver (s8\<lparr>bullets := keptB\<rparr>))
      else (False, difficultyPhase (spawnPhase ?dt (s8\<lparr>bullets := keptB\<rparr>))))"
    by (simp add: tickBody_def Let_def thrustPhase_holes g c h bl)
  have rhs: "tickBody (s\<lparr>botEnabled := b\<rparr>) =
     (if g then (True, (gameOver s2)\<lparr>botEnabled := b\<rparr>)
      else if bd then (True, (gameOver (s8\<lparr>bullets := keptB\<rparr>))\<lparr>botEnabled := b\<rparr>)
      else (False, (difficultyPhase (spawnPhase ?dt (s8\<lparr>bullets := keptB\<rparr>)))\<lparr>botEnabled := b\<rparr>))"
    by (simp add: tickBody_def Let_def dt thrustPhase_bot thrustPhase_holes gravityLoop_bot g
        movePhase_bot collectiblesLoop_bot c bot_comm holesLoop_bot h bulletsLoop_bot bl
        gameOver_bot spawnPhase_bot difficultyPhase_bot)
  show ?thesis unfolding lhs rhs by simp
qed

lemma dist2_axis2 [simp]: "dist2 (Fin 0) (Fin b) = Fin \<bar>b\<bar>"
  by (simp add: dist2_def)

lemma n_hypot_axis [simp]: "n_hypot (Fin a) (Fin 0) = Fin \<bar>a\<bar>"
  by (simp add: n_hypot_def)

lemma piloted_pilot:
  "mouseX (updateBot 0 0 piloted) = Fin 700 \<and> mouseY (updateBot 0 0 piloted) = Fin 300 \<and>
   mouseDown (updateBot 0 0 piloted)"
  by (simp add: updateBot_def piloted_def demo_def resetRun_def constructed_def
      createPlayer_def Let_def bestOf_def evasion_def typeBonus_def n_sub_def n_gt_def
      n_min_def n_max_def)

lemma piloted_frame:
  "\<not> fst (tickBody piloted) \<and> p_vx (player (update 0 0 piloted)) = Fin (- 1.02) \<and>
   p_vy (player (update 0 0 piloted)) = Fin 0 \<and> \<not> boosting (player (update 0 0 piloted))"
  by (simp add: update_def updateBot_player tickBody_def piloted_def demo_def resetRun_def constructed_def
      createPlayer_def dtOf_def thrustPhase_def Let_def n_sub_def n_gt_def n_min_def
      movePhase_def spawnPhase_def difficultyPhase_def mathRandom_def split: prod.splits)

lemma piloted_updateBot:
  "updateBot 0 0 piloted = piloted\<lparr>mouseX := Fin 700, mouseY := Fin 300, mouseDown := True\<rparr>"
  by (simp add: updateBot_def piloted_def demo_def resetRun_def constructed_def
      createPlayer_def Let_def bestOf_def evasion_def typeBonus_def n_sub_def n_gt_def
      n_min_def n_max_def)

lemma piloted_first:
  "p_vx (player (update 0 0 (updateBot 0 0 piloted))) = Fin 2.55 \<and>
   boosting (player (update 0 0 (updateBot 0 0 piloted)))"
  unfolding piloted_updateBot
  by (simp add: update_def updateBot_player tickBody_def piloted_def demo_def resetRun_def constructed_def
      createPlayer_def dtOf_def thrustPhase_def Let_def n_sub_def n_gt_def n_min_def
      movePhase_def spawnPhase_def difficultyPhase_def mathRandom_def split: prod.splits)

text \<open>
  Claim C6, as the code has it. \<open>update\<close> calls the pilot last, after the integrator,
  the collisions, the spawning and the difficulty step, and not at all in a frame that
  ends with the game over. So the integrator of a frame reads the target and the engage
  flag as they stand when the frame starts, and what it does to the player and to the
  energy is the same with the pilot on or off; the target and flag the pilot produces in a
  frame are computed from the state after that frame's physics and are read by the next
  frame.
\<close>

theorem pilot_runs_last:
  "player (update d1 d2 (s\<lparr>botEnabled := True\<rparr>)) = player (update d1 d2 (s\<lparr>botEnabled := False\<rparr>)) \<and>
   energy (update d1 d2 (s\<lparr>botEnabled := True\<rparr>)) = energy (update d1 d2 (s\<lparr>botEnabled := False\<rparr>)) \<and>
   (\<not> fst (tickBody s) \<longrightarrow> update d1 d2 s = updateBot d1 d2 (snd (tickBody s))) \<and>
   (\<not> fst (tickBody s) \<longrightarrow> botEnabled (snd (tickBody s)) = botEnabled s) \<and>
   (fst (tickBody s) \<longrightarrow>
      mouseX (update d1 d2 s) = mouseX s \<and> mouseY (update d1 d2 s) = mouseY s \<and>
      mouseDown (update d1 d2 s) = mouseDown s)"
proof -
  obtain dead s' where t: "tickBody s = (dead, s')" by (cases "tickBody s") auto
  have u: "\<And>b. player (update d1 d2 (s\<lparr>botEnabled := b\<rparr>)) = player s' \<and>
                energy (update d1 d2 (s\<lparr>botEnabled := b\<rparr>)) = energy s'"
    using vitalsD [OF updateBot_vitals]
    by (cases dead) (simp_all add: update_def tickBody_bot t updateBot_player)
  have a: "\<not> fst (tickBody s) \<longrightarrow> update d1 d2 s = updateBot d1 d2 (snd (tickBody s))"
    by (simp add: update_def t)
  have e: "tickBody s = (fst (tickBody s), (snd (tickBody s))\<lparr>botEnabled := botEnabled s\<rparr>)"
    using tickBody_bot [where s = s and b = "botEnabled s"] by simp
  have e2: "snd (tickBody s) = (snd (tickBody s))\<lparr>botEnabled := botEnabled s\<rparr>"
    using e by (metis snd_conv)
  have "botEnabled (snd (tickBody s)) =
        botEnabled ((snd (tickBody s))\<lparr>botEnabled := botEnabled s\<rparr>)"
    using e2 by (rule arg_cong)
  then have b: "\<not> fst (tickBody s) \<longrightarrow> botEnabled (snd (tickBody s)) = botEnabled s"
    by simp
  have c: "fst (tickBody s) \<longrightarrow>
      mouseX (update d1 d2 s) = mouseX s \<and> mouseY (update d1 d2 s) = mouseY s \<and>
      mouseDown (update d1 d2 s) = mouseDown s"
    using update_dead [of s d1 d2] by (auto simp add: sched_def)
  show ?thesis using u [of True] u [of False] a b c by simp
qed

theorem pilot_runs_last_witness:
  "\<not> fst (tickBody piloted) \<and> update 0 0 piloted = updateBot 0 0 (snd (tickBody piloted)) \<and>
   botEnabled (snd (tickBody piloted)) \<and>
   fst (tickBody fatal) \<and> mouseX (update 0 0 fatal) = mouseX fatal \<and>
   mouseY (update 0 0 fatal) = mouseY fatal \<and> mouseDown (update 0 0 fatal) = mouseDown fatal"
proof -
  have nf: "\<not> fst (tickBody piloted)" using piloted_frame by simp
  have b: "botEnabled piloted" by (simp add: piloted_def)
  note w1 = pilot_runs_last [of 0 0 piloted]
  note w2 = pilot_runs_last [of 0 0 fatal]
  have a1: "update 0 0 piloted = updateBot 0 0 (snd (tickBody piloted))"
    using w1 [THEN conjunct2, THEN conjunct2, THEN conjunct1] nf by (rule mp)
  have a2: "botEnabled (snd (tickBody piloted)) = botEnabled piloted"
    using w1 [THEN conjunct2, THEN conjunct2, THEN conjunct2, THEN conjunct1] nf by (rule mp)
  have a3: "mouseX (update 0 0 fatal) = mouseX fatal \<and>
      mouseY (update 0 0 fatal) = mouseY fatal \<and> mouseDown (update 0 0 fatal) = mouseDown fatal"
    using w2 [THEN conjunct2, THEN conjunct2, THEN conjunct2, THEN conjunct2] fatal_frame
    by (rule mp)
  show ?thesis using nf a1 a2 b fatal_frame a3 by blast
qed

text \<open>
  The claim as stated fails. In \<open>piloted\<close> the pilot's output for the frame is the
  target (700, 300) with the engage flag set, but the integrator of that frame follows
  the target left from before: the player accelerates to the left, without boost. Had the
  integrator read the pilot's output of the same frame, the player would boost to the
  right.
\<close>

theorem pilot_first_counterexample:
  "botEnabled piloted \<and> \<not> fst (tickBody piloted) \<and>
   mouseX (updateBot 0 0 piloted) = Fin 700 \<and> mouseY (updateBot 0 0 piloted) = Fin 300 \<and>
   mouseDown (updateBot 0 0 piloted) \<and>
   p_vx (player (update 0 0 piloted)) = Fin (- 1.02) \<and>
   \<not> boosting (player (update 0 0 piloted)) \<and>
   p_vx (player (update 0 0 (updateBot 0 0 piloted))) = Fin 2.55 \<and>
   boosting (player (update 0 0 (updateBot 0 0 piloted))) \<and>
   player (update 0 0 piloted) \<noteq> player (update 0 0 (updateBot 0 0 piloted))"
proof -
  have b: "botEnabled piloted" by (simp add: piloted_def)
  have ne: "player (update 0 0 piloted) \<noteq> player (update 0 0 (updateBot 0 0 piloted))"
  proof
    assume "player (update 0 0 piloted) = player (update 0 0 (updateBot 0 0 piloted))"
    then have "boosting (player (update 0 0 piloted)) =
               boosting (player (update 0 0 (updateBot 0 0 piloted)))" by simp
    with piloted_frame piloted_first show False by simp
  qed
  show ?thesis using b piloted_frame piloted_pilot piloted_first ne by simp
qed

subsection \<open>The decision of the pilot\<close>

lemma evadeHoles_flag:
  "evadeHoles p hs (x, y, d) = (x', y', d') \<Longrightarrow> \<not> d' \<Longrightarrow> x' = x \<and> y' = y \<and> \<not> d"
proof (induction hs arbitrary: x y d)
  case Nil
  then show ?case by simp
next
  case (Cons hole rest)
  show ?case
  proof (cases "n_lt (dist2 (n_sub (p_x p) (Fin (h_x hole))) (n_sub (p_y p) (Fin (h_y hole))))
                  (Fin (pullRadius hole * 0.8))")
    case True
    with Cons.prems(1) obtain a b where "evadeHoles p rest (a, b, True) = (x', y', d')"
      by (simp add: Let_def)
    from Cons.IH [OF this Cons.prems(2)] show ?thesis by simp
  next
    case False
    with Cons.prems(1) have "evadeHoles p rest (x, y, d) = (x', y', d')" by (simp add: Let_def)
    from Cons.IH [OF this Cons.prems(2)] show ?thesis .
  qed
qed

lemma evadeBullets_flag:
  "evadeBullets p bs (x, y, d) = (x', y', d') \<Longrightarrow> \<not> d' \<Longrightarrow> x' = x \<and> y' = y \<and> \<not> d"
proof (induction bs arbitrary: x y d)
  case Nil
  then show ?case by simp
next
  case (Cons bl rest)
  show ?case
  proof (cases "n_lt (dist2 (n_sub (p_x p) (b_x bl)) (n_sub (p_y p) (b_y bl))) (Fin 100)")
    case True
    with Cons.prems(1) obtain a b where "evadeBullets p rest (a, b, True) = (x', y', d')"
      by (simp add: Let_def)
    from Cons.IH [OF this Cons.prems(2)] show ?thesis by simp
  next
    case False
    with Cons.prems(1) have "evadeBullets p rest (x, y, d) = (x', y', d')" by (simp add: Let_def)
    from Cons.IH [OF this Cons.prems(2)] show ?thesis .
  qed
qed

lemma evasion_safe:
  assumes "evasion s = (ex, ey, False)"
  shows "ex = Fin 0 \<and> ey = Fin 0"
proof -
  obtain a b d where h: "evadeHoles (player s) (blackHoles s) (Fin 0, Fin 0, False) = (a, b, d)"
    by (cases "evadeHoles (player s) (blackHoles s) (Fin 0, Fin 0, False)") auto
  have e: "evadeBullets (player s) (bullets s) (a, b, d) = (ex, ey, False)"
    using assms h by (simp add: evasion_def)
  from evadeBullets_flag [OF e] have 1: "ex = a \<and> ey = b \<and> \<not> d" by simp
  with h have "evadeHoles (player s) (blackHoles s) (Fin 0, Fin 0, False) = (a, b, False)" by simp
  from evadeHoles_flag [OF this] 1 show ?thesis by simp
qed

lemma clamp_range:
  assumes "50 \<le> hi" and "n_max (Fin 50) (n_min (Fin hi) v) \<noteq> NaN"
  shows "\<exists>x. n_max (Fin 50) (n_min (Fin hi) v) = Fin x \<and> 50 \<le> x \<and> x \<le> hi"
  using assms by (cases v) (auto simp add: n_max_def n_min_def)

lemma dist2_pos:
  "a \<noteq> 0 \<or> b \<noteq> 0 \<Longrightarrow> n_gt (dist2 (Fin a) (Fin b)) (Fin 0)"
  by (simp add: dist2_Fin n_gt_def sum_squares_gt_zero_iff)

text \<open>
  Claim C7, as the code has it. The pilot branches on whether any threat is in range
  (\<open>inDanger\<close>), not on the evasion vector. With a threat in range the engage flag is
  \<open>energy > 20\<close>, and the target is the player's position plus 200 times the normalised
  evasion vector when the length of that vector is above 0; when it is not (threats that
  cancel, or a vector that is NaN) the target is left as it was. A finite evasion vector
  that is not zero always falls in the first case. With no threat in range and a best
  collectible, the target is its position and the flag is \<open>distance > 200\<close> and
  \<open>energy > 30\<close>. In every case the target is then clamped by
  \<open>max(50, min(size - 50, .))\<close>: on a canvas at least 100 wide and high a target that
  is a number lies at least 50 inside each edge.
\<close>

theorem pilot_decision:
  assumes "botEnabled s" and "evasion s = (ex, ey, inDanger)"
  shows
    "(inDanger \<and> n_gt (dist2 ex ey) (Fin 0) \<longrightarrow>
        mouseX (updateBot d1 d2 s) =
          n_max (Fin 50) (n_min (Fin (width s - 50))
            (n_add (p_x (player s)) (n_mul (n_div ex (dist2 ex ey)) (Fin 200)))) \<and>
        mouseY (updateBot d1 d2 s) =
          n_max (Fin 50) (n_min (Fin (height s - 50))
            (n_add (p_y (player s)) (n_mul (n_div ey (dist2 ex ey)) (Fin 200)))) \<and>
        mouseDown (updateBot d1 d2 s) = (energy s > 20)) \<and>
     (inDanger \<and> \<not> n_gt (dist2 ex ey) (Fin 0) \<longrightarrow>
        mouseX (updateBot d1 d2 s) = n_max (Fin 50) (n_min (Fin (width s - 50)) (mouseX s)) \<and>
        mouseY (updateBot d1 d2 s) = n_max (Fin 50) (n_min (Fin (height s - 50)) (mouseY s)) \<and>
        mouseDown (updateBot d1 d2 s) = (energy s > 20)) \<and>
     (\<forall>a b. ex = Fin a \<and> ey = Fin b \<and> (a \<noteq> 0 \<or> b \<noteq> 0) \<longrightarrow>
        inDanger \<and> n_gt (dist2 ex ey) (Fin 0)) \<and>
     (\<forall>c. \<not> inDanger \<and> bestOf s = Some c \<longrightarrow>
        mouseX (updateBot d1 d2 s) = n_max (Fin 50) (n_min (Fin (width s - 50)) (c_x c)) \<and>
        mouseY (updateBot d1 d2 s) = n_max (Fin 50) (n_min (Fin (height s - 50)) (c_y c)) \<and>
        mouseDown (updateBot d1 d2 s) =
          (n_gt (n_hypot (n_sub (c_x c) (p_x (player s))) (n_sub (c_y c) (p_y (player s))))
             (Fin 200) \<and> energy s > 30)) \<and>
     (100 \<le> width s \<and> mouseX (updateBot d1 d2 s) \<noteq> NaN \<longrightarrow>
        (\<exists>x. mouseX (updateBot d1 d2 s) = Fin x \<and> 50 \<le> x \<and> x \<le> width s - 50)) \<and>
     (100 \<le> height s \<and> mouseY (updateBot d1 d2 s) \<noteq> NaN \<longrightarrow>
        (\<exists>y. mouseY (updateBot d1 d2 s) = Fin y \<and> 50 \<le> y \<and> y \<le> height s - 50))"
proof -
  have a: "inDanger \<and> n_gt (dist2 ex ey) (Fin 0) \<longrightarrow>
        mouseX (updateBot d1 d2 s) =
          n_max (Fin 50) (n_min (Fin (width s - 50))
            (n_add (p_x (player s)) (n_mul (n_div ex (dist2 ex ey)) (Fin 200)))) \<and>
        mouseY (updateBot d1 d2 s) =
          n_max (Fin 50) (n_min (Fin (height s - 50))
            (n_add (p_y (player s)) (n_mul (n_div ey (dist2 ex ey)) (Fin 200)))) \<and>
        mouseDown (updateBot d1 d2 s) = (energy s > 20)"
    using assms by (simp add: updateBot_def Let_def)
  have b: "inDanger \<and> \<not> n_gt (dist2 ex ey) (Fin 0) \<longrightarrow>
        mouseX (updateBot d1 d2 s) = n_max (Fin 50) (n_min (Fin (width s - 50)) (mouseX s)) \<and>
        mouseY (updateBot d1 d2 s) = n_max (Fin 50) (n_min (Fin (height s - 50)) (mouseY s)) \<and>
        mouseDown (updateBot d1 d2 s) = (energy s > 20)"
    using assms by (simp add: updateBot_def Let_def)
  have c: "\<forall>a b. ex = Fin a \<and> ey = Fin b \<and> (a \<noteq> 0 \<or> b \<noteq> 0) \<longrightarrow>
        inDanger \<and> n_gt (dist2 ex ey) (Fin 0)"
  proof (intro allI impI)
    fix a b
    assume h: "ex = Fin a \<and> ey = Fin b \<and> (a \<noteq> 0 \<or> b \<noteq> 0)"
    have "inDanger"
    proof (rule ccontr)
      assume "\<not> inDanger"
      then have "evasion s = (ex, ey, False)" using assms(2) by simp
      from evasion_safe [OF this] h show False by simp
    qed
    moreover have "n_gt (dist2 ex ey) (Fin 0)" using h dist2_pos [of a b] by simp
    ultimately show "inDanger \<and> n_gt (dist2 ex ey) (Fin 0)" by simp
  qed
  have d: "\<forall>c. \<not> inDanger \<and> bestOf s = Some c \<longrightarrow>
        mouseX (updateBot d1 d2 s) = n_max (Fin 50) (n_min (Fin (width s - 50)) (c_x c)) \<and>
        mouseY (updateBot d1 d2 s) = n_max (Fin 50) (n_min (Fin (height s - 50)) (c_y c)) \<and>
        mouseDown (updateBot d1 d2 s) =
          (n_gt (n_hypot (n_sub (c_x c) (p_x (player s))) (n_sub (c_y c) (p_y (player s))))
             (Fin 200) \<and> energy s > 30)"
    using assms by (simp add: updateBot_def Let_def)
  have w: "width (updateBot d1 d2 s) = width s" "height (updateBot d1 d2 s) = height s"
    by (simp_all add: updateBot_def Let_def split: prod.splits option.splits)
  have "\<exists>v. mouseX (updateBot d1 d2 s) = n_max (Fin 50) (n_min (Fin (width s - 50)) v)"
    using assms(1) by (auto simp add: updateBot_def Let_def split: prod.splits option.splits)
  then obtain v where v: "mouseX (updateBot d1 d2 s) = n_max (Fin 50) (n_min (Fin (width s - 50)) v)"
    by blast
  have e: "100 \<le> width s \<and> mouseX (updateBot d1 d2 s) \<noteq> NaN \<longrightarrow>
        (\<exists>x. mouseX (updateBot d1 d2 s) = Fin x \<and> 50 \<le> x \<and> x \<le> width s - 50)"
    unfolding v using clamp_range [of "width s - 50" v] by simp
  have "\<exists>v. mouseY (updateBot d1 d2 s) = n_max (Fin 50) (n_min (Fin (height s - 50)) v)"
    using assms(1) by (auto simp add: updateBot_def Let_def split: prod.splits option.splits)
  then obtain u where u: "mouseY (updateBot d1 d2 s) = n_max (Fin 50) (n_min (Fin (height s - 50)) u)"
    by blast
  have f: "100 \<le> height s \<and> mouseY (updateBot d1 d2 s) \<noteq> NaN \<longrightarrow>
        (\<exists>y. mouseY (updateBot d1 d2 s) = Fin y \<and> 50 \<le> y \<and> y \<le> height s - 50)"
    unfolding u using clamp_range [of "height s - 50" u] by simp
  from a b c d e f show ?thesis by blast
qed

lemma piloted_evasion:
  "botEnabled piloted \<and> evasion piloted = (Fin 0, Fin 0, False) \<and>
   bestOf piloted = Some (hd (collectibles piloted)) \<and>
   c_x (hd (collectibles piloted)) = Fin 700 \<and> c_y (hd (collectibles piloted)) = Fin 300 \<and>
   p_x (player piloted) = Fin 400 \<and> p_y (player piloted) = Fin 300 \<and>
   energy piloted = 100 \<and> width piloted = 800 \<and> height piloted = 600"
  by (simp add: piloted_def demo_def resetRun_def constructed_def createPlayer_def
      evasion_def bestOf_def typeBonus_def Let_def n_sub_def n_gt_def)

lemma threatened_evasion:
  "botEnabled threatened \<and> evasion threatened = (Fin (11 / 8), Fin 0, True) \<and>
   p_x (player threatened) = Fin 400 \<and> p_y (player threatened) = Fin 300 \<and>
   energy threatened = 100 \<and> width threatened = 800 \<and> height threatened = 600"
  by (simp add: threatened_def piloted_def demo_def resetRun_def constructed_def
      createPlayer_def holeAt_def evasion_def Let_def n_sub_def n_gt_def)

lemma flanked_evasion:
  "botEnabled flanked \<and> evasion flanked = (Fin 0, Fin 0, True) \<and>
   bestOf flanked = Some (hd (collectibles flanked)) \<and>
   c_x (hd (collectibles flanked)) = Fin 700 \<and>
   mouseX flanked = Fin 100 \<and> mouseY flanked = Fin 300 \<and>
   energy flanked = 100 \<and> width flanked = 800 \<and> height flanked = 600"
  by (simp add: flanked_def piloted_def demo_def resetRun_def constructed_def
      createPlayer_def holeAt_def evasion_def bestOf_def typeBonus_def Let_def n_sub_def n_gt_def)

theorem pilot_decision_witness:
  "botEnabled threatened \<and> evasion threatened = (Fin (11 / 8), Fin 0, True) \<and>
   n_gt (dist2 (Fin (11 / 8)) (Fin 0)) (Fin 0) \<and>
   mouseX (updateBot 0 0 threatened) = Fin 600 \<and> mouseY (updateBot 0 0 threatened) = Fin 300 \<and>
   mouseDown (updateBot 0 0 threatened) \<and>
   botEnabled flanked \<and> evasion flanked = (Fin 0, Fin 0, True) \<and>
   \<not> n_gt (dist2 (Fin 0) (Fin 0)) (Fin 0) \<and>
   mouseX (updateBot 0 0 flanked) = Fin 100 \<and> mouseY (updateBot 0 0 flanked) = Fin 300 \<and>
   mouseDown (updateBot 0 0 flanked) \<and>
   botEnabled piloted \<and> evasion piloted = (Fin 0, Fin 0, False) \<and>
   bestOf piloted = Some (hd (collectibles piloted)) \<and>
   mouseX (updateBot 0 0 piloted) = Fin 700 \<and> mouseY (updateBot 0 0 piloted) = Fin 300 \<and>
   mouseDown (updateBot 0 0 piloted) \<and>
   (100::real) \<le> width piloted \<and> 100 \<le> height piloted \<and>
   (\<exists>x. mouseX (updateBot 0 0 piloted) = Fin x \<and> 50 \<le> x \<and> x \<le> width piloted - 50)"
proof -
  note t = threatened_evasion and f = flanked_evasion and p = piloted_evasion
  have g1: "n_gt (dist2 (Fin (11 / 8)) (Fin 0)) (Fin 0)" by (simp add: n_gt_def)
  have g2: "\<not> n_gt (dist2 (Fin 0) (Fin 0)) (Fin 0)" by (simp add: n_gt_def)
  have w1: "mouseX (updateBot 0 0 threatened) = Fin 600 \<and>
            mouseY (updateBot 0 0 threatened) = Fin 300 \<and> mouseDown (updateBot 0 0 threatened)"
    using pilot_decision [OF t [THEN conjunct1] t [THEN conjunct2, THEN conjunct1], of 0 0,
        THEN conjunct1] t
    by (simp add: n_gt_def n_min_def n_max_def)
  have w2: "mouseX (updateBot 0 0 flanked) = Fin 100 \<and>
            mouseY (updateBot 0 0 flanked) = Fin 300 \<and> mouseDown (updateBot 0 0 flanked)"
    using pilot_decision [OF f [THEN conjunct1] f [THEN conjunct2, THEN conjunct1], of 0 0,
        THEN conjunct2, THEN conjunct1] f
    by (simp add: n_gt_def n_min_def n_max_def)
  have w3: "mouseX (updateBot 0 0 piloted) = Fin 700 \<and>
            mouseY (updateBot 0 0 piloted) = Fin 300 \<and> mouseDown (updateBot 0 0 piloted)"
    using pilot_decision [OF p [THEN conjunct1] p [THEN conjunct2, THEN conjunct1], of 0 0,
        THEN conjunct2, THEN conjunct2, THEN conjunct2, THEN conjunct1,
        THEN spec, of "hd (collectibles piloted)"] p
    by (simp add: n_gt_def n_min_def n_max_def n_sub_def)
  have w4: "\<exists>x. mouseX (updateBot 0 0 piloted) = Fin x \<and> 50 \<le> x \<and> x \<le> width piloted - 50"
    using pilot_decision [OF p [THEN conjunct1] p [THEN conjunct2, THEN conjunct1], of 0 0,
        THEN conjunct2, THEN conjunct2, THEN conjunct2, THEN conjunct2, THEN conjunct1] w3 p
    by simp
  show ?thesis using t f p g1 g2 w1 w2 w3 w4 by simp
qed

text \<open>
  The claim as stated fails twice. In \<open>flanked\<close> the two holes cancel: the evasion
  vector is zero and a best collectible exists, at x = 700, yet the target is not set to
  it and stays at x = 100, because a threat is in range. In \<open>narrow\<close>, on a canvas 80
  wide, the clamped target is x = 50, which is 30 from the right edge.
\<close>

theorem pilot_decision_counterexample:
  "botEnabled flanked \<and> evasion flanked = (Fin 0, Fin 0, True) \<and>
   bestOf flanked = Some (hd (collectibles flanked)) \<and>
   c_x (hd (collectibles flanked)) = Fin 700 \<and>
   mouseX (updateBot 0 0 flanked) = Fin 100 \<and>
   mouseX (updateBot 0 0 flanked) \<noteq> c_x (hd (collectibles flanked)) \<and>
   mouseX (updateBot 0 0 narrow) = Fin 50 \<and> width narrow - 50 = 30"
proof -
  have m: "mouseX (updateBot 0 0 flanked) = Fin 100"
    using flanked_evasion by (simp add: updateBot_def Let_def n_gt_def n_min_def n_max_def)
  have n: "mouseX (updateBot 0 0 narrow) = Fin 50 \<and> width narrow - 50 = 30"
    using piloted_evasion
    by (simp add: narrow_def updateBot_def piloted_def demo_def resetRun_def constructed_def
      createPlayer_def evasion_def bestOf_def typeBonus_def Let_def n_sub_def n_gt_def
      n_min_def n_max_def)
  show ?thesis using flanked_evasion m n by simp
qed

end
